(* ===== verification/Prelude.thy ===== *)
theory Prelude
  imports Main "HOL-Library.Word" "HOL-Library.Multiset" "HOL-Library.List_Lexorder"
    "HOL-Library.Char_ord" "HOL-Library.AList" "HOL-Library.State_Monad" "HOL-Library.Sublist"
begin

text \<open>
  The parts of the Go language and of its standard library that the components share:
  errors as values, the string functions the sources call, decimal printing (\<open>%d\<close>),
  \<open>sort.Slice\<close>, maps with their unspecified iteration order, signed machine integers, and
  a small logic of triples for the state monad in which the database code is written.

  The interface theory of \<open>sort.Slice\<close> is the locale \<open>slice_order\<close>: a client interprets
  it on its comparison function and obtains that the result is a sorted permutation of the
  input, and that it is the only one when the elements are pairwise comparable.
\<close>

section \<open>Collections of facts\<close>

named_theorems go_simps \<open>equations of the Go library functions\<close>
named_theorems run_simps \<open>evaluation of state-monad programs\<close>

declare run_state_bind [run_simps] run_state_return [run_simps] run_state_get [run_simps]
  run_state_set [run_simps]

section \<open>Machine integers\<close>

type_synonym int64 = "64 word"
type_synonym int32 = "32 word"
type_synonym uint64 = "64 word"

lemma sint_range64: "- (2 ^ 63) \<le> sint (x :: int64)" "sint (x :: int64) < 2 ^ 63"
  using sint_greater_eq [of x] sint_less [of x] by simp_all

lemma sint_range32: "- (2 ^ 31) \<le> sint (x :: int32)" "sint (x :: int32) < 2 ^ 31"
  using sint_greater_eq [of x] sint_less [of x] by simp_all

lemma sint_of_int64: "- (2 ^ 63) \<le> i \<Longrightarrow> i < 2 ^ 63 \<Longrightarrow> sint (word_of_int i :: int64) = i"
  by (simp add: sint_sbintrunc' signed_take_bit_int_eq_self)

lemma sint_of_int32: "- (2 ^ 31) \<le> i \<Longrightarrow> i < 2 ^ 31 \<Longrightarrow> sint (word_of_int i :: int32) = i"
  by (simp add: sint_sbintrunc' signed_take_bit_int_eq_self)

lemma sint_add64:
  fixes x y :: int64
  assumes "- (2 ^ 63) \<le> sint x + sint y" "sint x + sint y < 2 ^ 63"
  shows "sint (x + y) = sint x + sint y"
proof -
  have "x + y = word_of_int (sint x + sint y)" by simp
  then show ?thesis using sint_of_int64 [OF assms] by simp
qed

lemma sint_mult64:
  fixes x y :: int64
  assumes "- (2 ^ 63) \<le> sint x * sint y" "sint x * sint y < 2 ^ 63"
  shows "sint (x * y) = sint x * sint y"
proof -
  have "x * y = word_of_int (sint x * sint y)" by simp
  then show ?thesis using sint_of_int64 [OF assms] by simp
qed

lemma sint_inc32:
  fixes x :: int32
  assumes "sint x < 2 ^ 31 - 1"
  shows "sint (x + 1) = sint x + 1"
proof -
  have "x + 1 = word_of_int (sint x + 1)" by simp
  then show ?thesis
    using sint_of_int32 [of "sint x + 1"] sint_range32 [of x] assms by simp
qed

lemma sint_eq_iff [simp]: "sint a = sint b \<longleftrightarrow> a = b"
  by (simp add: word_eq_iff_signed [where 'a = int])

text \<open>The builtin \<open>max\<close> on signed integers.\<close>

definition smax :: "('a::len) word \<Rightarrow> 'a word \<Rightarrow> 'a word" where
  "smax a b = (if sint a < sint b then b else a)"

lemma sint_smax [simp]: "sint (smax a b) = max (sint a) (sint b)"
  by (simp add: smax_def)

lemma smax_cases: "smax a b = a \<or> smax a b = b"
  by (simp add: smax_def)

section \<open>Errors\<close>

text \<open>
  An \<open>error\<close> value. \<open>ErrNoRows\<close> is the sentinel \<open>sql.ErrNoRows\<close>, \<open>ErrText\<close> an error
  with a text (\<open>errors.New\<close>, \<open>fmt.Errorf\<close> without a wrapped error, a driver error),
  \<open>ErrWrap msg e\<close> is \<open>fmt.Errorf("msg: %w", e)\<close>. \<open>ErrPanic\<close> is a run-time panic, which
  unwinds the caller in the same way. \<open>ErrFuel\<close> is the value of a loop that has not ended
  within its bound: a loop that can return it comes with a theorem that gives a sufficient
  bound.
\<close>

datatype go_error = ErrNoRows | ErrText string | ErrWrap string go_error | ErrPanic string | ErrFuel

fun error_text :: "go_error \<Rightarrow> string" where
  "error_text ErrNoRows = ''sql: no rows in result set''"
| "error_text (ErrText s) = s"
| "error_text (ErrWrap s e) = s @ '': '' @ error_text e"
| "error_text (ErrPanic s) = ''panic: '' @ s"
| "error_text ErrFuel = ''loop bound reached''"

type_synonym 'a result = "go_error + 'a"

section \<open>Time\<close>

text \<open>
  A \<open>time.Time\<close> is the number of nanoseconds since Go's zero time (year 1), so that
  \<open>IsZero\<close> compares with 0; \<open>UnixNano\<close> counts from 1970 and wraps at 64 bits. The location
  of a time value only affects how it is printed.
\<close>

type_synonym Time = int

definition Time_IsZero :: "Time \<Rightarrow> bool" where
  "Time_IsZero t \<longleftrightarrow> t = 0"

definition UnixNano :: "Time \<Rightarrow> int64" where
  "UnixNano t = word_of_int (t - 62135596800 * 1000000000)"

section \<open>Strings\<close>

text \<open>\<open>strings.Contains\<close>, \<open>strings.ToLower\<close> (ASCII), \<open>strings.HasSuffix\<close>, \<open>strings.Trim\<close>.\<close>

fun str_contains :: "string \<Rightarrow> string \<Rightarrow> bool" where
  "str_contains [] sub = (sub = [])"
| "str_contains (c # s) sub = (prefix sub (c # s) \<or> str_contains s sub)"

lemma str_contains_iff: "str_contains s sub \<longleftrightarrow> (\<exists>p q. s = p @ sub @ q)"
proof (induction s)
  case Nil
  then show ?case by simp
next
  case (Cons c s)
  have "(\<exists>p q. c # s = p @ sub @ q) \<longleftrightarrow> prefix sub (c # s) \<or> (\<exists>p q. s = p @ sub @ q)"
  proof
    assume "\<exists>p q. c # s = p @ sub @ q"
    then obtain p q where pq: "c # s = p @ sub @ q" by blast
    show "prefix sub (c # s) \<or> (\<exists>p q. s = p @ sub @ q)"
    proof (cases p)
      case Nil
      with pq show ?thesis by (metis append_Nil prefixI)
    next
      case (Cons a p')
      with pq show ?thesis by auto
    qed
  next
    assume "prefix sub (c # s) \<or> (\<exists>p q. s = p @ sub @ q)"
    then show "\<exists>p q. c # s = p @ sub @ q"
      by (metis append_Cons append_Nil prefixE)
  qed
  with Cons.IH show ?case by simp
qed

lemma str_contains_append1: "str_contains s sub \<Longrightarrow> str_contains (s @ t) sub"
  unfolding str_contains_iff by (metis append.assoc)

lemma str_contains_append2: "str_contains t sub \<Longrightarrow> str_contains (s @ t) sub"
  unfolding str_contains_iff by (metis append.assoc)

definition lower_char :: "char \<Rightarrow> char" where
  "lower_char c = (let n = (of_char c :: nat) in if 65 \<le> n \<and> n \<le> 90 then char_of (n + 32) else c)"

definition str_lower :: "string \<Rightarrow> string" where
  "str_lower s = map lower_char s"

definition has_suffix :: "string \<Rightarrow> string \<Rightarrow> bool" where
  "has_suffix s suf = suffix suf s"

definition trim_char :: "char \<Rightarrow> string \<Rightarrow> string" where
  "trim_char c s = rev (dropWhile (\<lambda>x. x = c) (rev (dropWhile (\<lambda>x. x = c) s)))"

lemma dropWhile_hd_id: "xs = [] \<or> \<not> P (hd xs) \<Longrightarrow> dropWhile P xs = xs"
  by (cases xs) auto

lemma trim_char_leading [simp]: "trim_char c (c # s) = trim_char c s"
  by (simp add: trim_char_def)

lemma trim_char_id:
  assumes "s = [] \<or> hd s \<noteq> c \<and> last s \<noteq> c"
  shows "trim_char c s = s"
proof -
  have "dropWhile (\<lambda>x. x = c) s = s"
    using assms by (intro dropWhile_hd_id) auto
  moreover have "dropWhile (\<lambda>x. x = c) (rev s) = rev s"
    using assms by (intro dropWhile_hd_id) (auto simp: hd_rev)
  ultimately show ?thesis by (simp add: trim_char_def)
qed

section \<open>Decimal printing\<close>

definition digit_char :: "nat \<Rightarrow> char" where
  "digit_char d = char_of (48 + d)"

fun show_nat :: "nat \<Rightarrow> string" where
  "show_nat n = (if n < 10 then [digit_char n] else show_nat (n div 10) @ [digit_char (n mod 10)])"

declare show_nat.simps [simp del]

definition show_int :: "int \<Rightarrow> string" where
  "show_int i = (if i < 0 then CHR ''-'' # show_nat (nat (- i)) else show_nat (nat i))"

definition dec_value :: "string \<Rightarrow> nat" where
  "dec_value s = foldl (\<lambda>a c. 10 * a + (of_char c - 48)) 0 s"

lemma of_char_digit [simp]: "d < 10 \<Longrightarrow> of_char (digit_char d) = 48 + d"
  by (simp add: digit_char_def)

lemma dec_value_show_nat: "dec_value (show_nat n) = n"
proof (induction n rule: show_nat.induct)
  case (1 n)
  show ?case
  proof (cases "n < 10")
    case True
    then show ?thesis by (simp add: dec_value_def show_nat.simps [of n])
  next
    case False
    with 1 have "dec_value (show_nat (n div 10)) = n div 10" by simp
    with False show ?thesis
      by (simp add: show_nat.simps [of n] dec_value_def)
  qed
qed

lemma show_nat_digits: "c \<in> set (show_nat n) \<Longrightarrow> \<exists>d < 10. c = digit_char d"
proof (induction n rule: show_nat.induct)
  case (1 n)
  show ?case
  proof (cases "n < 10")
    case True
    with 1(2) show ?thesis by (auto simp: show_nat.simps [of n])
  next
    case False
    then have "set (show_nat n) = insert (digit_char (n mod 10)) (set (show_nat (n div 10)))"
      by (simp add: show_nat.simps [of n])
    with False 1 show ?thesis by (metis insertE mod_less_divisor zero_less_numeral)
  qed
qed

lemma show_nat_nonempty [simp]: "show_nat n \<noteq> []"
  by (subst show_nat.simps) simp

lemma show_nat_no_colon: "CHR '':'' \<notin> set (show_nat n)"
proof
  assume "CHR '':'' \<in> set (show_nat n)"
  then obtain d where "d < 10" "CHR '':'' = digit_char d" using show_nat_digits by blast
  then have "of_char (CHR '':'') = 48 + d" by simp
  with \<open>d < 10\<close> show False by simp
qed

lemma show_nat_no_minus: "CHR ''-'' \<notin> set (show_nat n)"
proof
  assume "CHR ''-'' \<in> set (show_nat n)"
  then obtain d where "d < 10" "CHR ''-'' = digit_char d" using show_nat_digits by blast
  then have "of_char (CHR ''-'') = 48 + d" by simp
  with \<open>d < 10\<close> show False by simp
qed

lemma show_int_no_colon: "CHR '':'' \<notin> set (show_int i)"
  by (simp add: show_int_def show_nat_no_colon)

lemma show_nat_inj: "show_nat m = show_nat n \<Longrightarrow> m = n"
  by (metis dec_value_show_nat)

lemma show_int_inj: "show_int i = show_int j \<Longrightarrow> i = j"
proof -
  assume eq: "show_int i = show_int j"
  have no_minus: "show_nat m \<noteq> CHR ''-'' # s" for m s
    using show_nat_no_minus [of m] by auto
  show "i = j"
  proof (cases "i < 0"; cases "j < 0")
    assume "i < 0" "j < 0"
    with eq have "nat (- i) = nat (- j)" by (auto simp: show_int_def dest: show_nat_inj)
    with \<open>i < 0\<close> \<open>j < 0\<close> show ?thesis by linarith
  next
    assume "\<not> i < 0" "\<not> j < 0"
    with eq have "nat i = nat j" by (auto simp: show_int_def dest: show_nat_inj)
    with \<open>\<not> i < 0\<close> \<open>\<not> j < 0\<close> show ?thesis by linarith
  qed (use eq no_minus in \<open>auto simp: show_int_def dest: sym\<close>)
qed

text \<open>A separator that does not occur in the first parts makes concatenation injective.\<close>

lemma split_at_sep:
  assumes "a @ c # x = b @ c # y" "c \<notin> set a" "c \<notin> set b"
  shows "a = b \<and> x = y"
  using assms
proof (induction a arbitrary: b)
  case Nil
  then show ?case by (cases b) auto
next
  case (Cons d a)
  then show ?case by (cases b) auto
qed

section \<open>sort.Slice\<close>

text \<open>
  \<open>sort.Slice(xs, less)\<close> permutes \<open>xs\<close> so that no element is less than one before it. Go
  leaves the order of equal elements open; the model is the stable insertion sort, and
  \<open>sort_slice_unique\<close> below says when that choice cannot be observed.
\<close>

fun insert_by :: "('a \<Rightarrow> 'a \<Rightarrow> bool) \<Rightarrow> 'a \<Rightarrow> 'a list \<Rightarrow> 'a list" where
  "insert_by lt x [] = [x]"
| "insert_by lt x (y # ys) = (if lt y x then y # insert_by lt x ys else x # y # ys)"

fun sort_slice :: "('a \<Rightarrow> 'a \<Rightarrow> bool) \<Rightarrow> 'a list \<Rightarrow> 'a list" where
  "sort_slice lt [] = []"
| "sort_slice lt (x # xs) = insert_by lt x (sort_slice lt xs)"

lemma mset_insert_by [simp]: "mset (insert_by lt x ys) = add_mset x (mset ys)"
  by (induction ys) auto

lemma mset_sort_slice [simp]: "mset (sort_slice lt xs) = mset xs"
  by (induction xs) auto

lemma set_insert_by [simp]: "set (insert_by lt x ys) = insert x (set ys)"
  by (induction ys) auto

lemma set_sort_slice [simp]: "set (sort_slice lt xs) = set xs"
  by (induction xs) auto

lemma length_sort_slice [simp]: "length (sort_slice lt xs) = length xs"
  by (metis mset_sort_slice size_mset)

lemma distinct_sort_slice [simp]: "distinct (sort_slice lt xs) = distinct xs"
  by (metis mset_eq_imp_distinct_iff mset_sort_slice)

definition slice_sorted :: "('a \<Rightarrow> 'a \<Rightarrow> bool) \<Rightarrow> 'a list \<Rightarrow> bool" where
  "slice_sorted lt xs = sorted_wrt (\<lambda>x y. \<not> lt y x) xs"

definition comparable :: "('a \<Rightarrow> 'a \<Rightarrow> bool) \<Rightarrow> 'a set \<Rightarrow> bool" where
  "comparable lt A \<longleftrightarrow> (\<forall>x\<in>A. \<forall>y\<in>A. x \<noteq> y \<longrightarrow> lt x y \<or> lt y x)"

lemma comparable_subset: "comparable lt B \<Longrightarrow> A \<subseteq> B \<Longrightarrow> comparable lt A"
  by (auto simp: comparable_def)

locale slice_order =
  fixes lt :: "'a \<Rightarrow> 'a \<Rightarrow> bool"
  assumes less_irrefl: "\<not> lt x x"
    and less_trans: "lt x y \<Longrightarrow> lt y z \<Longrightarrow> lt x z"
    and less_weak: "lt x z \<Longrightarrow> lt x y \<or> lt y z"
begin

lemma sorted_insert_by:
  "slice_sorted lt ys \<Longrightarrow> slice_sorted lt (insert_by lt x ys)"
proof (induction ys)
  case Nil
  then show ?case by (simp add: slice_sorted_def)
next
  case (Cons y ys)
  show ?case
  proof (cases "lt y x")
    case True
    have "slice_sorted lt (insert_by lt x ys)"
      using Cons by (simp add: slice_sorted_def)
    moreover have "\<not> lt x y" using True less_trans less_irrefl by blast
    ultimately show ?thesis using True Cons.prems by (auto simp: slice_sorted_def)
  next
    case False
    have "\<not> lt z x" if "z \<in> set ys" for z
      using that Cons.prems False less_weak [of z x y] by (auto simp: slice_sorted_def)
    then show ?thesis using False Cons.prems by (auto simp: slice_sorted_def)
  qed
qed

lemma sorted_sort_slice: "slice_sorted lt (sort_slice lt xs)"
  by (induction xs) (auto simp: slice_sorted_def intro: sorted_insert_by [unfolded slice_sorted_def])

lemma sorted_unique:
  assumes "mset xs = mset ys" "slice_sorted lt xs" "slice_sorted lt ys"
    "comparable lt (set xs)"
  shows "xs = ys"
  using assms
proof (induction xs arbitrary: ys)
  case Nil
  then show ?case by simp
next
  case (Cons x xs)
  from Cons.prems(1) obtain y ys' where ys: "ys = y # ys'" by (cases ys) auto
  have set_eq: "set (x # xs) = set (y # ys')"
    using Cons.prems(1) ys by (metis set_mset_mset)
  have "x = y"
  proof (rule ccontr)
    assume "x \<noteq> y"
    then have mem: "y \<in> set xs" "x \<in> set ys'" using set_eq by auto
    then have "\<not> lt y x" using Cons.prems(2) by (simp add: slice_sorted_def)
    moreover have "\<not> lt x y" using Cons.prems(3) ys mem by (simp add: slice_sorted_def)
    moreover have "lt x y \<or> lt y x"
      using Cons.prems(4) mem \<open>x \<noteq> y\<close> by (simp add: comparable_def)
    ultimately show False by blast
  qed
  moreover have "xs = ys'"
  proof (rule Cons.IH)
    show "mset xs = mset ys'" using Cons.prems(1) ys \<open>x = y\<close> by simp
    show "slice_sorted lt xs" using Cons.prems(2) by (simp add: slice_sorted_def)
    show "slice_sorted lt ys'" using Cons.prems(3) ys by (simp add: slice_sorted_def)
    show "comparable lt (set xs)"
      using Cons.prems(4) by (rule comparable_subset) auto
  qed
  ultimately show ?case using ys by simp
qed

lemma sort_slice_unique:
  assumes "mset ys = mset xs" "slice_sorted lt ys" "comparable lt (set xs)"
  shows "ys = sort_slice lt xs"
proof (rule sorted_unique)
  show "mset ys = mset (sort_slice lt xs)" using assms(1) by simp
  show "slice_sorted lt (sort_slice lt xs)" by (rule sorted_sort_slice)
  show "comparable lt (set ys)" using assms(1,3) by (metis set_mset_mset)
qed (fact assms(2))

lemma sort_slice_cong_mset:
  assumes "mset xs = mset ys" "comparable lt (set xs)"
  shows "sort_slice lt xs = sort_slice lt ys"
  using assms by (intro sort_slice_unique) (auto simp: sorted_sort_slice dest: mset_eq_setD)

lemma strict_of_sorted:
  "slice_sorted lt ws \<Longrightarrow> distinct ws \<Longrightarrow> comparable lt (set ws) \<Longrightarrow> sorted_wrt lt ws"
  by (induction ws) (auto simp: slice_sorted_def comparable_def)

lemma sort_slice_strict:
  "distinct xs \<Longrightarrow> comparable lt (set xs) \<Longrightarrow> sorted_wrt lt (sort_slice lt xs)"
  by (rule strict_of_sorted) (simp_all add: sorted_sort_slice)

lemma strict_facts:
  assumes "sorted_wrt lt xs"
  shows "distinct xs" and "slice_sorted lt xs" and "comparable lt (set xs)"
  using assms
  by (induction xs) (auto simp: slice_sorted_def comparable_def less_irrefl dest: less_trans)

lemma strict_sorted_unique:
  assumes "sorted_wrt lt xs" "sorted_wrt lt ys" "set xs = set ys"
  shows "xs = ys"
proof (rule sorted_unique)
  show "mset xs = mset ys"
    using assms strict_facts(1) by (simp add: set_eq_iff_mset_eq_distinct)
qed (use assms strict_facts in auto)

end

section \<open>Maps\<close>

text \<open>
  A Go map is an association list with distinct keys, updated by \<open>AList.update\<close>. The order
  in which \<open>range\<close> visits the entries is unspecified: a function that iterates over a map
  takes an argument \<open>it\<close> that permutes the entries, and \<open>range_ok\<close> is all that is known
  of it.
\<close>

definition range_ok :: "('a list \<Rightarrow> 'a list) \<Rightarrow> bool" where
  "range_ok it \<longleftrightarrow> (\<forall>xs. mset (it xs) = mset xs)"

lemma range_okD: "range_ok it \<Longrightarrow> mset (it xs) = mset xs"
  by (simp add: range_ok_def)

lemma range_ok_set: "range_ok it \<Longrightarrow> set (it xs) = set xs"
  by (metis range_okD set_mset_mset)

lemma range_ok_distinct: "range_ok it \<Longrightarrow> distinct (it xs) = distinct xs"
  by (metis mset_eq_imp_distinct_iff range_okD)

lemma range_ok_id: "range_ok (\<lambda>xs. xs)"
  by (simp add: range_ok_def)

lemma range_ok_rev: "range_ok rev"
  by (simp add: range_ok_def)

definition map_wf :: "('k \<times> 'v) list \<Rightarrow> bool" where
  "map_wf m \<longleftrightarrow> distinct (map fst m)"

lemma map_wf_Nil [simp]: "map_wf []"
  by (simp add: map_wf_def)

lemma map_wf_update [simp]: "map_wf m \<Longrightarrow> map_wf (AList.update k v m)"
  by (simp add: map_wf_def distinct_update)

lemma map_of_update [simp]: "map_of (AList.update k v m) = (map_of m)(k \<mapsto> v)"
  by (simp add: update_conv')

lemma map_wf_lookup: "map_wf m \<Longrightarrow> map_of m k = Some v \<longleftrightarrow> (k, v) \<in> set m"
  by (simp add: map_wf_def)

lemma map_wf_distinct: "map_wf m \<Longrightarrow> distinct m"
  by (simp add: map_wf_def distinct_map)

section \<open>The least element for each key\<close>

text \<open>
  A loop that keeps, in a map, the element of least rank for each key: what it holds at the
  end depends only on the set of the elements, if the rank is injective on it.
\<close>

definition keep_least :: "('a \<Rightarrow> 'k) \<Rightarrow> ('a \<Rightarrow> 'h::linorder) \<Rightarrow> ('k \<times> 'a) list \<Rightarrow> 'a \<Rightarrow> ('k \<times> 'a) list" where
  "keep_least key rank m x =
     (case map_of m (key x) of
        None \<Rightarrow> AList.update (key x) x m
      | Some e \<Rightarrow> if rank x < rank e then AList.update (key x) x m else m)"

definition least_per_key :: "('a \<Rightarrow> 'k) \<Rightarrow> ('a \<Rightarrow> 'h::linorder) \<Rightarrow> 'a set \<Rightarrow> 'a set" where
  "least_per_key key rank S = {x \<in> S. \<forall>y \<in> S. key y = key x \<longrightarrow> rank x \<le> rank y}"

lemma keep_least_wf: "map_wf m \<Longrightarrow> map_wf (foldl (keep_least key rank) m xs)"
  by (induction xs arbitrary: m) (auto simp: keep_least_def split: option.splits)

lemma keep_least_dom:
  "dom (map_of (foldl (keep_least key rank) m xs)) = dom (map_of m) \<union> key ` set xs"
  by (induction xs arbitrary: m) (auto simp: keep_least_def split: option.splits if_splits)

lemma least_per_key_new:
  "\<forall>y \<in> S. key y \<noteq> key x \<Longrightarrow> least_per_key key rank (insert x S) = insert x (least_per_key key rank S)"
  by (auto simp: least_per_key_def)

lemma least_per_key_unique:
  assumes inj: "inj_on rank S" and a: "a \<in> least_per_key key rank S" and b: "b \<in> least_per_key key rank S"
    and eq: "key a = key b"
  shows "a = b"
proof -
  have mem: "a \<in> S" "b \<in> S" using a b by (simp_all add: least_per_key_def)
  have "rank a \<le> rank b" using a mem(2) eq by (simp add: least_per_key_def)
  moreover have "rank b \<le> rank a" using b mem(1) eq by (simp add: least_per_key_def)
  ultimately have "rank a = rank b" by (rule order.antisym)
  then show ?thesis using inj mem by (simp add: inj_on_eq_iff)
qed

lemma least_per_key_smaller:
  assumes e: "e \<in> least_per_key key rank S" "key e = key x" and lt: "rank x < rank e"
  shows "least_per_key key rank (insert x S) = insert x {y \<in> least_per_key key rank S. key y \<noteq> key x}"
proof -
  have low: "rank x < rank y" if "y \<in> S" "key y = key x" for y
    using that e lt by (auto simp: least_per_key_def intro: order_less_le_trans)
  show ?thesis
    unfolding least_per_key_def using low by (auto simp: less_imp_le) (metis leD)+
qed

lemma least_per_key_larger:
  assumes inj: "inj_on rank (insert x S)" and e: "e \<in> least_per_key key rank S" "key e = key x"
    and ge: "\<not> rank x < rank e"
  shows "least_per_key key rank (insert x S) = least_per_key key rank S"
proof (cases "x \<in> S")
  case False
  have "e \<in> S" using e by (simp add: least_per_key_def)
  then have "rank e \<noteq> rank x" using inj False by (auto simp: inj_on_def)
  then have gt: "rank e < rank x" using ge by simp
  have "rank y \<le> rank x" if "y \<in> least_per_key key rank S" "key y = key x" for y
    using that \<open>e \<in> S\<close> e(2) gt by (force simp: least_per_key_def)
  moreover have "x \<notin> least_per_key key rank (insert x S)"
    using gt \<open>e \<in> S\<close> e(2) by (force simp: least_per_key_def)
  ultimately show ?thesis by (auto simp: least_per_key_def)
qed (simp add: insert_absorb)

definition least_map :: "('a \<Rightarrow> 'k) \<Rightarrow> ('a \<Rightarrow> 'h::linorder) \<Rightarrow> ('k \<times> 'a) list \<Rightarrow> 'a set \<Rightarrow> bool" where
  "least_map key rank m S \<longleftrightarrow> (\<forall>k c. map_of m k = Some c \<longleftrightarrow> c \<in> least_per_key key rank S \<and> key c = k)"

lemma keep_least_step:
  assumes inv: "least_map key rank m S" and dm: "dom (map_of m) = key ` S"
    and inj: "inj_on rank (insert x S)"
  shows "least_map key rank (keep_least key rank m x) (insert x S)"
proof (cases "map_of m (key x)")
  case None
  then have new: "\<forall>y \<in> S. key y \<noteq> key x" using dm by (metis domIff image_eqI)
  then have "\<forall>y \<in> least_per_key key rank S. key y \<noteq> key x" by (simp add: least_per_key_def)
  moreover have "keep_least key rank m x = AList.update (key x) x m" by (simp add: keep_least_def None)
  ultimately show ?thesis
    using inv unfolding least_map_def least_per_key_new [OF new, of rank] by auto
next
  case (Some e)
  then have e: "e \<in> least_per_key key rank S" "key e = key x" using inv by (simp_all add: least_map_def)
  show ?thesis
  proof (cases "rank x < rank e")
    case True
    then have "keep_least key rank m x = AList.update (key x) x m" by (simp add: keep_least_def Some)
    then show ?thesis
      using inv unfolding least_map_def least_per_key_smaller [OF e True] by auto
  next
    case False
    then have "keep_least key rank m x = m" by (simp add: keep_least_def Some)
    then show ?thesis
      using inv unfolding least_map_def least_per_key_larger [OF inj e False] by simp
  qed
qed

lemma keep_least_fold:
  "inj_on rank (set xs) \<Longrightarrow> least_map key rank (foldl (keep_least key rank) [] xs) (set xs)"
proof (induction xs rule: rev_induct)
  case Nil
  then show ?case by (simp add: least_map_def least_per_key_def)
next
  case (snoc x xs)
  have "inj_on rank (set xs)" using snoc.prems by (rule inj_on_subset) auto
  from keep_least_step [OF snoc.IH [OF this], of x] snoc.prems show ?case
    by (simp add: keep_least_dom)
qed

lemma keep_least_range:
  fixes key :: "'a \<Rightarrow> 'k"
  assumes it: "range_ok it" and inj: "inj_on rank (set xs)"
  defines "vs \<equiv> map snd (it (foldl (keep_least key rank) [] xs))"
  shows "set vs = least_per_key key rank (set xs)" "distinct vs"
proof -
  let ?m = "foldl (keep_least key rank) [] xs"
  have wf: "map_wf ?m" by (rule keep_least_wf) simp
  have mem: "(k, c) \<in> set ?m \<longleftrightarrow> c \<in> least_per_key key rank (set xs) \<and> key c = k" for k c
    using keep_least_fold [OF inj, of key] map_wf_lookup [OF wf, of k c] by (simp add: least_map_def)
  show "set vs = least_per_key key rank (set xs)"
    unfolding vs_def set_map range_ok_set [OF it] using mem by force
  have "inj_on snd (set ?m)" by (auto simp: inj_on_def mem)
  then show "distinct vs"
    unfolding vs_def by (simp add: distinct_map range_ok_set [OF it] range_ok_distinct [OF it] map_wf_distinct [OF wf])
qed

section \<open>Triples for the state monad\<close>

text \<open>
  \<open>triple P m Q\<close>: from every state satisfying \<open>P\<close>, the program \<open>m\<close> ends in a state and
  with a result that satisfy \<open>Q\<close>. Programs in the state monad are total.
\<close>

definition triple :: "('s \<Rightarrow> bool) \<Rightarrow> ('s, 'a) state \<Rightarrow> ('a \<Rightarrow> 's \<Rightarrow> bool) \<Rightarrow> bool" where
  "triple P m Q \<longleftrightarrow> (\<forall>s. P s \<longrightarrow> (case run_state m s of (x, s') \<Rightarrow> Q x s'))"

named_theorems triple_intros \<open>rules of the triple logic\<close>

lemma tripleI: "(\<And>s x s'. P s \<Longrightarrow> run_state m s = (x, s') \<Longrightarrow> Q x s') \<Longrightarrow> triple P m Q"
  by (auto simp: triple_def)

lemma tripleD: "triple P m Q \<Longrightarrow> P s \<Longrightarrow> run_state m s = (x, s') \<Longrightarrow> Q x s'"
  by (auto simp: triple_def)

lemma triple_return [triple_intros]: "(\<And>s. P s \<Longrightarrow> Q x s) \<Longrightarrow> triple P (State_Monad.return x) Q"
  by (auto simp: triple_def)

lemma triple_bind [triple_intros]:
  "triple P m R \<Longrightarrow> (\<And>x. triple (R x) (f x) Q) \<Longrightarrow> triple P (State_Monad.bind m f) Q"
  by (fastforce simp: triple_def split: prod.splits)

lemma triple_conseq:
  "triple P' m Q' \<Longrightarrow> (\<And>s. P s \<Longrightarrow> P' s) \<Longrightarrow> (\<And>x s. Q' x s \<Longrightarrow> Q x s) \<Longrightarrow> triple P m Q"
  by (fastforce simp: triple_def split: prod.splits)

lemma triple_pre: "triple P' m Q \<Longrightarrow> (\<And>s. P s \<Longrightarrow> P' s) \<Longrightarrow> triple P m Q"
  by (rule triple_conseq)

lemma triple_sum [triple_intros]:
  "(\<And>e. x = Inl e \<Longrightarrow> triple P (f e) Q) \<Longrightarrow> (\<And>a. x = Inr a \<Longrightarrow> triple P (g a) Q) \<Longrightarrow>
   triple P (case x of Inl e \<Rightarrow> f e | Inr a \<Rightarrow> g a) Q"
  by (cases x) auto

lemma triple_option [triple_intros]:
  "(x = None \<Longrightarrow> triple P f Q) \<Longrightarrow> (\<And>a. x = Some a \<Longrightarrow> triple P (g a) Q) \<Longrightarrow>
   triple P (case x of None \<Rightarrow> f | Some a \<Rightarrow> g a) Q"
  by (cases x) auto

lemma triple_list [triple_intros]:
  "(x = [] \<Longrightarrow> triple P f Q) \<Longrightarrow> (\<And>a as. x = a # as \<Longrightarrow> triple P (g a as) Q) \<Longrightarrow>
   triple P (case x of [] \<Rightarrow> f | a # as \<Rightarrow> g a as) Q"
  by (cases x) auto

lemma triple_if [triple_intros]:
  "(b \<Longrightarrow> triple P f Q) \<Longrightarrow> (\<not> b \<Longrightarrow> triple P g Q) \<Longrightarrow> triple P (if b then f else g) Q"
  by auto

lemma triple_prod [triple_intros]:
  "(\<And>a b. x = (a, b) \<Longrightarrow> triple P (f a b) Q) \<Longrightarrow> triple P (case x of (a, b) \<Rightarrow> f a b) Q"
  by (cases x) auto

text \<open>Programs that keep a predicate of the state, whatever they return.\<close>

definition keeps :: "('s \<Rightarrow> bool) \<Rightarrow> ('s, 'a) state \<Rightarrow> bool" where
  "keeps P m \<longleftrightarrow> triple P m (\<lambda>_. P)"

named_theorems keeps_intros \<open>rules for kept predicates\<close>

lemma keepsI: "(\<And>s. P s \<Longrightarrow> P (snd (run_state m s))) \<Longrightarrow> keeps P m"
  by (auto simp: keeps_def triple_def split: prod.splits) (metis snd_conv)

lemma keepsD: "keeps P m \<Longrightarrow> P s \<Longrightarrow> run_state m s = (x, s') \<Longrightarrow> P s'"
  by (auto simp: keeps_def triple_def)

lemma keeps_return [keeps_intros]: "keeps P (State_Monad.return x)"
  by (simp add: keeps_def triple_def)

lemma keeps_bind [keeps_intros]: "keeps P m \<Longrightarrow> (\<And>x. keeps P (f x)) \<Longrightarrow> keeps P (State_Monad.bind m f)"
  unfolding keeps_def by (rule triple_bind)

lemma keeps_sum [keeps_intros]:
  "(\<And>e. keeps P (f e)) \<Longrightarrow> (\<And>a. keeps P (g a)) \<Longrightarrow> keeps P (case x of Inl e \<Rightarrow> f e | Inr a \<Rightarrow> g a)"
  by (cases x) auto

lemma keeps_option [keeps_intros]:
  "keeps P f \<Longrightarrow> (\<And>a. keeps P (g a)) \<Longrightarrow> keeps P (case x of None \<Rightarrow> f | Some a \<Rightarrow> g a)"
  by (cases x) auto

lemma keeps_list [keeps_intros]:
  "keeps P f \<Longrightarrow> (\<And>a as. keeps P (g a as)) \<Longrightarrow> keeps P (case x of [] \<Rightarrow> f | a # as \<Rightarrow> g a as)"
  by (cases x) auto

lemma keeps_if [keeps_intros]: "keeps P f \<Longrightarrow> keeps P g \<Longrightarrow> keeps P (if b then f else g)"
  by simp

lemma keeps_prod [keeps_intros]: "(\<And>a b. keeps P (f a b)) \<Longrightarrow> keeps P (case x of (a, b) \<Rightarrow> f a b)"
  by (cases x) auto

lemma keeps_let [keeps_intros]: "keeps P (f x) \<Longrightarrow> keeps P (let y = x in f y)"
  by simp

end
