(* ===== verification/HLC.thy ===== *)
theory HLC
  imports Prelude "HOL-Library.Product_Lexorder"
begin

text \<open>
  The hybrid logical clock of \<open>protocol/hlc.go\<close>. A timestamp is a wall time in nanoseconds
  (\<open>int64\<close>), a logical counter (\<open>int32\<close>) and a peer id; the counter is kept at its width
  because \<open>Now\<close> and \<open>Update\<close> increment it without a check. \<open>time.Now().UnixNano()\<close> is the
  argument \<open>physicalTime\<close>. Both operations run under the clock's mutex, so a history of a
  clock is a list of operations (\<open>clock_run\<close>).

  The lemmas show that \<open>Less\<close> is a strict total order that agrees with \<open>Equal\<close>, that the
  timestamps a clock issues increase strictly whatever the physical clock does and whatever
  timestamps it receives, that the key \<open>String\<close> identifies a timestamp, and where the
  counter's width ends these guarantees.
\<close>

section \<open>Timestamps\<close>

record HLCTimestamp =
  Wall :: int64
  Logical :: int32
  PeerID :: string

record HLC =
  timestamp :: HLCTimestamp
  peerID :: string

definition MaxClockSkew :: int64 where
  "MaxClockSkew = 5 * 1000000000"

definition zeroHLC :: HLCTimestamp where
  "zeroHLC = \<lparr>Wall = 0, Logical = 0, PeerID = ''''\<rparr>"

definition Less :: "HLCTimestamp \<Rightarrow> HLCTimestamp \<Rightarrow> bool" where
  "Less h other =
     (if Wall h \<noteq> Wall other then sint (Wall h) < sint (Wall other)
      else if Logical h \<noteq> Logical other then sint (Logical h) < sint (Logical other)
      else PeerID h < PeerID other)"

definition Equal :: "HLCTimestamp \<Rightarrow> HLCTimestamp \<Rightarrow> bool" where
  "Equal h other \<longleftrightarrow>
     Wall h = Wall other \<and> Logical h = Logical other \<and> PeerID h = PeerID other"

definition HLC_IsZero :: "HLCTimestamp \<Rightarrow> bool" where
  "HLC_IsZero h \<longleftrightarrow> Wall h = 0 \<and> Logical h = 0 \<and> PeerID h = ''''"

definition HLC_String :: "HLCTimestamp \<Rightarrow> string" where
  "HLC_String h = show_int (sint (Wall h)) @ '':'' @ show_int (sint (Logical h)) @ '':'' @ PeerID h"

definition IsFutureSkew :: "HLCTimestamp \<Rightarrow> int64 \<Rightarrow> bool" where
  "IsFutureSkew h now = (let maxAllowed = now + MaxClockSkew in sint (Wall h) > sint maxAllowed)"

section \<open>The clock\<close>

definition NewHLC :: "string \<Rightarrow> int64 \<Rightarrow> HLC" where
  "NewHLC peer physicalTime =
     \<lparr>timestamp = \<lparr>Wall = physicalTime, Logical = 0, PeerID = peer\<rparr>, peerID = peer\<rparr>"

definition Now :: "HLC \<Rightarrow> int64 \<Rightarrow> HLCTimestamp \<times> HLC" where
  "Now c physicalTime =
     (let ts = (if sint (Wall (timestamp c)) \<ge> sint physicalTime
                then (timestamp c)\<lparr>Logical := Logical (timestamp c) + 1\<rparr>
                else (timestamp c)\<lparr>Wall := physicalTime, Logical := 0\<rparr>)
      in (\<lparr>Wall = Wall ts, Logical = Logical ts, PeerID = peerID c\<rparr>, c\<lparr>timestamp := ts\<rparr>))"

definition Update :: "HLC \<Rightarrow> HLCTimestamp \<Rightarrow> int64 \<Rightarrow> HLC" where
  "Update c remote physicalTime =
     (let t = timestamp c;
          maxWall = smax (Wall t) (smax (Wall remote) physicalTime)
      in if maxWall = Wall t \<and> maxWall = Wall remote
         then c\<lparr>timestamp := t\<lparr>Logical := smax (Logical t) (Logical remote) + 1\<rparr>\<rparr>
         else if maxWall = Wall t
         then c\<lparr>timestamp := t\<lparr>Logical := Logical t + 1\<rparr>\<rparr>
         else if maxWall = Wall remote
         then c\<lparr>timestamp := t\<lparr>Wall := Wall remote, Logical := Logical remote + 1\<rparr>\<rparr>
         else c\<lparr>timestamp := t\<lparr>Wall := physicalTime, Logical := 0\<rparr>\<rparr>)"

section \<open>The order on timestamps\<close>

lemma Equal_eq [simp]: "Equal a b \<longleftrightarrow> a = b"
  by (auto simp: Equal_def)

lemma HLC_IsZero_eq: "HLC_IsZero h \<longleftrightarrow> h = zeroHLC"
  by (auto simp: HLC_IsZero_def zeroHLC_def)

lemma HLC_IsZero_zeroHLC [simp]: "HLC_IsZero zeroHLC"
  by (simp add: HLC_IsZero_eq)

text \<open>
  The record type is an instance of the library's linear orders, with \<open>Less\<close> as its strict
  order, so that the library's facts on linear orders apply to timestamps. The order is that
  of the key, compared lexicographically.
\<close>

definition hlc_key :: "'a HLCTimestamp_scheme \<Rightarrow> int \<times> int \<times> string \<times> 'a" where
  "hlc_key h = (sint (Wall h), sint (Logical h), PeerID h, HLCTimestamp.more h)"

lemma hlc_key_inj: "hlc_key a = hlc_key b \<Longrightarrow> a = b"
  by (auto simp: hlc_key_def intro: HLCTimestamp.equality)

instantiation HLCTimestamp_ext :: (linorder) linorder
begin

definition less_HLCTimestamp_ext ::
  "('a::linorder) HLCTimestamp_scheme \<Rightarrow> 'a HLCTimestamp_scheme \<Rightarrow> bool" where
  "less_HLCTimestamp_ext a b \<longleftrightarrow> hlc_key a < hlc_key b"

definition less_eq_HLCTimestamp_ext ::
  "('a::linorder) HLCTimestamp_scheme \<Rightarrow> 'a HLCTimestamp_scheme \<Rightarrow> bool" where
  "less_eq_HLCTimestamp_ext a b \<longleftrightarrow> hlc_key a \<le> hlc_key b"

instance
  by standard
    (auto simp: less_HLCTimestamp_ext_def less_eq_HLCTimestamp_ext_def intro: hlc_key_inj)

end

lemma Less_less: "Less a b \<longleftrightarrow> a < b"
  by (auto simp: Less_def less_HLCTimestamp_ext_def hlc_key_def order_less_le)

lemma Less_not_less_eq: "\<not> Less a b \<longleftrightarrow> b \<le> a"
  by (simp add: Less_less not_less)

interpretation hlc: slice_order Less
  by unfold_locales (auto simp: Less_less)

lemma Less_comparable: "comparable Less A"
  by (auto simp: comparable_def Less_less)

text \<open>
  C31: \<open>Less\<close> is a strict total order on timestamps, and two timestamps that are not ordered
  either way are \<open>Equal\<close>: no two different events of a swarm compare as simultaneous.
\<close>

theorem Less_strict_total_order:
  "\<not> Less a a \<and> (Less a b \<and> Less b c \<longrightarrow> Less a c) \<and> (\<not> Less a b \<and> \<not> Less b a \<longleftrightarrow> Equal a b)"
  by (auto simp: Less_less)

theorem Less_strict_total_order_witness:
  "Less \<lparr>Wall = 1, Logical = 7, PeerID = ''a''\<rparr> \<lparr>Wall = 2, Logical = 1, PeerID = ''b''\<rparr> \<and>
   Less \<lparr>Wall = 2, Logical = 1, PeerID = ''b''\<rparr> \<lparr>Wall = 2, Logical = 1, PeerID = ''c''\<rparr> \<and>
   Less \<lparr>Wall = 1, Logical = 7, PeerID = ''a''\<rparr> \<lparr>Wall = 2, Logical = 1, PeerID = ''c''\<rparr>"
  using Less_strict_total_order
    [of "\<lparr>Wall = 1, Logical = 7, PeerID = ''a''\<rparr>" "\<lparr>Wall = 2, Logical = 1, PeerID = ''b''\<rparr>"
      "\<lparr>Wall = 2, Logical = 1, PeerID = ''c''\<rparr>"]
  by (simp add: Less_def)

section \<open>The key of a timestamp\<close>

lemma HLC_String_eq_iff [simp]: "HLC_String a = HLC_String b \<longleftrightarrow> a = b"
proof
  assume eq: "HLC_String a = HLC_String b"
  have "show_int (sint (Wall a)) @ CHR '':'' # (show_int (sint (Logical a)) @ CHR '':'' # PeerID a)
      = show_int (sint (Wall b)) @ CHR '':'' # (show_int (sint (Logical b)) @ CHR '':'' # PeerID b)"
    using eq by (simp add: HLC_String_def)
  from split_at_sep [OF this show_int_no_colon show_int_no_colon]
  have wall: "show_int (sint (Wall a)) = show_int (sint (Wall b))"
    and rest: "show_int (sint (Logical a)) @ CHR '':'' # PeerID a
        = show_int (sint (Logical b)) @ CHR '':'' # PeerID b"
    by auto
  from split_at_sep [OF rest show_int_no_colon show_int_no_colon] wall
  show "a = b" by (auto dest!: show_int_inj)
qed simp

text \<open>
  \<open>String\<close> is injective: the indexes and the deduplication that use it as a map key
  identify exactly the timestamps that are \<open>Equal\<close>.
\<close>

theorem HLC_String_inj: "HLC_String a = HLC_String b \<longleftrightarrow> Equal a b"
  by simp

section \<open>Issued timestamps increase\<close>

lemma Now_clock: "Now c pt = (t, c') \<Longrightarrow> t = (timestamp c')\<lparr>PeerID := peerID c\<rparr> \<and> peerID c' = peerID c"
  by (auto simp: Now_def Let_def split: if_splits)

lemma Update_peerID [simp]: "peerID (Update c r pt) = peerID c"
  by (simp add: Update_def Let_def)

text \<open>
  The order of the clock states ignores the peer id; it is what \<open>Now\<close> and \<open>Update\<close> advance.
\<close>

definition clock_lt :: "HLCTimestamp \<Rightarrow> HLCTimestamp \<Rightarrow> bool" where
  "clock_lt a b \<longleftrightarrow> (sint (Wall a), sint (Logical a)) < (sint (Wall b), sint (Logical b))"

lemma clock_lt_Less: "clock_lt a b \<Longrightarrow> Less a b"
  by (auto simp: clock_lt_def Less_def order_less_le)

lemma clock_lt_trans: "clock_lt a b \<Longrightarrow> clock_lt b c \<Longrightarrow> clock_lt a c"
  unfolding clock_lt_def by (rule less_trans)

lemma clock_lt_PeerID [simp]:
  "clock_lt (a\<lparr>PeerID := p\<rparr>) b = clock_lt a b" "clock_lt a (b\<lparr>PeerID := p\<rparr>) = clock_lt a b"
  by (simp_all add: clock_lt_def)

lemma Now_advances:
  assumes "sint (Logical (timestamp c)) < 2 ^ 31 - 1"
  shows "clock_lt (timestamp c) (timestamp (snd (Now c pt)))"
  using assms by (auto simp: Now_def Let_def clock_lt_def sint_inc32)

lemma Update_advances:
  assumes "sint (Logical (timestamp c)) < 2 ^ 31 - 1" "sint (Logical r) < 2 ^ 31 - 1"
  shows "clock_lt (timestamp c) (timestamp (Update c r pt)) \<and> clock_lt r (timestamp (Update c r pt))"
proof -
  define m where "m = smax (Wall (timestamp c)) (smax (Wall r) pt)"
  have ge: "sint (Wall (timestamp c)) \<le> sint m" "sint (Wall r) \<le> sint m"
    by (simp_all add: m_def)
  have lt: "Wall x \<noteq> m \<Longrightarrow> sint (Wall x) \<le> sint m \<Longrightarrow> sint (Wall x) < sint m" for x :: HLCTimestamp
    by (simp add: order_less_le)
  have inc: "sint (smax (Logical (timestamp c)) (Logical r) + 1) =
      max (sint (Logical (timestamp c))) (sint (Logical r)) + 1"
    using assms by (subst sint_inc32) simp_all
  have pt: "Wall (timestamp c) \<noteq> m \<Longrightarrow> Wall r \<noteq> m \<Longrightarrow> pt = m"
    using smax_cases [of "Wall (timestamp c)" "smax (Wall r) pt"] smax_cases [of "Wall r" pt]
    by (auto simp: m_def)
  have upd: "timestamp (Update c r pt) =
      (if Wall (timestamp c) = m \<and> Wall r = m
       then (timestamp c)\<lparr>Logical := smax (Logical (timestamp c)) (Logical r) + 1\<rparr>
       else if Wall (timestamp c) = m then (timestamp c)\<lparr>Logical := Logical (timestamp c) + 1\<rparr>
       else if Wall r = m then (timestamp c)\<lparr>Wall := Wall r, Logical := Logical r + 1\<rparr>
       else (timestamp c)\<lparr>Wall := m, Logical := 0\<rparr>)"
    unfolding Update_def Let_def m_def [symmetric] using pt by auto
  consider "Wall (timestamp c) = m" "Wall r = m" | "Wall (timestamp c) = m" "Wall r \<noteq> m"
    | "Wall (timestamp c) \<noteq> m" "Wall r = m" | "Wall (timestamp c) \<noteq> m" "Wall r \<noteq> m"
    by blast
  then show ?thesis
    by cases (use ge lt [of r] lt [of "timestamp c"] assms inc in
      \<open>simp_all add: upd clock_lt_def sint_inc32\<close>)
qed

text \<open>
  A history of a clock: calls of \<open>Now\<close> and of \<open>Update\<close>, each with the physical time it
  reads, in the order in which they take the mutex. \<open>clock_run\<close> collects the timestamps
  that \<open>Now\<close> returns. \<open>room n t\<close> says that \<open>n\<close> increments of the counter do not overflow.
\<close>

datatype clock_op = OpNow int64 | OpUpdate HLCTimestamp int64

fun clock_run :: "HLC \<Rightarrow> clock_op list \<Rightarrow> HLCTimestamp list \<times> HLC" where
  "clock_run c [] = ([], c)"
| "clock_run c (OpNow pt # ops) =
     (let (t, c1) = Now c pt; (ts, c2) = clock_run c1 ops in (t # ts, c2))"
| "clock_run c (OpUpdate r pt # ops) = clock_run (Update c r pt) ops"

definition room :: "nat \<Rightarrow> HLCTimestamp \<Rightarrow> bool" where
  "room n t \<longleftrightarrow> max 0 (sint (Logical t)) + int n < 2 ^ 31"

fun received_room :: "nat \<Rightarrow> clock_op \<Rightarrow> bool" where
  "received_room n (OpNow pt) = True"
| "received_room n (OpUpdate r pt) = room n r"

lemma room_mono: "room (Suc n) t \<Longrightarrow> room n t"
  by (simp add: room_def)

lemma received_room_mono: "received_room (Suc n) op \<Longrightarrow> received_room n op"
  by (cases op) (auto intro: room_mono)

lemma received_room_mono_list:
  "list_all (received_room (Suc n)) ops \<Longrightarrow> list_all (received_room n) ops"
  by (erule list.pred_mono_strong) (rule received_room_mono)

lemma room_lt: "room (Suc n) t \<Longrightarrow> sint (Logical t) < 2 ^ 31 - 1"
  by (simp add: room_def)

lemma room_Now: "room (Suc n) (timestamp c) \<Longrightarrow> room n (timestamp (snd (Now c pt)))"
  using room_lt [of n "timestamp c"] by (auto simp: Now_def Let_def room_def sint_inc32)

lemma room_Update:
  assumes "room (Suc n) (timestamp c)" "room (Suc n) r"
  shows "room n (timestamp (Update c r pt))"
proof -
  have "sint (smax (Logical (timestamp c)) (Logical r) + 1) =
      max (sint (Logical (timestamp c))) (sint (Logical r)) + 1"
    using assms room_lt by (subst sint_inc32) (simp_all add: room_def)
  then show ?thesis
    using assms room_lt [of n "timestamp c"] room_lt [of n r]
    by (auto simp: Update_def Let_def room_def sint_inc32)
qed

lemma clock_run_increasing:
  "room (length ops) (timestamp c) \<Longrightarrow> list_all (received_room (length ops)) ops \<Longrightarrow>
   sorted_wrt clock_lt (fst (clock_run c ops)) \<and>
     (\<forall>t\<in>set (fst (clock_run c ops)). clock_lt (timestamp c) t \<and> PeerID t = peerID c)"
proof (induction ops arbitrary: c)
  case Nil
  then show ?case by simp
next
  case (Cons op ops)
  have room: "room (Suc (length ops)) (timestamp c)" using Cons.prems(1) by simp
  have rec: "list_all (received_room (length ops)) ops"
    using Cons.prems(2) by (simp add: received_room_mono_list)
  show ?case
  proof (cases op)
    case (OpNow pt)
    obtain t c1 where now: "Now c pt = (t, c1)" by (cases "Now c pt")
    have "room (length ops) (timestamp c1)" using room_Now [OF room, of pt] now by simp
    note IH = Cons.IH [OF this rec]
    have adv: "clock_lt (timestamp c) (timestamp c1)"
      using Now_advances [OF room_lt [OF room], of pt] now by simp
    have t: "t = (timestamp c1)\<lparr>PeerID := peerID c\<rparr>" "peerID c1 = peerID c"
      using Now_clock [OF now] by auto
    have "clock_lt (timestamp c) x" if "x \<in> set (fst (clock_run c1 ops))" for x
      using IH that clock_lt_trans [OF adv] by blast
    with IH adv t show ?thesis
      by (simp add: OpNow now case_prod_beta Let_def)
  next
    case (OpUpdate r pt)
    have "room (Suc (length ops)) r" using Cons.prems(2) OpUpdate by simp
    note adv = Update_advances [OF room_lt [OF room] room_lt [OF this], of pt]
    have "room (length ops) (timestamp (Update c r pt))"
      using room_Update [OF room \<open>room (Suc (length ops)) r\<close>] .
    note IH = Cons.IH [OF this rec]
    have "clock_lt (timestamp c) x" if "x \<in> set (fst (clock_run (Update c r pt) ops))" for x
      using IH that clock_lt_trans [OF conjunct1 [OF adv]] by blast
    with IH show ?thesis by (simp add: OpUpdate)
  qed
qed

text \<open>
  C14: Whatever the physical clock reads (it may stand still or go back) and whatever
  timestamps arrive in between, the timestamps a clock issues strictly increase, carry the
  clock's peer id, and so have pairwise different keys, as long as the logical counters leave
  room for the number of operations.
\<close>

theorem issued_timestamps_increase:
  assumes "room (length ops) (timestamp c)" "list_all (received_room (length ops)) ops"
  shows "sorted_wrt Less (fst (clock_run c ops)) \<and> distinct (map HLC_String (fst (clock_run c ops)))
    \<and> (\<forall>t\<in>set (fst (clock_run c ops)). PeerID t = peerID c)"
proof -
  have sorted: "sorted_wrt Less (fst (clock_run c ops))"
    using clock_run_increasing [OF assms] clock_lt_Less
    by (intro sorted_wrt_mono_rel [of "fst (clock_run c ops)" clock_lt Less]) auto
  have "sorted_wrt Less ts \<Longrightarrow> distinct (map HLC_String ts)" for ts
    by (induction ts) (auto simp: Less_less)
  with sorted show ?thesis using clock_run_increasing [OF assms] by blast
qed

theorem issued_timestamps_increase_witness:
  "fst (clock_run (NewHLC ''p'' 100)
     [OpNow 90, OpUpdate \<lparr>Wall = 300, Logical = 4, PeerID = ''q''\<rparr> 95, OpNow 96, OpNow 400]) =
   [\<lparr>Wall = 100, Logical = 1, PeerID = ''p''\<rparr>, \<lparr>Wall = 300, Logical = 6, PeerID = ''p''\<rparr>,
    \<lparr>Wall = 400, Logical = 0, PeerID = ''p''\<rparr>] \<and>
   sorted_wrt Less (fst (clock_run (NewHLC ''p'' 100)
     [OpNow 90, OpUpdate \<lparr>Wall = 300, Logical = 4, PeerID = ''q''\<rparr> 95, OpNow 96, OpNow 400]))"
  using issued_timestamps_increase
    [of "[OpNow 90, OpUpdate \<lparr>Wall = 300, Logical = 4, PeerID = ''q''\<rparr> 95, OpNow 96, OpNow 400]"
      "NewHLC ''p'' 100"]
  by (simp add: room_def NewHLC_def Now_def Update_def smax_def Let_def)

text \<open>
  C27: Receiving a timestamp puts the clock behind it: the next timestamp that the clock
  issues is after the received one and after everything it issued before (the causality that
  \<open>TestHLCUpdate\<close> asks for), if both counters are at least two below the \<open>int32\<close> limit.
\<close>

theorem Update_then_Now_after:
  assumes "room 2 (timestamp c)" "room 2 r"
  shows "Less r (fst (Now (Update c r pt) pt')) \<and> Less (timestamp c) (fst (Now (Update c r pt) pt'))"
proof -
  have room: "room 1 (timestamp (Update c r pt))"
    using assms room_Update [of 1 c r pt] by (simp add: numeral_2_eq_2)
  obtain t c' where now: "Now (Update c r pt) pt' = (t, c')" by (cases "Now (Update c r pt) pt'")
  have "clock_lt (timestamp (Update c r pt)) t"
    using Now_advances [of "Update c r pt" pt'] room_lt [of 0 "timestamp (Update c r pt)"] room
      Now_clock [OF now] now by simp
  moreover have "clock_lt r (timestamp (Update c r pt))"
      "clock_lt (timestamp c) (timestamp (Update c r pt))"
    using Update_advances [of c r pt] assms by (simp_all add: room_def)
  ultimately show ?thesis using now by (auto intro: clock_lt_Less clock_lt_trans)
qed

theorem Update_then_Now_after_witness:
  "Less \<lparr>Wall = 900, Logical = 5, PeerID = ''q''\<rparr>
     (fst (Now (Update (NewHLC ''p'' 100) \<lparr>Wall = 900, Logical = 5, PeerID = ''q''\<rparr> 110) 120))"
  using Update_then_Now_after
    [of "NewHLC ''p'' 100" "\<lparr>Wall = 900, Logical = 5, PeerID = ''q''\<rparr>" 110 120]
  by (simp add: room_def NewHLC_def)

text \<open>
  The bound on the counters in \<open>issued_timestamps_increase\<close> is needed. A received timestamp that is ahead of the local clock and
  carries the largest \<open>int32\<close> as its counter makes \<open>Logical + 1\<close> wrap to a negative value:
  the clock then stands before the timestamp it has just received.
\<close>

theorem Update_counter_wraps:
  assumes "Logical r = 0x7FFFFFFF" "sint (Wall (timestamp c)) < sint (Wall r)"
    "sint pt < sint (Wall r)"
  shows "Logical (timestamp (Update c r pt)) = 0x80000000 \<and> Less (timestamp (Update c r pt)) r"
  using assms by (auto simp: Update_def smax_def Less_def Let_def)

theorem Update_counter_wraps_witness:
  "Less (timestamp (Update (NewHLC ''p'' 100) \<lparr>Wall = 900, Logical = 0x7FFFFFFF, PeerID = ''q''\<rparr> 110))
     \<lparr>Wall = 900, Logical = 0x7FFFFFFF, PeerID = ''q''\<rparr>"
  using Update_counter_wraps
    [of "\<lparr>Wall = 900, Logical = 0x7FFFFFFF, PeerID = ''q''\<rparr>" "NewHLC ''p'' 100" 110]
  by (simp add: NewHLC_def)

section \<open>The skew guard\<close>

text \<open>
  \<open>IsFutureSkew\<close> rejects exactly the timestamps more than five seconds ahead of the local
  time, for every local time that is at least five seconds below the end of \<open>int64\<close>.
\<close>

theorem IsFutureSkew_iff:
  assumes "sint now < 2 ^ 63 - 5000000000"
  shows "IsFutureSkew h now \<longleftrightarrow> sint (Wall h) > sint now + 5000000000"
proof -
  have "sint (now + MaxClockSkew) = sint now + 5000000000"
    using assms sint_range64 [of now] by (subst sint_add64) (simp_all add: MaxClockSkew_def)
  then show ?thesis by (simp add: IsFutureSkew_def)
qed

theorem IsFutureSkew_iff_witness:
  "IsFutureSkew \<lparr>Wall = 6000000001, Logical = 0, PeerID = ''p''\<rparr> 1000000000 \<and>
   \<not> IsFutureSkew \<lparr>Wall = 6000000000, Logical = 0, PeerID = ''p''\<rparr> 1000000000"
  using IsFutureSkew_iff [of 1000000000 "\<lparr>Wall = 6000000001, Logical = 0, PeerID = ''p''\<rparr>"]
    IsFutureSkew_iff [of 1000000000 "\<lparr>Wall = 6000000000, Logical = 0, PeerID = ''p''\<rparr>"]
  by simp

end
