(* ===== verification/Go_Time.thy ===== *)
theory Go_Time
  imports Prelude
begin

text \<open>
  The text form of \<open>time.Time\<close> in the Go library: \<open>Format(time.RFC3339Nano)\<close>, which the
  sources format into SQL statements and which \<open>encoding/json\<close> uses for time values, and the
  library's RFC 3339 parser. A time is an instant, printed in UTC.

  The main lemma, \<open>parse_format_time\<close>, is that parsing gives back the instant that was printed, for
  the years with four digits.
\<close>

section \<open>Civil dates\<close>

definition leap_year :: "int \<Rightarrow> bool" where
  "leap_year y \<longleftrightarrow> y mod 4 = 0 \<and> (y mod 100 \<noteq> 0 \<or> y mod 400 = 0)"

definition month_lengths :: "int \<Rightarrow> int list" where
  "month_lengths y = [31, if leap_year y then 29 else 28, 31, 30, 31, 30, 31, 31, 30, 31, 30, 31]"

text \<open>The number of days from 1 January of year 1 to 1 January of year \<open>y\<close>.\<close>

definition days_before_year :: "int \<Rightarrow> int" where
  "days_before_year y = 365 * (y - 1) + (y - 1) div 4 - (y - 1) div 100 + (y - 1) div 400"

text \<open>The year, and the day of the year from 0, of a day counted from 1 January of year 1.\<close>

definition split_year :: "int \<Rightarrow> int \<times> int" where
  "split_year d =
     (let n400 = d div 146097; r = d mod 146097;
          n100 = (if r div 36524 = 4 then 3 else r div 36524); r = r - 36524 * n100;
          n4 = r div 1461; r = r mod 1461;
          n1 = (if r div 365 = 4 then 3 else r div 365); r = r - 365 * n1
      in (400 * n400 + 100 * n100 + 4 * n4 + n1 + 1, r))"

fun split_month :: "int list \<Rightarrow> int \<Rightarrow> nat \<times> int" where
  "split_month [] d = (0, d)"
| "split_month (l # ls) d = (if d < l then (0, d) else case split_month ls (d - l) of (m, r) \<Rightarrow> (Suc m, r))"

definition civil_of_days :: "int \<Rightarrow> int \<times> nat \<times> int" where
  "civil_of_days d = (case split_year d of (y, yday) \<Rightarrow>
     (case split_month (month_lengths y) yday of (m, r) \<Rightarrow> (y, m + 1, r + 1)))"

definition days_of_civil :: "int \<Rightarrow> nat \<Rightarrow> int \<Rightarrow> int" where
  "days_of_civil y m d = days_before_year y + sum_list (take (m - 1) (month_lengths y)) + (d - 1)"

lemma capped_quotient:
  fixes r k :: int
  assumes "0 \<le> r" "r \<le> 4 * k" "0 < k"
  defines "q \<equiv> (if r div k = 4 then 3 else r div k)"
  shows "0 \<le> q" "q \<le> 3" "0 \<le> r - k * q" "r - k * q \<le> k" "r - k * q = k \<Longrightarrow> q = 3 \<and> r = 4 * k"
proof -
  have m: "r = k * (r div k) + r mod k" "0 \<le> r mod k" "r mod k < k" using assms(3) by simp_all
  have q0: "0 \<le> r div k" using assms by (simp add: pos_imp_zdiv_nonneg_iff)
  have q4: "r div k \<le> 4" using zdiv_mono1 [OF assms(2,3)] assms(3) by simp
  have "r = 4 * k" if "r div k = 4" using m that assms(2) by auto
  then have "q = 3 \<and> r - k * q = k \<and> r = 4 * k \<or> q = r div k \<and> q \<le> 3 \<and> r - k * q = r mod k"
    using q4 unfolding q_def by (cases "r div k = 4") (auto simp: minus_mult_div_eq_mod)
  then show "0 \<le> q" "q \<le> 3" "0 \<le> r - k * q" "r - k * q \<le> k" "r - k * q = k \<Longrightarrow> q = 3 \<and> r = 4 * k"
    using q0 m(2,3) assms(3) by linarith+
qed

lemma split_year_parts:
  assumes "split_year d = (y, r)"
  obtains a b c e where "y = 400 * a + 100 * b + 4 * c + e + 1"
    "d = 146097 * a + 36524 * b + 1461 * c + 365 * e + r"
    "0 \<le> b" "b \<le> 3" "0 \<le> c" "c \<le> 24" "0 \<le> e" "e \<le> 3" "0 \<le> r" "r \<le> 365"
    "r = 365 \<Longrightarrow> e = 3 \<and> (c = 24 \<longrightarrow> b = 3)"
proof -
  define a where "a = d div 146097"
  define r1 where "r1 = d mod 146097"
  define b where "b = (if r1 div 36524 = 4 then 3 else r1 div 36524)"
  define r2 where "r2 = r1 - 36524 * b"
  define c where "c = r2 div 1461"
  define r3 where "r3 = r2 mod 1461"
  define e where "e = (if r3 div 365 = 4 then 3 else r3 div 365)"
  have split: "y = 400 * a + 100 * b + 4 * c + e + 1" "r = r3 - 365 * e"
    using assms
    by (simp_all only: split_year_def Let_def prod.inject flip: a_def r1_def b_def r2_def c_def r3_def e_def)
  have r1: "d = 146097 * a + r1" "0 \<le> r1" "r1 < 146097" by (simp_all add: a_def r1_def)
  have b: "0 \<le> b" "b \<le> 3" "0 \<le> r2" "r2 \<le> 36524" "r2 = 36524 \<longrightarrow> b = 3"
    using capped_quotient [of r1 36524] r1(2,3) unfolding r2_def b_def by simp_all
  have c: "r2 = 1461 * c + r3" "0 \<le> r3" "r3 < 1461" "0 \<le> c"
    using b(3) by (simp_all add: c_def r3_def pos_imp_zdiv_nonneg_iff)
  have c24: "c \<le> 24" using c b(4) by linarith
  have e: "0 \<le> e" "e \<le> 3" "0 \<le> r" "r \<le> 365" "r = 365 \<longrightarrow> e = 3 \<and> r3 = 1460"
    using capped_quotient [of r3 365] c(2,3) unfolding split(2) e_def by simp_all
  have "d = 146097 * a + 36524 * b + 1461 * c + 365 * e + r"
    using r1(1) c(1) split(2) r2_def by simp
  moreover have "r = 365 \<Longrightarrow> e = 3 \<and> (c = 24 \<longrightarrow> b = 3)"
    using e(5) c(1) b(4,5) by auto
  ultimately show thesis using split(1) b(1,2) c(4) c24 e(1-4) that by blast
qed

lemma split_year_bounds:
  assumes "split_year d = (y, r)"
  shows "days_before_year y + r = d" and "0 \<le> r" and "r < 366" and "\<not> leap_year y \<Longrightarrow> r < 365"
proof -
  obtain a b c e where y: "y = 400 * a + 100 * b + 4 * c + e + 1"
    and d: "d = 146097 * a + 36524 * b + 1461 * c + 365 * e + r"
    and bounds: "0 \<le> b" "b \<le> 3" "0 \<le> c" "c \<le> 24" "0 \<le> e" "e \<le> 3" "0 \<le> r" "r \<le> 365"
    and last: "r = 365 \<Longrightarrow> e = 3 \<and> (c = 24 \<longrightarrow> b = 3)"
    using split_year_parts [OF assms] by metis
  have "(y - 1) div 4 = 100 * a + 25 * b + c"
    by (rule int_div_pos_eq [of _ _ _ e]) (use y bounds in auto)
  moreover have "(y - 1) div 100 = 4 * a + b"
    by (rule int_div_pos_eq [of _ _ _ "4 * c + e"]) (use y bounds in auto)
  moreover have "(y - 1) div 400 = a"
    by (rule int_div_pos_eq [of _ _ _ "100 * b + 4 * c + e"]) (use y bounds in auto)
  ultimately show "days_before_year y + r = d" unfolding days_before_year_def d by (simp add: y)
  show "0 \<le> r" "r < 366" using bounds by simp_all
  show "r < 365" if "\<not> leap_year y"
  proof (rule ccontr)
    assume "\<not> r < 365"
    then have "e = 3" "c = 24 \<longrightarrow> b = 3" using bounds last by auto
    have "y mod 4 = 0"
      by (rule int_mod_pos_eq [of _ _ "100 * a + 25 * b + c + 1"]) (use y \<open>e = 3\<close> in auto)
    moreover have "y mod 400 = 0" if "c = 24"
      by (rule int_mod_pos_eq [of _ _ "a + 1"]) (use y \<open>e = 3\<close> \<open>c = 24 \<longrightarrow> b = 3\<close> that in auto)
    moreover have "y mod 100 = 4 * c + 4" if "c \<noteq> 24"
      by (rule int_mod_pos_eq [of _ _ "4 * a + b"]) (use y \<open>e = 3\<close> bounds that in auto)
    ultimately show False using that bounds(3) unfolding leap_year_def by (cases "c = 24") simp_all
  qed
qed

lemma split_month_bounds:
  assumes "\<forall>l \<in> set ls. 0 < l" "0 \<le> d" "d < sum_list ls" "split_month ls d = (m, r)"
  shows "m < length ls \<and> 0 \<le> r \<and> r < ls ! m \<and> sum_list (take m ls) + r = d"
  using assms
proof (induction ls arbitrary: d m)
  case Nil
  then show ?case by simp
next
  case (Cons l ls)
  show ?case
  proof (cases "d < l")
    case True
    then show ?thesis using Cons.prems by auto
  next
    case False
    then obtain m' where m': "split_month ls (d - l) = (m', r)" "m = Suc m'"
      using Cons.prems(4) by (auto split: prod.splits)
    have "m' < length ls \<and> 0 \<le> r \<and> r < ls ! m' \<and> sum_list (take m' ls) + r = d - l"
      using Cons.IH [of "d - l" m'] Cons.prems False m'(1) by simp
    then show ?thesis using m'(2) by simp
  qed
qed

lemma length_month_lengths [simp]: "length (month_lengths y) = 12"
  by (simp add: month_lengths_def)

lemma sum_month_lengths: "sum_list (month_lengths y) = (if leap_year y then 366 else 365)"
  by (simp add: month_lengths_def)

lemma civil_of_days:
  assumes "civil_of_days d = (y, m, dd)"
  shows "days_of_civil y m dd = d" "1 \<le> m" "m \<le> 12" "1 \<le> dd" "dd \<le> month_lengths y ! (m - 1)" "dd \<le> 31"
proof -
  obtain yd where yd: "split_year d = (y, yd)" and md: "split_month (month_lengths y) yd = (m - 1, dd - 1)" "1 \<le> m"
    using assms by (auto simp: civil_of_days_def split: prod.splits)
  note b = split_year_bounds [OF yd]
  have "yd < sum_list (month_lengths y)" using b by (simp add: sum_month_lengths)
  moreover have "\<forall>l \<in> set (month_lengths y). 0 < l" by (simp add: month_lengths_def)
  ultimately have s: "m - 1 < length (month_lengths y) \<and> 0 \<le> dd - 1 \<and> dd - 1 < month_lengths y ! (m - 1) \<and>
      sum_list (take (m - 1) (month_lengths y)) + (dd - 1) = yd"
    using split_month_bounds [OF _ b(2) _ md(1)] by blast
  show "days_of_civil y m dd = d" using s b(1) by (simp add: days_of_civil_def)
  show "1 \<le> m" by (rule md(2))
  show "m \<le> 12" using s unfolding length_month_lengths by linarith
  show "1 \<le> dd" "dd \<le> month_lengths y ! (m - 1)" using s by auto
  have "\<forall>l \<in> set (month_lengths y). l \<le> 31" by (simp add: month_lengths_def)
  then have "month_lengths y ! (m - 1) \<le> 31" using s nth_mem by blast
  then show "dd \<le> 31" using s by simp
qed

section \<open>Digits\<close>

text \<open>The last \<open>n\<close> decimal digits of a number.\<close>

fun fix_digits :: "nat \<Rightarrow> nat \<Rightarrow> string" where
  "fix_digits 0 x = []"
| "fix_digits (Suc n) x = fix_digits n (x div 10) @ [digit_char (x mod 10)]"

definition is_digit :: "char \<Rightarrow> bool" where
  "is_digit c \<longleftrightarrow> CHR ''0'' \<le> c \<and> c \<le> CHR ''9''"

lemma length_fix_digits [simp]: "length (fix_digits n x) = n"
  by (induction n arbitrary: x) auto

lemma is_digit_of_char: "is_digit c \<longleftrightarrow> 48 \<le> (of_char c :: nat) \<and> (of_char c :: nat) \<le> 57"
  by (simp add: is_digit_def less_eq_char_def)

lemma is_digit_digit_char [simp]: "d < 10 \<Longrightarrow> is_digit (digit_char d)"
  by (simp add: is_digit_of_char)

lemma fix_digits_digits: "list_all is_digit (fix_digits n x)"
  by (induction n arbitrary: x) auto

lemma dec_value_snoc [simp]: "dec_value (s @ [c]) = 10 * dec_value s + (of_char c - 48)"
  by (simp add: dec_value_def)

lemma dec_value_fix_digits: "dec_value (fix_digits n x) = x mod 10 ^ n"
proof (induction n arbitrary: x)
  case 0
  then show ?case by (simp add: dec_value_def)
next
  case (Suc n)
  have "x mod 10 ^ Suc n = 10 * (x div 10 mod 10 ^ n) + x mod 10"
    by (simp add: mod_mult2_eq mult.commute)
  then show ?case using Suc by simp
qed

section \<open>Printing and parsing\<close>

abbreviation second :: int where
  "second \<equiv> 1000000000"

abbreviation day :: int where
  "day \<equiv> 86400000000000"

definition format_year :: "int \<Rightarrow> string" where
  "format_year y =
     (let n = nat (if y < 0 then - y else y)
      in (if y < 0 then ''-'' else '''') @ (if n < 10000 then fix_digits 4 n else show_nat n))"

definition format_fraction :: "nat \<Rightarrow> string" where
  "format_fraction ns =
     (if ns = 0 then ''''
      else CHR ''.'' # rev (dropWhile (\<lambda>c. c = CHR ''0'') (rev (fix_digits 9 ns))))"

definition format_clock :: "int \<Rightarrow> string" where
  "format_clock sec =
     fix_digits 2 (nat (sec div 3600)) @ '':'' @ fix_digits 2 (nat (sec div 60 mod 60)) @ '':'' @
     fix_digits 2 (nat (sec mod 60))"

definition FormatRFC3339Nano :: "Time \<Rightarrow> string" where
  "FormatRFC3339Nano t =
     (case civil_of_days (t div day) of (y, m, d) \<Rightarrow>
        format_year y @ ''-'' @ fix_digits 2 m @ ''-'' @ fix_digits 2 (nat d) @ ''T'' @
        format_clock (t mod day div second) @ format_fraction (nat (t mod second)) @ ''Z'')"

definition parse_uint :: "string \<Rightarrow> nat \<Rightarrow> nat \<Rightarrow> nat option" where
  "parse_uint s lo hi =
     (if list_all is_digit s \<and> lo \<le> dec_value s \<and> dec_value s \<le> hi then Some (dec_value s) else None)"

definition substr :: "string \<Rightarrow> nat \<Rightarrow> nat \<Rightarrow> string" where
  "substr s i j = take (j - i) (drop i s)"

text \<open>A fraction of a second, in nanoseconds, and the rest of the text; digits after the ninth are ignored.\<close>

definition parse_fraction :: "string \<Rightarrow> nat \<times> string" where
  "parse_fraction s =
     (case s of
        p # c # _ \<Rightarrow>
          if p = CHR ''.'' \<and> is_digit c
          then (dec_value (take 9 (takeWhile is_digit (tl s) @ replicate 9 (CHR ''0''))),
                dropWhile is_digit (tl s))
          else (0, s)
      | _ \<Rightarrow> (0, s))"

definition parse_zone :: "string \<Rightarrow> int option" where
  "parse_zone s =
     (if s = ''Z'' then Some 0
      else if length s \<noteq> 6 then None
      else case (parse_uint (substr s 1 3) 0 23, parse_uint (substr s 4 6) 0 59) of
        (Some hr, Some mm) \<Rightarrow>
          if (s ! 0 = CHR ''-'' \<or> s ! 0 = CHR ''+'') \<and> s ! 3 = CHR '':''
          then Some ((if s ! 0 = CHR ''-'' then -1 else 1) * (int hr * 60 + int mm) * 60)
          else None
      | _ \<Rightarrow> None)"

definition parseRFC3339 :: "string \<Rightarrow> Time option" where
  "parseRFC3339 s =
     (if length s < 19 then None
      else case (parse_uint (substr s 0 4) 0 9999, parse_uint (substr s 5 7) 1 12) of
        (Some year, Some month) \<Rightarrow>
          (case (parse_uint (substr s 8 10) 1 (nat (month_lengths (int year) ! (month - 1))),
                 parse_uint (substr s 11 13) 0 23, parse_uint (substr s 14 16) 0 59,
                 parse_uint (substr s 17 19) 0 59) of
             (Some dd, Some hr, Some mi, Some sec) \<Rightarrow>
               if s ! 4 = CHR ''-'' \<and> s ! 7 = CHR ''-'' \<and> s ! 10 = CHR ''T'' \<and> s ! 13 = CHR '':'' \<and>
                  s ! 16 = CHR '':''
               then (case parse_fraction (drop 19 s) of (ns, rest) \<Rightarrow>
                       (case parse_zone rest of
                          None \<Rightarrow> None
                        | Some offset \<Rightarrow>
                            Some (days_of_civil (int year) month (int dd) * day +
                                  (int hr * 3600 + int mi * 60 + int sec - offset) * second + int ns)))
               else None
           | _ \<Rightarrow> None)
      | _ \<Rightarrow> None)"

lemma parse_uint_fix_digits:
  "x < 10 ^ n \<Longrightarrow> lo \<le> x \<Longrightarrow> x \<le> hi \<Longrightarrow> parse_uint (fix_digits n x) lo hi = Some x"
  by (simp add: parse_uint_def dec_value_fix_digits fix_digits_digits)

lemma dropWhile_replicate:
  "\<exists>k. xs = replicate k c @ dropWhile (\<lambda>x. x = c) xs"
proof (induction xs)
  case (Cons x xs)
  then obtain k where "xs = replicate k c @ dropWhile (\<lambda>x. x = c) xs" by blast
  then show ?case by (cases "x = c") (auto intro: exI [of _ "Suc k"] exI [of _ 0])
qed simp

lemma digit_chars: "is_digit (CHR ''0'')" "\<not> is_digit (CHR ''Z'')"
  by (simp_all add: is_digit_of_char)

lemma parse_format_fraction:
  assumes "ns < 10 ^ 9"
  shows "parse_fraction (format_fraction ns @ ''Z'') = (ns, ''Z'')"
proof (cases "ns = 0")
  case True
  then show ?thesis by (simp add: format_fraction_def parse_fraction_def)
next
  case False
  define ds where "ds = rev (dropWhile (\<lambda>c. c = CHR ''0'') (rev (fix_digits 9 ns)))"
  obtain k where "rev (fix_digits 9 ns) = replicate k (CHR ''0'') @ rev ds"
    using dropWhile_replicate [of "rev (fix_digits 9 ns)" "CHR ''0''"] unfolding ds_def rev_rev_ident by blast
  then have f: "fix_digits 9 ns = ds @ replicate k (CHR ''0'')"
    by (simp add: rev_swap)
  have fr: "format_fraction ns = CHR ''.'' # ds"
    using False by (simp add: format_fraction_def ds_def)
  have len: "length ds + k = 9" using arg_cong [OF f, of length] by simp
  have digits: "list_all is_digit ds" using fix_digits_digits [of 9 ns] by (simp add: f)
  have val: "dec_value (ds @ replicate k (CHR ''0'')) = ns"
    using dec_value_fix_digits [of 9 ns] assms by (simp add: f)
  have "ds \<noteq> []"
  proof
    assume "ds = []"
    moreover have "dec_value (replicate n (CHR ''0'')) = 0" for n
      by (induction n) (simp_all add: dec_value_def)
    ultimately show False using val False by simp
  qed
  then obtain c cs where ds: "ds = c # cs" by (cases ds) auto
  have pad: "take 9 (ds @ replicate 9 (CHR ''0'')) = ds @ replicate k (CHR ''0'')"
    using len by (auto simp: min_def)
  have "takeWhile is_digit (ds @ ''Z'') = ds" "dropWhile is_digit (ds @ ''Z'') = ''Z''"
    using digits digit_chars by (simp_all add: list_all_iff takeWhile_append dropWhile_append)
  then show ?thesis
    using digits ds pad val unfolding fr by (simp add: parse_fraction_def)
qed

lemma length_two: "length xs = 2 \<longleftrightarrow> (\<exists>a b. xs = [a, b])"
  by (auto simp: length_Suc_conv numeral_2_eq_2)

lemma length_four: "length xs = 4 \<longleftrightarrow> (\<exists>a b c d. xs = [a, b, c, d])"
  by (auto simp: length_Suc_conv numeral_eq_Suc)

lemma time_fields:
  assumes "length Y = 4" "length M = 2" "length D = 2" "length H = 2" "length I = 2" "length S = 2"
    and s: "s = Y @ ''-'' @ M @ ''-'' @ D @ ''T'' @ (H @ '':'' @ I @ '':'' @ S) @ R"
  shows "\<not> length s < 19" "substr s 0 4 = Y" "substr s 5 7 = M" "substr s 8 10 = D" "substr s 11 13 = H"
    "substr s 14 16 = I" "substr s 17 19 = S" "s ! 4 = CHR ''-''" "s ! 7 = CHR ''-''" "s ! 10 = CHR ''T''"
    "s ! 13 = CHR '':''" "s ! 16 = CHR '':''" "drop 19 s = R"
  using assms(1-6) unfolding s length_two length_four by (auto simp: substr_def)

lemma clock_parts:
  fixes x :: int
  assumes "0 \<le> x" "x < 86400"
  shows "int (nat (x div 3600)) * 3600 + int (nat (x div 60 mod 60)) * 60 + int (nat (x mod 60)) = x"
    "nat (x div 3600) \<le> 23" "nat (x div 60 mod 60) \<le> 59" "nat (x mod 60) \<le> 59"
proof -
  have "x div 3600 = x div 60 div 60" by (simp add: zdiv_zmult2_eq [symmetric])
  then have "x div 3600 * 3600 + x div 60 mod 60 * 60 + x mod 60 = x"
    using div_mult_mod_eq [of x 60] div_mult_mod_eq [of "x div 60" 60] by linarith
  moreover have "0 \<le> x div 3600" "0 \<le> x div 60 mod 60" "0 \<le> x mod 60" using assms(1) by simp_all
  ultimately show "int (nat (x div 3600)) * 3600 + int (nat (x div 60 mod 60)) * 60 + int (nat (x mod 60)) = x"
    by (simp only: int_nat_eq if_True)
  have "x div 3600 \<le> 23" using assms(2) by linarith
  then show "nat (x div 3600) \<le> 23" by simp
  have "x div 60 mod 60 < 60" "x mod 60 < 60" by simp_all
  then show "nat (x div 60 mod 60) \<le> 59" "nat (x mod 60) \<le> 59" by linarith+
qed

lemma time_parts:
  fixes t :: int
  shows "t div day * day + t mod day div second * second + t mod second = t"
    "0 \<le> t mod day div second" "t mod day div second < 86400"
proof -
  have "t mod day mod second = t mod second" by (rule mod_mod_cancel) simp
  then show "t div day * day + t mod day div second * second + t mod second = t"
    using div_mult_mod_eq [of "t mod day" second] div_mult_mod_eq [of t day] by linarith
  have "0 \<le> t mod day" "t mod day < day" by simp_all
  then show "0 \<le> t mod day div second" "t mod day div second < 86400" by linarith+
qed

lemma parse_format_time:
  assumes civil: "civil_of_days (t div day) = (y, m, d)" and y: "0 \<le> y" "y \<le> 9999"
  shows "parseRFC3339 (FormatRFC3339Nano t) = Some t"
proof -
  define x where "x = t mod day div second"
  define ns where "ns = nat (t mod second)"
  note c = civil_of_days [OF civil]
  note tp = time_parts [of t, folded x_def]
  define h where "h = nat (x div 3600)"
  define mi where "mi = nat (x div 60 mod 60)"
  define se where "se = nat (x mod 60)"
  note p = clock_parts [OF tp(2,3), folded h_def mi_def se_def]
  have ns: "ns < 10 ^ 9" "int ns = t mod second" by (simp_all add: ns_def nat_less_iff)
  have f: "FormatRFC3339Nano t = fix_digits 4 (nat y) @ ''-'' @ fix_digits 2 m @ ''-'' @ fix_digits 2 (nat d) @ ''T'' @
      (fix_digits 2 h @ '':'' @ fix_digits 2 mi @ '':'' @ fix_digits 2 se) @ format_fraction ns @ ''Z''"
    using y by (simp add: FormatRFC3339Nano_def civil format_clock_def format_year_def Let_def nat_less_iff
        flip: x_def ns_def h_def mi_def se_def)
  note tf = time_fields [OF length_fix_digits length_fix_digits length_fix_digits length_fix_digits
      length_fix_digits length_fix_digits f]
  have yr: "parse_uint (fix_digits 4 (nat y)) 0 9999 = Some (nat y)"
    by (rule parse_uint_fix_digits) (use y in auto)
  have mo: "parse_uint (fix_digits 2 m) 1 12 = Some m"
    by (rule parse_uint_fix_digits) (use c in auto)
  have yy: "int (nat y) = y" "int (nat d) = d" using y c(4) by simp_all
  have dd: "parse_uint (fix_digits 2 (nat d)) 1 (nat (month_lengths (int (nat y)) ! (m - 1))) = Some (nat d)"
    unfolding yy by (rule parse_uint_fix_digits) (use c(4-6) in auto)
  have clock: "parse_uint (fix_digits 2 h) 0 23 = Some h" "parse_uint (fix_digits 2 mi) 0 59 = Some mi"
    "parse_uint (fix_digits 2 se) 0 59 = Some se"
    by (rule parse_uint_fix_digits; use p in simp)+
  have z: "parse_zone ''Z'' = Some 0" by (simp add: parse_zone_def)
  have val: "days_of_civil (int (nat y)) m (int (nat d)) * day +
      (int h * 3600 + int mi * 60 + int se - 0) * second + int ns = t"
    using tp(1) unfolding yy ns(2) c(1) p(1) by simp
  show ?thesis
    unfolding parseRFC3339_def tf(2-) yr mo prod.case option.case dd clock parse_format_fraction [OF ns(1)] z val
    by (simp add: tf(1))
qed

end
