(* ===== verification/Go_Json.thy ===== *)
theory Go_Json
  imports Go_Time
begin

text \<open>
  The part of \<open>encoding/json\<close> that the sources use: encoding of strings (with the library's
  escapes, HTML characters included), the scanner with its limit on nesting, decoding of
  strings, and the matching of object keys with the names of struct fields.

  \<open>print_json\<close> and \<open>parse_json\<close> are inverse on the values that the encoder produces
  (\<open>parse_print_json\<close>), and a string that is valid UTF-8 survives encoding and decoding
  (\<open>unquote_escape\<close>). A byte sequence that is not UTF-8 does not: the encoder writes the
  replacement character in its place.
\<close>

section \<open>UTF-8\<close>

abbreviation byte :: "char \<Rightarrow> nat" where
  "byte c \<equiv> of_char c"

definition cont_byte :: "char \<Rightarrow> bool" where
  "cont_byte c \<longleftrightarrow> 0x80 \<le> byte c \<and> byte c \<le> 0xBF"

text \<open>The bounds of the second byte of a sequence of three or four bytes.\<close>

definition second_byte :: "char \<Rightarrow> char \<Rightarrow> bool" where
  "second_byte c0 c1 \<longleftrightarrow> cont_byte c1 \<and>
     (byte c0 = 0xE0 \<longrightarrow> 0xA0 \<le> byte c1) \<and> (byte c0 = 0xED \<longrightarrow> byte c1 \<le> 0x9F) \<and>
     (byte c0 = 0xF0 \<longrightarrow> 0x90 \<le> byte c1) \<and> (byte c0 = 0xF4 \<longrightarrow> byte c1 \<le> 0x8F)"

text \<open>The length of the valid sequence at the start of a string; 0 if there is none.\<close>

definition utf8_len :: "string \<Rightarrow> nat" where
  "utf8_len s =
     (case s of
        [] \<Rightarrow> 0
      | c0 # s1 \<Rightarrow>
          if byte c0 < 0x80 then 1
          else if 0xC2 \<le> byte c0 \<and> byte c0 \<le> 0xDF
          then (case s1 of c1 # _ \<Rightarrow> if cont_byte c1 then 2 else 0 | _ \<Rightarrow> 0)
          else if 0xE0 \<le> byte c0 \<and> byte c0 \<le> 0xEF
          then (case s1 of c1 # c2 # _ \<Rightarrow> if second_byte c0 c1 \<and> cont_byte c2 then 3 else 0 | _ \<Rightarrow> 0)
          else if 0xF0 \<le> byte c0 \<and> byte c0 \<le> 0xF4
          then (case s1 of
                  c1 # c2 # c3 # _ \<Rightarrow> if second_byte c0 c1 \<and> cont_byte c2 \<and> cont_byte c3 then 4 else 0
                | _ \<Rightarrow> 0)
          else 0)"

fun utf8_valid :: "string \<Rightarrow> bool" where
  "utf8_valid [] = True"
| "utf8_valid (c # s) = (utf8_len (c # s) \<noteq> 0 \<and> utf8_valid (drop (utf8_len (c # s) - 1) s))"

definition utf8_encode :: "nat \<Rightarrow> string" where
  "utf8_encode r =
     (if r < 0x80 then [char_of r]
      else if r < 0x800 then [char_of (0xC0 + r div 64), char_of (0x80 + r mod 64)]
      else if r < 0x10000
      then [char_of (0xE0 + r div 4096), char_of (0x80 + r div 64 mod 64), char_of (0x80 + r mod 64)]
      else [char_of (0xF0 + r div 262144), char_of (0x80 + r div 4096 mod 64),
            char_of (0x80 + r div 64 mod 64), char_of (0x80 + r mod 64)])"

definition replacement_char :: string where
  "replacement_char = utf8_encode 0xFFFD"

section \<open>Strings\<close>

abbreviation DQ :: char where
  "DQ \<equiv> CHR 0x22"

abbreviation BS :: char where
  "BS \<equiv> CHR 0x5C"

definition hex_digit :: "nat \<Rightarrow> char" where
  "hex_digit d = (if d < 10 then char_of (48 + d) else char_of (87 + d))"

definition escape_ascii :: "char \<Rightarrow> string" where
  "escape_ascii c =
     (if c = DQ \<or> c = BS then [BS, c]
      else if c = CHR 0x08 then [BS, CHR ''b'']
      else if c = CHR 0x0C then [BS, CHR ''f'']
      else if c = CHR 0x0A then [BS, CHR ''n'']
      else if c = CHR 0x0D then [BS, CHR ''r'']
      else if c = CHR 0x09 then [BS, CHR ''t'']
      else if byte c < 0x20 \<or> c \<in> {CHR ''<'', CHR ''>'', CHR ''&''}
      then BS # ''u00'' @ [hex_digit (byte c div 16), hex_digit (byte c mod 16)]
      else [c])"

text \<open>The verb \<open>%q\<close>; printable characters outside ASCII are kept.\<close>

definition strconv_quote_char :: "char \<Rightarrow> string" where
  "strconv_quote_char c =
     (if c = DQ \<or> c = BS then [BS, c]
      else if c = CHR 0x07 then [BS, CHR ''a'']
      else if c = CHR 0x08 then [BS, CHR ''b'']
      else if c = CHR 0x0C then [BS, CHR ''f'']
      else if c = CHR 0x0A then [BS, CHR ''n'']
      else if c = CHR 0x0D then [BS, CHR ''r'']
      else if c = CHR 0x09 then [BS, CHR ''t'']
      else if c = CHR 0x0B then [BS, CHR ''v'']
      else if byte c < 0x20 \<or> byte c = 0x7F
      then BS # ''x'' @ [hex_digit (byte c div 16), hex_digit (byte c mod 16)]
      else [c])"

definition strconv_Quote :: "string \<Rightarrow> string" where
  "strconv_Quote s = DQ # concat (map strconv_quote_char s) @ [DQ]"

text \<open>One sequence of two to four bytes; U+2028 and U+2029 are escaped.\<close>

definition escape_multi :: "string \<Rightarrow> string" where
  "escape_multi s =
     (if s = utf8_encode 0x2028 then BS # ''u2028''
      else if s = utf8_encode 0x2029 then BS # ''u2029''
      else s)"

fun json_escape :: "string \<Rightarrow> string" where
  "json_escape [] = []"
| "json_escape (c # s) =
     (if byte c < 0x80 then escape_ascii c @ json_escape s
      else let n = utf8_len (c # s) in
        if n = 0 then BS # ''ufffd'' @ json_escape s
        else escape_multi (take n (c # s)) @ json_escape (drop (n - 1) s))"

definition hex_value :: "char \<Rightarrow> nat option" where
  "hex_value c =
     (let b = byte c in
      if 48 \<le> b \<and> b \<le> 57 then Some (b - 48)
      else if 97 \<le> b \<and> b \<le> 102 then Some (b - 87)
      else if 65 \<le> b \<and> b \<le> 70 then Some (b - 55)
      else None)"

text \<open>\<open>getu4\<close>: the value of a \<open>\uXXXX\<close> escape at the start of the text.\<close>

definition getu4 :: "string \<Rightarrow> nat option" where
  "getu4 s =
     (case s of
        b # u # c1 # c2 # c3 # c4 # _ \<Rightarrow>
          if b = BS \<and> u = CHR ''u'' then
            (case (hex_value c1, hex_value c2, hex_value c3, hex_value c4) of
               (Some h1, Some h2, Some h3, Some h4) \<Rightarrow> Some (((h1 * 16 + h2) * 16 + h3) * 16 + h4)
             | _ \<Rightarrow> None)
          else None
      | _ \<Rightarrow> None)"

definition is_surrogate :: "nat \<Rightarrow> bool" where
  "is_surrogate r \<longleftrightarrow> 0xD800 \<le> r \<and> r < 0xE000"

definition surrogate_pair :: "nat \<Rightarrow> nat option \<Rightarrow> nat option" where
  "surrogate_pair r1 r2 =
     (case r2 of
        None \<Rightarrow> None
      | Some r2 \<Rightarrow>
          if 0xD800 \<le> r1 \<and> r1 < 0xDC00 \<and> 0xDC00 \<le> r2 \<and> r2 < 0xE000
          then Some (0x10000 + (r1 - 0xD800) * 1024 + (r2 - 0xDC00)) else None)"

definition unescape_char :: "char \<Rightarrow> char" where
  "unescape_char e =
     (if e = CHR ''b'' then CHR 0x08
      else if e = CHR ''f'' then CHR 0x0C
      else if e = CHR ''n'' then CHR 0x0A
      else if e = CHR ''r'' then CHR 0x0D
      else if e = CHR ''t'' then CHR 0x09
      else e)"

text \<open>\<open>unquote\<close>, on the text between the quotes, which the scanner has accepted.\<close>

fun json_unquote :: "string \<Rightarrow> string" where
  "json_unquote [] = []"
| "json_unquote (c # s) =
     (if c = BS then
        (case getu4 (c # s) of
           Some r \<Rightarrow>
             if is_surrogate r
             then (case surrogate_pair r (getu4 (drop 5 s)) of
                     Some d \<Rightarrow> utf8_encode d @ json_unquote (drop 11 s)
                   | None \<Rightarrow> replacement_char @ json_unquote (drop 5 s))
             else utf8_encode r @ json_unquote (drop 5 s)
         | None \<Rightarrow>
             (case s of [] \<Rightarrow> [] | e # s' \<Rightarrow> unescape_char e # json_unquote s'))
      else if byte c < 0x80 then c # json_unquote s
      else let n = utf8_len (c # s) in
        if n = 0 then replacement_char @ json_unquote s
        else take n (c # s) @ json_unquote (drop (n - 1) s))"

declare json_escape.simps(2) [simp del] json_unquote.simps(2) [simp del]

lemma utf8_len_cases:
  assumes "utf8_len s = n" "n \<noteq> 0"
  obtains (one) c0 t where "s = c0 # t" "n = 1" "byte c0 < 0x80"
  | (two) c0 c1 t where "s = c0 # c1 # t" "n = 2" "0xC2 \<le> byte c0" "byte c0 \<le> 0xDF" "cont_byte c1"
  | (three) c0 c1 c2 t where "s = c0 # c1 # c2 # t" "n = 3" "0xE0 \<le> byte c0" "byte c0 \<le> 0xEF"
      "second_byte c0 c1" "cont_byte c2"
  | (four) c0 c1 c2 c3 t where "s = c0 # c1 # c2 # c3 # t" "n = 4" "0xF0 \<le> byte c0" "byte c0 \<le> 0xF4"
      "second_byte c0 c1" "cont_byte c2" "cont_byte c3"
  using assms unfolding utf8_len_def by (simp split: list.splits if_splits)

lemma utf8_len_take:
  assumes "utf8_len s = n" "n \<noteq> 0"
  shows "n \<le> length s" and "utf8_len (take n s @ t) = n"
  using assms by (cases rule: utf8_len_cases; simp add: utf8_len_def)+

lemma utf8_len_high:
  assumes "utf8_len (c # s) = n" "\<not> byte c < 0x80"
  shows "\<forall>d \<in> set (take n (c # s)). 0x80 \<le> byte d"
  using assms by (auto simp: utf8_len_def cont_byte_def second_byte_def split: list.splits if_splits)

lemma hex_value_digit: "d < 16 \<Longrightarrow> hex_value (hex_digit d) = Some d"
  by (auto simp: hex_value_def hex_digit_def Let_def)

lemma char_of_byte [simp]: "char_of (byte c) = c"
  by simp

lemma getu4_other: "e \<noteq> CHR ''u'' \<Longrightarrow> getu4 (BS # e # t) = None"
  by (auto simp: getu4_def split: list.splits)

lemma getu4_u00:
  "h < 256 \<Longrightarrow> getu4 (BS # CHR ''u'' # CHR ''0'' # CHR ''0'' # hex_digit (h div 16) # hex_digit (h mod 16) # t) = Some h"
proof -
  assume "h < 256"
  then have "hex_value (hex_digit (h div 16)) = Some (h div 16)" by (intro hex_value_digit) simp
  moreover have "hex_value (hex_digit (h mod 16)) = Some (h mod 16)" by (intro hex_value_digit) simp
  moreover have "hex_value (CHR ''0'') = Some 0" by (simp add: hex_value_def)
  ultimately show ?thesis by (simp add: getu4_def)
qed

lemma unquote_plain_escape: "e \<noteq> CHR ''u'' \<Longrightarrow> json_unquote (BS # e # t) = unescape_char e # json_unquote t"
  by (simp add: json_unquote.simps(2) getu4_other)

lemma utf8_encode_ascii: "byte c < 0x80 \<Longrightarrow> utf8_encode (byte c) = [c]"
  by (simp add: utf8_encode_def)

lemma unquote_ascii:
  assumes "byte c < 0x80"
  shows "json_unquote (escape_ascii c @ t) = c # json_unquote t"
proof -
  consider (short) e where "escape_ascii c = [BS, e]" "unescape_char e = c" "e \<noteq> CHR ''u''"
    | (long) "escape_ascii c = BS # ''u00'' @ [hex_digit (byte c div 16), hex_digit (byte c mod 16)]"
    | (plain) "escape_ascii c = [c]" "c \<noteq> BS"
    unfolding escape_ascii_def by (fastforce simp: unescape_char_def split: if_splits)
  then show ?thesis
  proof cases
    case short
    then show ?thesis by (simp add: unquote_plain_escape)
  next
    case long
    then show ?thesis
      using assms getu4_u00 [of "byte c" t]
      by (simp add: json_unquote.simps(2) is_surrogate_def utf8_encode_ascii)
  next
    case plain
    then show ?thesis using assms by (simp add: json_unquote.simps(2))
  qed
qed

lemma unquote_line_separators:
  "json_unquote (BS # ''u2028'' @ t) = utf8_encode 0x2028 @ json_unquote t"
  "json_unquote (BS # ''u2029'' @ t) = utf8_encode 0x2029 @ json_unquote t"
  by (simp_all add: json_unquote.simps(2) getu4_def hex_value_def is_surrogate_def)

lemma unquote_multi:
  assumes n: "utf8_len (c # s) = n" "n \<noteq> 0" and high: "\<not> byte c < 0x80"
  shows "json_unquote (escape_multi (take n (c # s)) @ t) = take n (c # s) @ json_unquote t"
proof (cases "take n (c # s) = utf8_encode 0x2028 \<or> take n (c # s) = utf8_encode 0x2029")
  case True
  then show ?thesis using unquote_line_separators by (auto simp: escape_multi_def)
next
  case False
  obtain k where k: "n = Suc k" using n(2) by (cases n) auto
  have len: "k \<le> length s" using utf8_len_take(1) [OF n] k by simp
  have "utf8_len (c # take k s @ t) = n" using utf8_len_take(2) [OF n] k by simp
  moreover have "c \<noteq> BS" using high by auto
  ultimately have "json_unquote (c # take k s @ t) = take n (c # take k s @ t) @ json_unquote (drop k (take k s @ t))"
    using high n(2) k by (simp add: json_unquote.simps(2) Let_def)
  then show ?thesis using False len k by (simp add: escape_multi_def)
qed

lemma unquote_escape: "utf8_valid s \<Longrightarrow> json_unquote (json_escape s) = s"
proof (induction s rule: utf8_valid.induct)
  case 1
  then show ?case by simp
next
  case (2 c s)
  let ?n = "utf8_len (c # s)"
  have n: "?n \<noteq> 0" and IH: "json_unquote (json_escape (drop (?n - 1) s)) = drop (?n - 1) s"
    using 2 by simp_all
  have whole: "take ?n (c # s) @ drop (?n - 1) s = c # s"
    using n by (cases ?n) simp_all
  show ?case
  proof (cases "byte c < 0x80")
    case True
    then have "?n = 1" by (simp add: utf8_len_def)
    then show ?thesis using True IH by (simp add: json_escape.simps(2) unquote_ascii)
  next
    case False
    then show ?thesis
      using n IH whole by (simp add: json_escape.simps(2) Let_def unquote_multi [OF refl n])
  qed
qed

section \<open>The scanner\<close>

datatype token = TLBrace | TRBrace | TLBrack | TRBrack | TColon | TComma
  | TStr string | TNum string | TTrue | TFalse | TNull

text \<open>
  The text of a string, up to the closing quote, and the rest. Escapes are checked, not
  decoded; control characters are refused.
\<close>

fun lex_string :: "string \<Rightarrow> (string \<times> string) option" where
  "lex_string [] = None"
| "lex_string (c # s) =
     (if c = DQ then Some ([], s)
      else if c = BS then
        (case s of
           [] \<Rightarrow> None
         | e # s' \<Rightarrow>
             if e \<in> set (''bfnrt/'' @ [BS, DQ]) then
               (case lex_string s' of None \<Rightarrow> None | Some (r, t) \<Rightarrow> Some (c # e # r, t))
             else if getu4 (c # s) \<noteq> None then
               (case lex_string (drop 4 s') of None \<Rightarrow> None | Some (r, t) \<Rightarrow> Some (c # e # take 4 s' @ r, t))
             else None)
      else if byte c < 0x20 then None
      else (case lex_string s of None \<Rightarrow> None | Some (r, t) \<Rightarrow> Some (c # r, t)))"

declare lex_string.simps(2) [simp del]

text \<open>A fraction and an exponent, each optional but not empty once begun.\<close>

definition lex_fraction :: "string \<Rightarrow> (string \<times> string) option" where
  "lex_fraction s =
     (case s of
        p # s' \<Rightarrow>
          if p = CHR ''.''
          then (if takeWhile is_digit s' = [] then None
                else Some (p # takeWhile is_digit s', dropWhile is_digit s'))
          else Some ([], s)
      | [] \<Rightarrow> Some ([], s))"

definition lex_exponent :: "string \<Rightarrow> (string \<times> string) option" where
  "lex_exponent s =
     (case s of
        e # s' \<Rightarrow>
          if e = CHR ''e'' \<or> e = CHR ''E''
          then (let sg = (case s' of c # _ \<Rightarrow> if c = CHR ''+'' \<or> c = CHR ''-'' then [c] else [] | [] \<Rightarrow> []);
                    s'' = drop (length sg) s'
                in if takeWhile is_digit s'' = [] then None
                   else Some (e # sg @ takeWhile is_digit s'', dropWhile is_digit s''))
          else Some ([], s)
      | [] \<Rightarrow> Some ([], s))"

text \<open>The integer part, without its sign: a single 0, or digits that do not begin with 0.\<close>

definition lex_integer :: "string \<Rightarrow> (string \<times> string) option" where
  "lex_integer s =
     (case s of
        c # s' \<Rightarrow>
          if c = CHR ''0'' then Some ([c], s')
          else if is_digit c then Some (takeWhile is_digit s, dropWhile is_digit s)
          else None
      | [] \<Rightarrow> None)"

definition lex_number :: "string \<Rightarrow> (string \<times> string) option" where
  "lex_number s =
     (let sg = (case s of c # _ \<Rightarrow> if c = CHR ''-'' then [c] else [] | [] \<Rightarrow> []) in
      case lex_integer (drop (length sg) s) of
        None \<Rightarrow> None
      | Some (i, s1) \<Rightarrow>
          (case lex_fraction s1 of
             None \<Rightarrow> None
           | Some (f, s2) \<Rightarrow>
               (case lex_exponent s2 of
                  None \<Rightarrow> None
                | Some (e, s3) \<Rightarrow> Some (sg @ i @ f @ e, s3))))"

lemma lex_string_length: "lex_string s = Some (r, t) \<Longrightarrow> length t < length s"
proof (induction s arbitrary: r t rule: length_induct)
  case (1 s)
  then obtain c s' where s: "s = c # s'" by (cases s) auto
  have IH: "length u < length s \<Longrightarrow> lex_string u = Some (a, t) \<Longrightarrow> length t < length s" for u a
    using 1(1) by (meson order_less_trans)
  have "t = s' \<or> (\<exists>u a. length u < length s \<and> lex_string u = Some (a, t))"
    using 1(2) unfolding s lex_string.simps(2)
    by (cases s'; force split: if_splits option.splits)
  then show ?case using IH s by auto
qed

lemma lex_fraction_length: "lex_fraction s = Some (r, t) \<Longrightarrow> length t \<le> length s"
  by (auto simp: lex_fraction_def length_dropWhile_le le_SucI split: list.splits if_splits)

lemma lex_exponent_length: "lex_exponent s = Some (r, t) \<Longrightarrow> length t \<le> length s"
  by (auto simp: lex_exponent_def Let_def intro: le_SucI length_dropWhile_le split: list.splits if_splits)

lemma lex_integer_length: "lex_integer s = Some (r, t) \<Longrightarrow> length t < length s"
  by (auto simp: lex_integer_def less_Suc_eq_le length_dropWhile_le split: list.splits if_splits)

lemma lex_number_length: "lex_number s = Some (r, t) \<Longrightarrow> length t < length s"
  unfolding lex_number_def Let_def
  by (fastforce split: option.splits prod.splits dest: lex_integer_length lex_fraction_length lex_exponent_length)

definition is_space :: "char \<Rightarrow> bool" where
  "is_space c \<longleftrightarrow> c = CHR '' '' \<or> c = CHR 0x09 \<or> c = CHR 0x0A \<or> c = CHR 0x0D"

definition punctuation :: "char \<Rightarrow> token option" where
  "punctuation c =
     (if c = CHR ''{'' then Some TLBrace
      else if c = CHR ''}'' then Some TRBrace
      else if c = CHR ''['' then Some TLBrack
      else if c = CHR '']'' then Some TRBrack
      else if c = CHR '':'' then Some TColon
      else if c = CHR '','' then Some TComma
      else None)"

definition literal :: "string \<Rightarrow> (token \<times> nat) option" where
  "literal s =
     (if prefix ''true'' s then Some (TTrue, 4)
      else if prefix ''false'' s then Some (TFalse, 5)
      else if prefix ''null'' s then Some (TNull, 4)
      else None)"

function (sequential) lex :: "string \<Rightarrow> token list option" where
  "lex [] = Some []"
| "lex (c # s) =
     (if is_space c then lex s
      else case punctuation c of
        Some tok \<Rightarrow> map_option (\<lambda>ts. tok # ts) (lex s)
      | None \<Rightarrow>
          if c = DQ then
            (case lex_string s of None \<Rightarrow> None | Some (r, t) \<Rightarrow> map_option (\<lambda>ts. TStr r # ts) (lex t))
          else if c = CHR ''-'' \<or> is_digit c then
            (case lex_number (c # s) of None \<Rightarrow> None | Some (r, t) \<Rightarrow> map_option (\<lambda>ts. TNum r # ts) (lex t))
          else
            (case literal (c # s) of
               None \<Rightarrow> None
             | Some (tok, n) \<Rightarrow> map_option (\<lambda>ts. tok # ts) (lex (drop (n - 1) s))))"
  by pat_completeness auto

termination
  by (relation "measure length") (auto dest: lex_string_length lex_number_length)

declare lex.simps(2) [simp del]

section \<open>Values\<close>

text \<open>Strings and keys are kept as they are written, between the quotes.\<close>

datatype json = JNull | JBool bool | JNum string | JStr string | JArr "json list"
  | JObj "(string \<times> json) list"

datatype frame = FArr "json list" | FObj "(string \<times> json) list" | FVal "(string \<times> json) list" string

datatype scan_pos = BeginValue | BeginElement | BeginMember | BeginKey | EndKey string | EndValue json

definition maxNestingDepth :: nat where
  "maxNestingDepth = 10000"

text \<open>
  The pushdown automaton of the scanner. The stack holds the open arrays and objects:
  \<open>FObj\<close> waits for a key, \<open>FVal\<close> for the value of a key.
\<close>

fun scan :: "token list \<Rightarrow> frame list \<Rightarrow> scan_pos \<Rightarrow> json option" where
  "scan [] fs p = (case (fs, p) of ([], EndValue v) \<Rightarrow> Some v | _ \<Rightarrow> None)"
| "scan (tok # ts) fs (EndValue v) =
     (case fs of
        [] \<Rightarrow> None
      | FArr vs # fs' \<Rightarrow>
          if tok = TComma then scan ts (FArr (vs @ [v]) # fs') BeginValue
          else if tok = TRBrack then scan ts fs' (EndValue (JArr (vs @ [v])))
          else None
      | FVal ms k # fs' \<Rightarrow>
          if tok = TComma then scan ts (FObj (ms @ [(k, v)]) # fs') BeginKey
          else if tok = TRBrace then scan ts fs' (EndValue (JObj (ms @ [(k, v)])))
          else None
      | FObj ms # fs' \<Rightarrow> None)"
| "scan (tok # ts) fs (EndKey k) =
     (case fs of
        FObj ms # fs' \<Rightarrow> if tok = TColon then scan ts (FVal ms k # fs') BeginValue else None
      | _ \<Rightarrow> None)"
| "scan (tok # ts) fs BeginKey = (case tok of TStr k \<Rightarrow> scan ts fs (EndKey k) | _ \<Rightarrow> None)"
| "scan (tok # ts) fs BeginMember =
     (if tok = TRBrace then (case fs of FObj ms # fs' \<Rightarrow> scan ts fs' (EndValue (JObj ms)) | _ \<Rightarrow> None)
      else case tok of TStr k \<Rightarrow> scan ts fs (EndKey k) | _ \<Rightarrow> None)"
| "scan (tok # ts) fs p =
     (if p = BeginElement \<and> tok = TRBrack
      then (case fs of FArr vs # fs' \<Rightarrow> scan ts fs' (EndValue (JArr vs)) | _ \<Rightarrow> None)
      else case tok of
          TStr r \<Rightarrow> scan ts fs (EndValue (JStr r))
        | TNum r \<Rightarrow> scan ts fs (EndValue (JNum r))
        | TTrue \<Rightarrow> scan ts fs (EndValue (JBool True))
        | TFalse \<Rightarrow> scan ts fs (EndValue (JBool False))
        | TNull \<Rightarrow> scan ts fs (EndValue JNull)
        | TLBrace \<Rightarrow>
            if length fs < maxNestingDepth then scan ts (FObj [] # fs) BeginMember else None
        | TLBrack \<Rightarrow>
            if length fs < maxNestingDepth then scan ts (FArr [] # fs) BeginElement else None
        | _ \<Rightarrow> None)"

definition parse_json :: "string \<Rightarrow> json option" where
  "parse_json s = (case lex s of None \<Rightarrow> None | Some ts \<Rightarrow> scan ts [] BeginValue)"

section \<open>Printing\<close>

fun join :: "'a list \<Rightarrow> 'a list list \<Rightarrow> 'a list" where
  "join sep [] = []"
| "join sep [x] = x"
| "join sep (x # xs) = x @ sep @ join sep xs"

definition quoted :: "string \<Rightarrow> string" where
  "quoted r = DQ # r @ [DQ]"

fun print_json :: "json \<Rightarrow> string" where
  "print_json JNull = ''null''"
| "print_json (JBool b) = (if b then ''true'' else ''false'')"
| "print_json (JNum s) = s"
| "print_json (JStr r) = quoted r"
| "print_json (JArr vs) = ''['' @ join '','' (map print_json vs) @ '']''"
| "print_json (JObj ms) =
     ''{'' @ join '','' (map (\<lambda>(k, v). quoted k @ '':'' @ print_json v) ms) @ ''}''"

text \<open>The tokens of a value, and its depth.\<close>

fun tokens_of :: "json \<Rightarrow> token list" where
  "tokens_of JNull = [TNull]"
| "tokens_of (JBool b) = [if b then TTrue else TFalse]"
| "tokens_of (JNum s) = [TNum s]"
| "tokens_of (JStr r) = [TStr r]"
| "tokens_of (JArr vs) = TLBrack # join [TComma] (map tokens_of vs) @ [TRBrack]"
| "tokens_of (JObj ms) = TLBrace # join [TComma] (map (\<lambda>(k, v). TStr k # TColon # tokens_of v) ms) @ [TRBrace]"

fun json_depth :: "json \<Rightarrow> nat" where
  "json_depth (JArr vs) = Suc (Max (set (0 # map json_depth vs)))"
| "json_depth (JObj ms) = Suc (Max (set (0 # map (\<lambda>(k, v). json_depth v) ms)))"
| "json_depth v = 0"

text \<open>Texts of strings that the scanner accepts; numbers are those that the encoder prints.\<close>

definition string_text :: "string \<Rightarrow> bool" where
  "string_text r \<longleftrightarrow> (\<forall>t. lex_string (r @ DQ # t) = Some (r, t))"

fun json_ok :: "json \<Rightarrow> bool" where
  "json_ok (JNum s) = (\<exists>i. s = show_int i)"
| "json_ok (JStr r) = string_text r"
| "json_ok (JArr vs) = (\<forall>v \<in> set vs. json_ok v)"
| "json_ok (JObj ms) = (\<forall>(k, v) \<in> set ms. string_text k \<and> json_ok v)"
| "json_ok v = True"

lemma join_Cons: "join sep (x # xs) = (if xs = [] then x else x @ sep @ join sep xs)"
  by (cases xs) simp_all

definition number_end :: "string \<Rightarrow> bool" where
  "number_end t \<longleftrightarrow> t = [] \<or> \<not> is_digit (hd t) \<and> hd t \<notin> {CHR ''.'', CHR ''e'', CHR ''E''}"

lemma is_digit_iff: "is_digit c \<longleftrightarrow> (\<exists>d < 10. c = digit_char d)"
proof
  assume "is_digit c"
  then have "byte c - 48 < 10" "c = digit_char (byte c - 48)"
    by (auto simp: is_digit_of_char digit_char_def)
  then show "\<exists>d < 10. c = digit_char d" by blast
qed auto

lemma show_nat_all_digits: "list_all is_digit (show_nat n)"
  unfolding list_all_iff is_digit_iff using show_nat_digits by blast

lemma show_nat_hd: "0 < n \<Longrightarrow> hd (show_nat n) \<noteq> CHR ''0''"
proof (induction n rule: show_nat.induct)
  case (1 n)
  show ?case
  proof (cases "n < 10")
    case True
    have "of_char (digit_char n) = 48 + n" using True by simp
    then have "digit_char n \<noteq> CHR ''0''" using 1(2) by auto
    then show ?thesis using True by (simp add: show_nat.simps [of n])
  next
    case False
    then show ?thesis using 1 by (simp add: show_nat.simps [of n])
  qed
qed

lemma take_drop_digits:
  assumes "list_all is_digit ds" "number_end t"
  shows "takeWhile is_digit (ds @ t) = ds" "dropWhile is_digit (ds @ t) = t"
  using assms by (induction ds) (cases t; auto simp: number_end_def)+

lemma show_nat_zero: "show_nat 0 = ''0''"
  by (simp add: show_nat.simps [of 0] digit_char_def char_of_eq_iff)

lemma lex_integer_show_nat:
  assumes "number_end t"
  shows "lex_integer (show_nat n @ t) = Some (show_nat n, t)"
proof (cases "n = 0")
  case True
  then show ?thesis by (simp add: show_nat_zero lex_integer_def)
next
  case False
  obtain c cs where c: "show_nat n = c # cs" by (cases "show_nat n") auto
  have "c \<noteq> CHR ''0''" "is_digit c" using show_nat_hd [of n] show_nat_all_digits [of n] False c by simp_all
  then show ?thesis
    using take_drop_digits [OF show_nat_all_digits assms, of n] by (simp add: lex_integer_def c)
qed

lemma lex_number_show_int:
  assumes "number_end t"
  shows "lex_number (show_int i @ t) = Some (show_int i, t)"
proof -
  have f: "lex_fraction t = Some ([], t)" and e: "lex_exponent t = Some ([], t)"
    using assms by (cases t; simp add: number_end_def lex_fraction_def lex_exponent_def)+
  show ?thesis
  proof (cases "i < 0")
    case True
    then show ?thesis
      by (simp add: lex_number_def show_int_def lex_integer_show_nat [OF assms] f e)
  next
    case False
    obtain c cs where c: "show_nat (nat i) = c # cs" by (cases "show_nat (nat i)") auto
    then have "c \<noteq> CHR ''-''" using show_nat_no_minus [of "nat i"] by auto
    then show ?thesis
      using lex_integer_show_nat [OF assms, of "nat i"] False
      by (simp add: lex_number_def show_int_def c f e)
  qed
qed

lemma lex_punctuation:
  assumes "punctuation c = Some tok"
  shows "lex (c # s) = map_option (\<lambda>ts. tok # ts) (lex s)"
proof -
  have "\<not> is_space c" using assms by (auto simp: punctuation_def is_space_def split: if_splits)
  then show ?thesis using assms by (simp add: lex.simps(2))
qed

lemma lex_quoted:
  assumes "string_text r"
  shows "lex (quoted r @ t) = map_option (\<lambda>ts. TStr r # ts) (lex t)"
  using assms by (simp add: quoted_def lex.simps(2) is_space_def punctuation_def string_text_def)

lemma not_digits:
  "\<forall>c \<in> set ('' {}[]:,'' @ [CHR 0x09, CHR 0x0A, CHR 0x0D, DQ]). \<not> is_digit c"
  by (simp add: is_digit_of_char)

lemma lex_show_int:
  assumes "number_end t"
  shows "lex (show_int i @ t) = map_option (\<lambda>ts. TNum (show_int i) # ts) (lex t)"
proof -
  obtain c cs where c: "show_int i = c # cs" by (cases "show_int i") (simp_all add: show_int_def split: if_splits)
  have "c = CHR ''-'' \<or> is_digit c"
    using c show_nat_all_digits [of "nat i"] by (cases "i < 0") (simp_all add: show_int_def)
  moreover from this have "\<not> is_space c \<and> punctuation c = None \<and> c \<noteq> DQ"
    using not_digits by (auto simp: is_space_def punctuation_def)
  ultimately show ?thesis
    using lex_number_show_int [OF assms, of i] by (simp add: c lex.simps(2))
qed

lemma number_end_punctuation: "punctuation c = Some tok \<Longrightarrow> number_end (c # t)"
  by (auto simp: number_end_def punctuation_def is_digit_of_char split: if_splits)

lemma punctuation_simps [simp]:
  "punctuation (CHR '','') = Some TComma" "punctuation (CHR '':'') = Some TColon"
  "punctuation (CHR ''{'') = Some TLBrace" "punctuation (CHR ''}'') = Some TRBrace"
  "punctuation (CHR ''['') = Some TLBrack" "punctuation (CHR '']'') = Some TRBrack"
  by (simp_all add: punctuation_def)

lemma number_end_simps [simp]:
  "number_end (CHR '','' # t)" "number_end (CHR ''}'' # t)" "number_end (CHR '']'' # t)"
  by (rule number_end_punctuation, simp)+

lemma lex_join:
  assumes "\<And>x t. x \<in> set xs \<Longrightarrow> number_end t \<Longrightarrow> lex (f x @ t) = map_option (append (g x)) (lex t)"
    and "number_end t"
  shows "lex (join '','' (map f xs) @ t) = map_option (append (join [TComma] (map g xs))) (lex t)"
  using assms
proof (induction xs)
  case Nil
  then show ?case by (simp add: option.map_ident)
next
  case (Cons x xs)
  show ?case
  proof (cases "xs = []")
    case True
    then show ?thesis using Cons.prems by simp
  next
    case False
    have "lex (f x @ '','' @ join '','' (map f xs) @ t) =
        map_option (append (g x)) (lex ('','' @ join '','' (map f xs) @ t))"
      using Cons.prems(1) by simp
    also have "lex ('','' @ join '','' (map f xs) @ t) = map_option (\<lambda>ts. TComma # ts) (lex (join '','' (map f xs) @ t))"
      by (simp add: lex_punctuation)
    also have "lex (join '','' (map f xs) @ t) = map_option (append (join [TComma] (map g xs))) (lex t)"
      using Cons by simp
    finally show ?thesis using False by (simp add: join_Cons option.map_comp comp_def)
  qed
qed

lemma lex_print_json:
  "json_ok v \<Longrightarrow> number_end t \<Longrightarrow> lex (print_json v @ t) = map_option (append (tokens_of v)) (lex t)"
proof (induction v arbitrary: t rule: print_json.induct)
  case 1
  show ?case by (simp add: lex.simps(2) is_space_def punctuation_def is_digit_of_char literal_def)
next
  case (2 b)
  show ?case by (cases b) (simp_all add: lex.simps(2) is_space_def punctuation_def is_digit_of_char literal_def)
next
  case (3 s)
  then show ?case using lex_show_int by auto
next
  case (4 r)
  then show ?case by (simp add: lex_quoted)
next
  case (5 vs)
  have "lex (join '','' (map print_json vs) @ '']'' @ t) =
      map_option (append (join [TComma] (map tokens_of vs))) (lex ('']'' @ t))"
    by (rule lex_join) (use 5 in auto)
  then show ?case by (simp add: lex_punctuation option.map_comp comp_def)
next
  case (6 ms)
  let ?f = "\<lambda>(k, v). quoted k @ '':'' @ print_json v" and ?g = "\<lambda>(k, v). TStr k # TColon # tokens_of v"
  have "lex (?f x @ t) = map_option (append (?g x)) (lex t)" if x: "x \<in> set ms" and t: "number_end t" for x t
  proof -
    obtain k v where kv: "x = (k, v)" by (cases x)
    have ok: "string_text k" "json_ok v" using 6(2) x kv by auto
    have "lex (print_json v @ t) = map_option (append (tokens_of v)) (lex t)"
      by (rule 6(1) [OF x _ ok(2) t]) (simp add: kv)
    then show ?thesis using ok(1) by (cases "lex t") (simp_all add: kv lex_quoted lex_punctuation)
  qed
  then have "lex (join '','' (map ?f ms) @ ''}'' @ t) =
      map_option (append (join [TComma] (map ?g ms))) (lex (''}'' @ t))"
    by (rule lex_join) simp_all
  then show ?case by (simp add: lex_punctuation option.map_comp comp_def)
qed

lemma scan_array:
  assumes "\<And>v fs p ts. v \<in> set vs \<Longrightarrow> length fs = n \<Longrightarrow> p = BeginValue \<or> p = BeginElement \<Longrightarrow>
      scan (tokens_of v @ ts) fs p = scan ts fs (EndValue v)"
    and "vs \<noteq> []" "Suc (length fs) = n" "p = BeginValue \<or> p = BeginElement"
  shows "scan (join [TComma] (map tokens_of vs) @ TRBrack # ts) (FArr us # fs) p =
    scan ts fs (EndValue (JArr (us @ vs)))"
  using assms
proof (induction vs arbitrary: us p)
  case (Cons v vs)
  have v: "scan (tokens_of v @ ts') (FArr us # fs) p = scan ts' (FArr us # fs) (EndValue v)" for ts'
    using Cons.prems by simp
  show ?case
  proof (cases "vs = []")
    case True
    then show ?thesis using v by simp
  next
    case False
    then show ?thesis using v Cons.IH [of BeginValue "us @ [v]"] Cons.prems by (simp add: join_Cons)
  qed
qed simp

lemma scan_object:
  assumes "\<And>k v fs ts. (k, v) \<in> set ms \<Longrightarrow> length fs = n \<Longrightarrow>
      scan (tokens_of v @ ts) fs BeginValue = scan ts fs (EndValue v)"
    and "ms \<noteq> []" "Suc (length fs) = n" "p = BeginMember \<or> p = BeginKey"
  shows "scan (join [TComma] (map (\<lambda>(k, v). TStr k # TColon # tokens_of v) ms) @ TRBrace # ts) (FObj us # fs) p =
    scan ts fs (EndValue (JObj (us @ ms)))"
  using assms
proof (induction ms arbitrary: us p)
  case (Cons m ms)
  obtain k v where m: "m = (k, v)" by (cases m)
  have v: "scan (tokens_of v @ ts') (FVal us k # fs) BeginValue = scan ts' (FVal us k # fs) (EndValue v)" for ts'
    by (rule Cons.prems(1)) (use m Cons.prems(3) in auto)
  have k: "scan (TStr k # TColon # tokens_of v @ ts') (FObj us # fs) p = scan ts' (FVal us k # fs) (EndValue v)" for ts'
    using Cons.prems(4) v by auto
  show ?case
  proof (cases "ms = []")
    case True
    then show ?thesis using k m by simp
  next
    case False
    have "scan (join [TComma] (map (\<lambda>(k, v). TStr k # TColon # tokens_of v) ms) @ TRBrace # ts)
        (FObj (us @ [(k, v)]) # fs) BeginKey = scan ts fs (EndValue (JObj ((us @ [(k, v)]) @ ms)))"
      by (rule Cons.IH) (use Cons.prems False in auto)
    then show ?thesis using k m False by (simp add: join_Cons)
  qed
qed simp

lemma scan_tokens_of:
  "length fs + json_depth v \<le> maxNestingDepth \<Longrightarrow> p = BeginValue \<or> p = BeginElement \<Longrightarrow>
   scan (tokens_of v @ ts) fs p = scan ts fs (EndValue v)"
proof (induction v arbitrary: fs p ts rule: tokens_of.induct)
  case (5 vs)
  then have depth: "length fs < maxNestingDepth" by simp
  have el: "scan (tokens_of v @ ts) fs' p = scan ts fs' (EndValue v)"
    if "v \<in> set vs" "length fs' = Suc (length fs)" "p = BeginValue \<or> p = BeginElement" for v fs' p ts
  proof (rule 5(1))
    have "json_depth v \<le> Max (set (0 # map json_depth vs))" using that(1) by (intro Max_ge) auto
    then show "length fs' + json_depth v \<le> maxNestingDepth" using that(2) 5(2) by simp
  qed (use that in auto)
  show ?case
  proof (cases "vs = []")
    case True
    then show ?thesis using depth 5(3) by auto
  next
    case False
    then show ?thesis
      using scan_array [OF el _ refl, where us = "[]" and p = BeginElement] depth 5(3) by auto
  qed
next
  case (6 ms)
  then have depth: "length fs < maxNestingDepth" by simp
  have el: "scan (tokens_of v @ ts) fs' BeginValue = scan ts fs' (EndValue v)"
    if "(k, v) \<in> set ms" "length fs' = Suc (length fs)" for k v fs' ts
  proof (rule 6(1) [OF that(1) refl])
    have "json_depth v \<le> Max (set (0 # map (\<lambda>(k, v). json_depth v) ms))"
      using that(1) by (intro Max_ge) (auto intro!: image_eqI [of _ _ "(k, v)"])
    then show "length fs' + json_depth v \<le> maxNestingDepth" using that(2) 6(2) by simp
  qed simp
  show ?case
  proof (cases "ms = []")
    case True
    then show ?thesis using depth 6(3) by auto
  next
    case False
    then show ?thesis
      using scan_object [OF el _ refl, where us = "[]" and p = BeginMember] depth 6(3) by auto
  qed
qed auto

lemma parse_print_json:
  assumes "json_ok v" "json_depth v \<le> maxNestingDepth"
  shows "parse_json (print_json v) = Some v"
proof -
  have "lex (print_json v) = Some (tokens_of v)"
    using lex_print_json [OF assms(1), of "[]"] by (simp add: number_end_def)
  moreover have "scan (tokens_of v) [] BeginValue = Some v"
    using scan_tokens_of [of "[]" v BeginValue "[]"] assms(2) by simp
  ultimately show ?thesis by (simp add: parse_json_def)
qed

section \<open>What the encoder writes is accepted\<close>

definition prepend :: "string \<Rightarrow> (string \<times> string) option \<Rightarrow> (string \<times> string) option" where
  "prepend p = map_option (\<lambda>(r, t). (p @ r, t))"

lemma prepend_append [simp]: "prepend p (prepend q x) = prepend (p @ q) x"
  by (cases x) (auto simp: prepend_def)

lemma lex_string_short:
  "e \<in> set (''bfnrt/'' @ [BS, DQ]) \<Longrightarrow> lex_string (BS # e # u) = prepend [BS, e] (lex_string u)"
  by (cases "lex_string u") (auto simp: lex_string.simps(2) prepend_def)

lemma lex_string_long:
  assumes "getu4 (BS # CHR ''u'' # a # b # c # d # u) \<noteq> None"
  shows "lex_string (BS # CHR ''u'' # a # b # c # d # u) = prepend [BS, CHR ''u'', a, b, c, d] (lex_string u)"
  using assms by (cases "lex_string u") (auto simp: lex_string.simps(2) prepend_def)

lemma lex_string_plain:
  "c \<noteq> DQ \<Longrightarrow> c \<noteq> BS \<Longrightarrow> 0x20 \<le> byte c \<Longrightarrow> lex_string (c # u) = prepend [c] (lex_string u)"
  by (cases "lex_string u") (auto simp: lex_string.simps(2) prepend_def)

lemma lex_string_high:
  "\<forall>c \<in> set xs. 0x80 \<le> byte c \<Longrightarrow> lex_string (xs @ u) = prepend xs (lex_string u)"
proof (induction xs)
  case Nil
  then show ?case by (cases "lex_string u") (simp_all add: prepend_def)
next
  case (Cons c xs)
  then have "c \<noteq> DQ" "c \<noteq> BS" "0x20 \<le> byte c" by auto
  then show ?case using Cons by (simp add: lex_string_plain)
qed

lemma lex_string_ascii:
  assumes "byte c < 0x80"
  shows "lex_string (escape_ascii c @ u) = prepend (escape_ascii c) (lex_string u)"
proof -
  consider (short) e where "escape_ascii c = [BS, e]" "e \<in> set (''bfnrt/'' @ [BS, DQ])"
    | (long) "escape_ascii c = BS # ''u00'' @ [hex_digit (byte c div 16), hex_digit (byte c mod 16)]"
    | (plain) "escape_ascii c = [c]" "c \<noteq> DQ" "c \<noteq> BS" "0x20 \<le> byte c"
    unfolding escape_ascii_def by (fastforce split: if_splits)
  then show ?thesis
  proof cases
    case short
    then show ?thesis by (simp only: short append_Cons append_Nil lex_string_short)
  next
    case long
    then show ?thesis
      using assms getu4_u00 [of "byte c" u] by (simp add: lex_string_long)
  next
    case plain
    then show ?thesis by (simp add: lex_string_plain)
  qed
qed

lemma lex_string_escape_u:
  "lex_string (BS # ''ufffd'' @ u) = prepend (BS # ''ufffd'') (lex_string u)"
  "lex_string (BS # ''u2028'' @ u) = prepend (BS # ''u2028'') (lex_string u)"
  "lex_string (BS # ''u2029'' @ u) = prepend (BS # ''u2029'') (lex_string u)"
  by (simp_all add: lex_string_long getu4_def hex_value_def)

lemma lex_string_multi:
  assumes "utf8_len (c # s) = n" "\<not> byte c < 0x80"
  shows "lex_string (escape_multi (take n (c # s)) @ u) = prepend (escape_multi (take n (c # s))) (lex_string u)"
  using lex_string_high [OF utf8_len_high [OF assms]] lex_string_escape_u by (simp add: escape_multi_def)

lemma lex_string_json_escape: "lex_string (json_escape s @ u) = prepend (json_escape s) (lex_string u)"
proof (induction s rule: json_escape.induct)
  case 1
  then show ?case by (cases "lex_string u") (simp_all add: prepend_def)
next
  case (2 c s)
  let ?n = "utf8_len (c # s)"
  consider (ascii) "byte c < 0x80" | (invalid) "\<not> byte c < 0x80" "?n = 0" | (multi) "\<not> byte c < 0x80" "?n \<noteq> 0"
    by blast
  then show ?case
  proof cases
    case ascii
    then show ?thesis using 2(1) by (simp add: json_escape.simps(2) lex_string_ascii)
  next
    case invalid
    have "lex_string (json_escape s @ u) = prepend (json_escape s) (lex_string u)"
      by (rule 2(2) [OF invalid(1) refl invalid(2)])
    then show ?thesis using invalid lex_string_escape_u(1) by (simp add: json_escape.simps(2))
  next
    case multi
    have "lex_string (json_escape (drop (?n - 1) s) @ u) = prepend (json_escape (drop (?n - 1) s)) (lex_string u)"
      by (rule 2(3) [OF multi(1) refl multi(2)])
    then show ?thesis using multi by (simp add: json_escape.simps(2) Let_def lex_string_multi)
  qed
qed

lemma string_text_json_escape [simp]: "string_text (json_escape s)"
  by (simp add: string_text_def lex_string_json_escape) (simp add: lex_string.simps(2) prepend_def)

section \<open>Decoding into struct fields\<close>

text \<open>
  The key of an object member selects the field of that name, or else the first field whose
  name is equal under case folding. Two characters outside ASCII fold to ASCII letters.
\<close>

fun fold_name :: "string \<Rightarrow> string" where
  "fold_name [] = []"
| "fold_name (c # s) =
     (if prefix (utf8_encode 0x17F) (c # s) then CHR ''s'' # fold_name (drop 1 s)
      else if prefix (utf8_encode 0x212A) (c # s) then CHR ''k'' # fold_name (drop 2 s)
      else lower_char c # fold_name s)"

definition find_field :: "string list \<Rightarrow> string \<Rightarrow> string option" where
  "find_field names key =
     (if key \<in> set names then Some key else List.find (\<lambda>n. fold_name n = fold_name key) names)"

definition json_type_error :: "string \<Rightarrow> go_error" where
  "json_type_error field = ErrText (''json: cannot unmarshal value into field '' @ field)"

definition decode_string :: "string \<Rightarrow> json \<Rightarrow> string \<Rightarrow> string result" where
  "decode_string field v old =
     (case v of JStr r \<Rightarrow> Inr (json_unquote r) | JNull \<Rightarrow> Inr old | _ \<Rightarrow> Inl (json_type_error field))"

text \<open>\<open>strconv.ParseInt\<close> on the text of a number, for a signed integer of the given width.\<close>

definition parse_int :: "nat \<Rightarrow> string \<Rightarrow> int option" where
  "parse_int bits s =
     (let neg = (s \<noteq> [] \<and> hd s = CHR ''-''); ds = (if neg then tl s else s);
          i = (if neg then - int (dec_value ds) else int (dec_value ds))
      in if ds \<noteq> [] \<and> list_all is_digit ds \<and> - (2 ^ (bits - 1)) \<le> i \<and> i < 2 ^ (bits - 1)
         then Some i else None)"

definition decode_int :: "nat \<Rightarrow> string \<Rightarrow> json \<Rightarrow> ('a::len) word \<Rightarrow> 'a word result" where
  "decode_int bits field v old =
     (case v of
        JNum s \<Rightarrow>
          (case parse_int bits s of Some i \<Rightarrow> Inr (word_of_int i) | None \<Rightarrow> Inl (json_type_error field))
      | JNull \<Rightarrow> Inr old
      | _ \<Rightarrow> Inl (json_type_error field))"

text \<open>\<open>Time.UnmarshalJSON\<close> and \<open>Time.MarshalJSON\<close>; the text between the quotes is not unescaped.\<close>

definition decode_time :: "string \<Rightarrow> json \<Rightarrow> Time \<Rightarrow> Time result" where
  "decode_time field v old =
     (case v of
        JStr r \<Rightarrow> (case parseRFC3339 r of Some t \<Rightarrow> Inr t | None \<Rightarrow> Inl (json_type_error field))
      | JNull \<Rightarrow> Inr old
      | _ \<Rightarrow> Inl (ErrText ''Time.UnmarshalJSON: input is not a JSON string''))"

definition time_year :: "Time \<Rightarrow> int" where
  "time_year t = fst (civil_of_days (t div day))"

definition encode_time :: "Time \<Rightarrow> json result" where
  "encode_time t =
     (if 0 \<le> time_year t \<and> time_year t \<le> 9999 then Inr (JStr (FormatRFC3339Nano t))
      else Inl (ErrText ''Time.MarshalJSON: year outside of range [0,9999]''))"

fun decode_members :: "('s \<Rightarrow> string \<Rightarrow> json \<Rightarrow> 's result) \<Rightarrow> string list \<Rightarrow> (string \<times> json) list \<Rightarrow> 's \<Rightarrow> 's result" where
  "decode_members f names [] x = Inr x"
| "decode_members f names ((k, v) # ms) x =
     (case find_field names (json_unquote k) of
        None \<Rightarrow> decode_members f names ms x
      | Some n \<Rightarrow> (case f x n v of Inl err \<Rightarrow> Inl err | Inr x' \<Rightarrow> decode_members f names ms x'))"

lemma parse_int_show_int:
  assumes "- (2 ^ (bits - 1)) \<le> i" "i < 2 ^ (bits - 1)"
  shows "parse_int bits (show_int i) = Some i"
proof (cases "i < 0")
  case True
  then show ?thesis
    using assms show_nat_all_digits [of "nat (- i)"]
    by (simp add: parse_int_def show_int_def Let_def dec_value_show_nat)
next
  case False
  have "hd (show_nat (nat i)) \<noteq> CHR ''-''"
    using show_nat_no_minus [of "nat i"] by (metis hd_in_set show_nat_nonempty)
  then show ?thesis
    using False assms show_nat_all_digits [of "nat i"]
    by (simp add: parse_int_def show_int_def Let_def dec_value_show_nat)
qed

lemma decode_time_encode:
  assumes "encode_time t = Inr v"
  shows "decode_time field v old = Inr t"
proof -
  obtain y m d where c: "civil_of_days (t div day) = (y, m, d)" by (cases "civil_of_days (t div day)")
  then have "0 \<le> y" "y \<le> 9999" "v = JStr (FormatRFC3339Nano t)"
    using assms by (auto simp: encode_time_def time_year_def split: if_splits)
  then show ?thesis using parse_format_time [OF c] by (simp add: decode_time_def)
qed

definition plain_char :: "char \<Rightarrow> bool" where
  "plain_char c \<longleftrightarrow> c \<noteq> DQ \<and> c \<noteq> BS \<and> 0x20 \<le> byte c"

lemma plain_text: "list_all plain_char r \<Longrightarrow> string_text r"
proof -
  assume "list_all plain_char r"
  then have "lex_string (r @ u) = prepend r (lex_string u)" for u
    by (induction r) (cases "lex_string u"; simp add: prepend_def; fail | simp add: plain_char_def lex_string_plain)+
  then show ?thesis by (simp add: string_text_def lex_string.simps(2) prepend_def)
qed

lemma plain_digit: "is_digit c \<Longrightarrow> plain_char c"
proof -
  assume d: "is_digit c"
  then have "48 \<le> byte c" "byte c \<le> 57" by (simp_all add: is_digit_of_char)
  moreover from this have "c \<noteq> DQ" "c \<noteq> BS" by auto
  ultimately show ?thesis by (simp add: plain_char_def)
qed

lemma plain_digits: "list_all is_digit s \<Longrightarrow> list_all plain_char s"
  by (auto simp: list_all_iff plain_digit)

lemma plain_fraction: "list_all plain_char (format_fraction ns)"
proof -
  have "\<forall>c \<in> set (fix_digits 9 ns). plain_char c"
    using plain_digits [OF fix_digits_digits] by (simp add: list_all_iff)
  then have "\<forall>c \<in> set (dropWhile P (rev (fix_digits 9 ns))). plain_char c" for P
    by (metis set_dropWhileD set_rev)
  moreover have "plain_char (CHR ''.'')" by (simp add: plain_char_def)
  ultimately show ?thesis by (simp add: format_fraction_def list_all_iff)
qed

lemma format_time_text: "string_text (FormatRFC3339Nano t)"
proof (rule plain_text)
  obtain y m d where c: "civil_of_days (t div day) = (y, m, d)" by (cases "civil_of_days (t div day)")
  have "list_all plain_char (format_year y)"
    using plain_digits [OF fix_digits_digits] plain_digits [OF show_nat_all_digits]
    by (simp add: format_year_def Let_def plain_char_def)
  moreover have "list_all plain_char (format_clock x)" for x
    using plain_digits [OF fix_digits_digits] by (simp add: format_clock_def plain_char_def)
  moreover have "plain_char (CHR ''-'')" "plain_char (CHR ''T'')" "plain_char (CHR ''Z'')"
    by (simp_all add: plain_char_def)
  ultimately show "list_all plain_char (FormatRFC3339Nano t)"
    using plain_digits [OF fix_digits_digits] plain_fraction by (simp add: FormatRFC3339Nano_def c)
qed

lemma encode_time_ok:
  assumes "encode_time t = Inr v"
  shows "json_ok v" "json_depth v = 0"
  using assms format_time_text [of t] by (auto simp: encode_time_def split: if_splits)

end
