(* ===== verification/Metadata.thy ===== *)
theory Metadata
  imports HLC Go_Json
begin

text \<open>
  The wire and identity types of \<open>protocol/\<close>: \<open>repo_id.go\<close>, \<open>messages.go\<close>, \<open>signer.go\<close> and
  \<open>metadata.go\<close>, with the advertised commit of \<open>core/commit_ad.go\<close>.

  A struct is a record whose fields carry a prefix for the struct (\<open>meta_HLC\<close>, \<open>ad_HLC\<close>).
  The \<open>Signer\<close> interface is a record of its methods. The JSON texts are those of
  \<open>encoding/json\<close> with the tags of the structs: \<open>omitempty\<close> omits an empty string and has no
  effect on a field that is a struct.
\<close>

section \<open>Repositories and messages\<close>

record RepoID =
  Org :: string
  RepoName :: string

definition RepoID_IsZero :: "RepoID \<Rightarrow> bool" where
  "RepoID_IsZero r \<longleftrightarrow> Org r = '''' \<and> RepoName r = ''''"

definition RepoID_Equal :: "RepoID \<Rightarrow> RepoID \<Rightarrow> bool" where
  "RepoID_Equal r other \<longleftrightarrow> Org r = Org other \<and> RepoName r = RepoName other"

record CommitAdV1 =
  ad_Repo :: RepoID
  ad_HLC :: HLCTimestamp
  ad_MetadataJSON :: string
  ad_MetadataSig :: string
  ad_ObservedAt :: Time

record HeartbeatV1 =
  hb_Repo :: RepoID
  hb_HLC :: HLCTimestamp
  hb_PeerID :: string

section \<open>Signer\<close>

record Signer =
  sgn_Sign :: "string \<Rightarrow> string result"
  sgn_Verify :: "string \<Rightarrow> string \<Rightarrow> string \<Rightarrow> unit result"
  sgn_PublicKey :: string
  sgn_GetID :: string

section \<open>Commit metadata\<close>

definition CommitKindUser :: string where
  "CommitKindUser = ''user''"

record CommitMetadataForSigning =
  sig_Kind :: string
  sig_Message :: string
  sig_HLC :: HLCTimestamp
  sig_ContentHash :: string
  sig_Author :: string
  sig_Email :: string
  sig_Date :: Time

record CommitMetadata =
  meta_Kind :: string
  meta_Message :: string
  meta_HLC :: HLCTimestamp
  meta_ContentHash :: string
  meta_Author :: string
  meta_Email :: string
  meta_Date :: Time
  meta_Signature :: string

subsection \<open>Encoding\<close>

definition omit_empty :: "string \<Rightarrow> string \<Rightarrow> (string \<times> json) list" where
  "omit_empty name s = (if s = '''' then [] else [(name, JStr (json_escape s))])"

definition json_string :: "string \<Rightarrow> json" where
  "json_string s = JStr (json_escape s)"

definition hlc_json :: "HLCTimestamp \<Rightarrow> json" where
  "hlc_json h = JObj [(''w'', JNum (show_int (sint (Wall h)))), (''l'', JNum (show_int (sint (Logical h)))),
     (''p'', json_string (PeerID h))]"

definition json_Marshal_signing :: "CommitMetadataForSigning \<Rightarrow> string result" where
  "json_Marshal_signing m =
     (case encode_time (sig_Date m) of
        Inl err \<Rightarrow> Inl (ErrWrap ''json: error calling MarshalJSON for type time.Time'' err)
      | Inr date \<Rightarrow>
          Inr (print_json (JObj ([(''kind'', json_string (sig_Kind m)), (''msg'', json_string (sig_Message m)),
            (''hlc'', hlc_json (sig_HLC m))] @ omit_empty ''content_hash'' (sig_ContentHash m) @
            omit_empty ''author'' (sig_Author m) @ omit_empty ''email'' (sig_Email m) @ [(''date'', date)]))))"

definition metadata_json :: "CommitMetadata \<Rightarrow> json \<Rightarrow> json" where
  "metadata_json m date =
     JObj ([(''kind'', json_string (meta_Kind m)), (''msg'', json_string (meta_Message m)),
       (''hlc'', hlc_json (meta_HLC m))] @ omit_empty ''content_hash'' (meta_ContentHash m) @
       omit_empty ''author'' (meta_Author m) @ omit_empty ''email'' (meta_Email m) @ [(''date'', date)] @
       omit_empty ''sig'' (meta_Signature m))"

definition json_Marshal :: "CommitMetadata \<Rightarrow> string result" where
  "json_Marshal m =
     (case encode_time (meta_Date m) of
        Inl err \<Rightarrow> Inl (ErrWrap ''json: error calling MarshalJSON for type time.Time'' err)
      | Inr date \<Rightarrow> Inr (print_json (metadata_json m date)))"

subsection \<open>Decoding\<close>

definition hlc_member :: "HLCTimestamp \<Rightarrow> string \<Rightarrow> json \<Rightarrow> HLCTimestamp result" where
  "hlc_member h name v =
     (if name = ''w'' then map_sum id (\<lambda>x. h\<lparr>Wall := x\<rparr>) (decode_int 64 name v (Wall h))
      else if name = ''l'' then map_sum id (\<lambda>x. h\<lparr>Logical := x\<rparr>) (decode_int 32 name v (Logical h))
      else map_sum id (\<lambda>x. h\<lparr>PeerID := x\<rparr>) (decode_string name v (PeerID h)))"

definition decode_hlc :: "string \<Rightarrow> json \<Rightarrow> HLCTimestamp \<Rightarrow> HLCTimestamp result" where
  "decode_hlc field v old =
     (case v of
        JObj ms \<Rightarrow> decode_members hlc_member [''w'', ''l'', ''p''] ms old
      | JNull \<Rightarrow> Inr old
      | _ \<Rightarrow> Inl (json_type_error field))"

definition metadata_fields :: "string list" where
  "metadata_fields = [''kind'', ''msg'', ''hlc'', ''content_hash'', ''author'', ''email'', ''date'', ''sig'']"

definition metadata_member :: "CommitMetadata \<Rightarrow> string \<Rightarrow> json \<Rightarrow> CommitMetadata result" where
  "metadata_member m name v =
     (if name = ''kind'' then map_sum id (\<lambda>x. m\<lparr>meta_Kind := x\<rparr>) (decode_string name v (meta_Kind m))
      else if name = ''msg'' then map_sum id (\<lambda>x. m\<lparr>meta_Message := x\<rparr>) (decode_string name v (meta_Message m))
      else if name = ''hlc'' then map_sum id (\<lambda>x. m\<lparr>meta_HLC := x\<rparr>) (decode_hlc name v (meta_HLC m))
      else if name = ''content_hash''
      then map_sum id (\<lambda>x. m\<lparr>meta_ContentHash := x\<rparr>) (decode_string name v (meta_ContentHash m))
      else if name = ''author'' then map_sum id (\<lambda>x. m\<lparr>meta_Author := x\<rparr>) (decode_string name v (meta_Author m))
      else if name = ''email'' then map_sum id (\<lambda>x. m\<lparr>meta_Email := x\<rparr>) (decode_string name v (meta_Email m))
      else if name = ''date'' then map_sum id (\<lambda>x. m\<lparr>meta_Date := x\<rparr>) (decode_time name v (meta_Date m))
      else map_sum id (\<lambda>x. m\<lparr>meta_Signature := x\<rparr>) (decode_string name v (meta_Signature m)))"

definition zeroMetadata :: CommitMetadata where
  "zeroMetadata = \<lparr>meta_Kind = '''', meta_Message = '''', meta_HLC = zeroHLC, meta_ContentHash = '''',
     meta_Author = '''', meta_Email = '''', meta_Date = 0, meta_Signature = ''''\<rparr>"

definition json_Unmarshal :: "string \<Rightarrow> CommitMetadata result" where
  "json_Unmarshal s =
     (case parse_json s of
        None \<Rightarrow> Inl (ErrText ''json: invalid syntax'')
      | Some v \<Rightarrow>
          (case v of
             JObj ms \<Rightarrow> decode_members metadata_member metadata_fields ms zeroMetadata
           | JNull \<Rightarrow> Inr zeroMetadata
           | _ \<Rightarrow> Inl (json_type_error ''CommitMetadata'')))"

section \<open>Operations on metadata\<close>

definition NewCommitMetadata ::
  "string \<Rightarrow> HLCTimestamp \<Rightarrow> string \<Rightarrow> string \<Rightarrow> string \<Rightarrow> Time \<Rightarrow> CommitMetadata" where
  "NewCommitMetadata msg hlc contentHash author email date =
     \<lparr>meta_Kind = CommitKindUser, meta_Message = msg, meta_HLC = hlc,
      meta_ContentHash = contentHash, meta_Author = author, meta_Email = email,
      meta_Date = date, meta_Signature = ''''\<rparr>"

definition SignableData :: "CommitMetadata \<Rightarrow> string result" where
  "SignableData m =
     (let forSigning = \<lparr>sig_Kind = meta_Kind m, sig_Message = meta_Message m,
            sig_HLC = meta_HLC m, sig_ContentHash = meta_ContentHash m,
            sig_Author = meta_Author m, sig_Email = meta_Email m, sig_Date = meta_Date m\<rparr>
      in json_Marshal_signing forSigning)"

text \<open>\<open>Sign\<close> mutates its receiver: the model returns the updated metadata.\<close>

definition Sign :: "CommitMetadata \<Rightarrow> Signer \<Rightarrow> CommitMetadata result" where
  "Sign m signer =
     (case SignableData m of
        Inl err \<Rightarrow> Inl (ErrWrap ''failed to get signable data'' err)
      | Inr data \<Rightarrow>
          (case sgn_Sign signer data of
             Inl err \<Rightarrow> Inl (ErrWrap ''failed to sign'' err)
           | Inr signature \<Rightarrow> Inr (m\<lparr>meta_Signature := signature\<rparr>)))"

definition Verify :: "CommitMetadata \<Rightarrow> Signer \<Rightarrow> string \<Rightarrow> unit result" where
  "Verify m signer publicKey =
     (case SignableData m of
        Inl err \<Rightarrow> Inl (ErrWrap ''failed to get signable data'' err)
      | Inr data \<Rightarrow> sgn_Verify signer data (meta_Signature m) publicKey)"

definition Marshal :: "CommitMetadata \<Rightarrow> string result" where
  "Marshal m = (case json_Marshal m of Inl err \<Rightarrow> Inl err | Inr data \<Rightarrow> Inr data)"

definition ParseCommitMetadata :: "string \<Rightarrow> CommitMetadata result" where
  "ParseCommitMetadata commitMessage =
     (case json_Unmarshal commitMessage of
        Inl err \<Rightarrow> Inl err
      | Inr m \<Rightarrow>
          if meta_Kind m \<noteq> CommitKindUser
          then Inl (ErrText (''invalid metadata: unknown kind '' @ strconv_Quote (meta_Kind m)))
          else Inr m)"

definition IsMetadataCommit :: "string \<Rightarrow> bool" where
  "IsMetadataCommit commitMessage =
     (case ParseCommitMetadata commitMessage of Inl err \<Rightarrow> False | Inr m \<Rightarrow> True)"

section \<open>Advertised commits\<close>

record CommitAd =
  cad_PeerID :: string
  cad_HLC :: HLCTimestamp
  cad_ContentHash :: string
  cad_CommitHash :: string
  cad_Message :: string
  cad_Author :: string
  cad_Email :: string
  cad_Date :: Time
  cad_Signature :: string

definition CommitAd_Key :: "CommitAd \<Rightarrow> string" where
  "CommitAd_Key ad = HLC_String (cad_HLC ad)"

definition CommitAd_ToMetadata :: "CommitAd \<Rightarrow> CommitMetadata" where
  "CommitAd_ToMetadata ad =
     \<lparr>meta_Kind = CommitKindUser, meta_Message = cad_Message ad, meta_HLC = cad_HLC ad,
      meta_ContentHash = cad_ContentHash ad, meta_Author = cad_Author ad,
      meta_Email = cad_Email ad, meta_Date = cad_Date ad, meta_Signature = cad_Signature ad\<rparr>"

section \<open>Facts\<close>

lemma RepoID_Equal_eq [simp]: "RepoID_Equal a b \<longleftrightarrow> a = b"
  by (auto simp: RepoID_Equal_def)

lemma ParseCommitMetadata_kind:
  "ParseCommitMetadata s = Inr m \<Longrightarrow> meta_Kind m = CommitKindUser"
  by (auto simp: ParseCommitMetadata_def split: sum.splits if_splits)

lemma SignableData_signature [simp]: "SignableData (m\<lparr>meta_Signature := s\<rparr>) = SignableData m"
  by (simp add: SignableData_def)

section \<open>Round trip\<close>

text \<open>Metadata whose texts are UTF-8.\<close>

definition metadata_utf8 :: "CommitMetadata \<Rightarrow> bool" where
  "metadata_utf8 m \<longleftrightarrow> utf8_valid (meta_Kind m) \<and> utf8_valid (meta_Message m) \<and>
     utf8_valid (PeerID (meta_HLC m)) \<and> utf8_valid (meta_ContentHash m) \<and> utf8_valid (meta_Author m) \<and>
     utf8_valid (meta_Email m) \<and> utf8_valid (meta_Signature m)"

lemma decode_members_append:
  "decode_members f names (xs @ ys) x =
     (case decode_members f names xs x of Inl err \<Rightarrow> Inl err | Inr y \<Rightarrow> decode_members f names ys y)"
  by (induction f names xs x rule: decode_members.induct) (auto split: option.splits sum.splits)

lemma find_field_exact [simp]: "name \<in> set names \<Longrightarrow> find_field names name = Some name"
  by (simp add: find_field_def)

lemma json_unquote_plain: "list_all (\<lambda>c. c \<noteq> BS \<and> byte c < 0x80) s \<Longrightarrow> json_unquote s = s"
  by (induction s) (simp_all add: json_unquote.simps(2))

lemma field_names_plain:
  "n \<in> set (metadata_fields @ [''w'', ''l'', ''p'']) \<Longrightarrow> json_unquote n = n \<and> string_text n"
  by (auto simp: metadata_fields_def intro!: json_unquote_plain plain_text) (simp_all add: plain_char_def)

text \<open>What decoding returns for a text that was encoded: invalid bytes are replaced.\<close>

definition coerce_utf8 :: "string \<Rightarrow> string" where
  "coerce_utf8 s = json_unquote (json_escape s)"

definition coerce_metadata :: "CommitMetadata \<Rightarrow> CommitMetadata" where
  "coerce_metadata m =
     m\<lparr>meta_Kind := coerce_utf8 (meta_Kind m), meta_Message := coerce_utf8 (meta_Message m),
       meta_HLC := (meta_HLC m)\<lparr>PeerID := coerce_utf8 (PeerID (meta_HLC m))\<rparr>,
       meta_ContentHash := coerce_utf8 (meta_ContentHash m), meta_Author := coerce_utf8 (meta_Author m),
       meta_Email := coerce_utf8 (meta_Email m), meta_Signature := coerce_utf8 (meta_Signature m)\<rparr>"

lemma coerce_utf8_Nil [simp]: "coerce_utf8 [] = []"
  by (simp add: coerce_utf8_def)

lemma coerce_metadata_utf8: "metadata_utf8 m \<Longrightarrow> coerce_metadata m = m"
  by (simp add: metadata_utf8_def coerce_metadata_def coerce_utf8_def unquote_escape)

lemma decode_hlc_json:
  "decode_hlc field (hlc_json h) old = Inr (h\<lparr>PeerID := coerce_utf8 (PeerID h)\<rparr>)"
proof -
  have w: "parse_int 64 (show_int (sint (Wall h))) = Some (sint (Wall h))"
    by (rule parse_int_show_int) (use sint_range64 [of "Wall h"] in simp_all)
  have l: "parse_int 32 (show_int (sint (Logical h))) = Some (sint (Logical h))"
    by (rule parse_int_show_int) (use sint_range32 [of "Logical h"] in simp_all)
  show ?thesis
    using field_names_plain
    by (simp add: decode_hlc_def hlc_json_def hlc_member_def decode_int_def w l
        decode_string_def json_string_def coerce_utf8_def)
qed

lemma json_ok_metadata:
  assumes "encode_time (meta_Date m) = Inr date"
  shows "json_ok (metadata_json m date)" "json_depth (metadata_json m date) \<le> maxNestingDepth"
  using encode_time_ok [OF assms] field_names_plain
  by (auto simp: metadata_json_def omit_empty_def json_string_def hlc_json_def metadata_fields_def maxNestingDepth_def)

lemma Unmarshal_Marshal_coerce:
  assumes s: "json_Marshal m = Inr s"
  shows "json_Unmarshal s = Inr (coerce_metadata m)"
proof -
  obtain date where date: "encode_time (meta_Date m) = Inr date" and enc: "s = print_json (metadata_json m date)"
    using s by (auto simp: json_Marshal_def split: sum.splits)
  have parse: "parse_json s = Some (metadata_json m date)"
    unfolding enc by (rule parse_print_json) (rule json_ok_metadata [OF date])+
  have name: "json_unquote n = n" if "n \<in> set metadata_fields" for n
    using field_names_plain that by simp
  note fields = metadata_fields_def metadata_member_def decode_string_def json_string_def
  have "decode_members metadata_member metadata_fields
      ([(''kind'', json_string (meta_Kind m)), (''msg'', json_string (meta_Message m)),
        (''hlc'', hlc_json (meta_HLC m))] @ omit_empty ''content_hash'' (meta_ContentHash m) @
       omit_empty ''author'' (meta_Author m) @ omit_empty ''email'' (meta_Email m) @ [(''date'', date)] @
       omit_empty ''sig'' (meta_Signature m)) zeroMetadata = Inr (coerce_metadata m)"
    using name
    by (simp add: decode_members_append omit_empty_def fields decode_hlc_json coerce_metadata_def
        decode_time_encode [OF date] zeroMetadata_def flip: coerce_utf8_def)
  then show ?thesis by (simp add: json_Unmarshal_def parse metadata_json_def)
qed

lemma Unmarshal_Marshal:
  "metadata_utf8 m \<Longrightarrow> json_Marshal m = Inr s \<Longrightarrow> json_Unmarshal s = Inr m"
  using Unmarshal_Marshal_coerce coerce_metadata_utf8 by simp

lemma Marshal_Parse:
  assumes "metadata_utf8 m" "Marshal m = Inr s" "meta_Kind m = CommitKindUser"
  shows "ParseCommitMetadata s = Inr m"
  using assms Unmarshal_Marshal by (auto simp: Marshal_def ParseCommitMetadata_def split: sum.splits)

text \<open>A signer verifies its own signatures under its own public key.\<close>

definition signer_correct :: "Signer \<Rightarrow> bool" where
  "signer_correct signer \<longleftrightarrow>
     (\<forall>d s. sgn_Sign signer d = Inr s \<longrightarrow> sgn_Verify signer d s (sgn_PublicKey signer) = Inr ())"

lemma Sign_Verify:
  assumes "signer_correct signer" "Sign m signer = Inr m'"
  shows "Verify m' signer (sgn_PublicKey signer) = Inr ()"
  using assms by (auto simp: Sign_def Verify_def signer_correct_def split: sum.splits)

lemma Sign_fields:
  "Sign m signer = Inr m' \<Longrightarrow> m' = m\<lparr>meta_Signature := meta_Signature m'\<rparr>"
  by (auto simp: Sign_def split: sum.splits)

text \<open>The text that is signed is the encoding of the metadata without its signature.\<close>

lemma SignableData_Marshal: "SignableData m = json_Marshal (m\<lparr>meta_Signature := ''''\<rparr>)"
  by (simp add: SignableData_def json_Marshal_signing_def json_Marshal_def metadata_json_def Let_def omit_empty_def
      split: sum.splits)

lemma metadata_utf8_signature:
  "metadata_utf8 m \<Longrightarrow> utf8_valid s \<Longrightarrow> metadata_utf8 (m\<lparr>meta_Signature := s\<rparr>)"
  by (simp add: metadata_utf8_def)

lemma Marshal_total:
  "0 \<le> time_year (meta_Date m) \<Longrightarrow> time_year (meta_Date m) \<le> 9999 \<Longrightarrow> \<exists>s. Marshal m = Inr s"
  by (simp add: Marshal_def json_Marshal_def encode_time_def)

lemma SignableData_date:
  "SignableData m = Inr d \<Longrightarrow> 0 \<le> time_year (meta_Date m) \<and> time_year (meta_Date m) \<le> 9999"
  by (auto simp: SignableData_Marshal json_Marshal_def encode_time_def split: if_splits)

section \<open>Properties\<close>

text \<open>
  C21: metadata written into a commit message is read back unchanged. For metadata of a user
  commit whose texts are UTF-8 and whose date has a four-digit year, \<open>Marshal\<close> succeeds and
  \<open>ParseCommitMetadata\<close> returns the same metadata.
\<close>

theorem metadata_roundtrip:
  assumes "metadata_utf8 m" "meta_Kind m = CommitKindUser"
    and "0 \<le> time_year (meta_Date m)" "time_year (meta_Date m) \<le> 9999"
  shows "\<exists>s. Marshal m = Inr s \<and> ParseCommitMetadata s = Inr m \<and> IsMetadataCommit s"
  using Marshal_total [OF assms(3,4)] Marshal_Parse [OF assms(1) _ assms(2)]
  by (auto simp: IsMetadataCommit_def)

definition sample_metadata :: CommitMetadata where
  "sample_metadata = NewCommitMetadata ''add row'' \<lparr>Wall = 7, Logical = 1, PeerID = ''p''\<rparr> '''' ''p'' ''p@doltswarm'' 0"

lemma sample_metadata_ok:
  "metadata_utf8 sample_metadata" "meta_Kind sample_metadata = CommitKindUser"
  "0 \<le> time_year (meta_Date sample_metadata)" "time_year (meta_Date sample_metadata) \<le> 9999"
  by code_simp+

theorem metadata_roundtrip_witness:
  "\<exists>s. Marshal sample_metadata = Inr s \<and> ParseCommitMetadata s = Inr sample_metadata \<and> IsMetadataCommit s"
  by (rule metadata_roundtrip) (rule sample_metadata_ok)+

definition sample_message :: string where
  "sample_message = (case Marshal sample_metadata of Inl _ \<Rightarrow> '''' | Inr s \<Rightarrow> s)"

lemma Parse_sample_message: "ParseCommitMetadata sample_message = Inr sample_metadata"
  using Marshal_total [OF sample_metadata_ok(3,4)] Marshal_Parse [OF sample_metadata_ok(1) _ sample_metadata_ok(2)]
  by (auto simp: sample_message_def)


definition sample_signer :: Signer where
  "sample_signer = \<lparr>sgn_Sign = \<lambda>d. Inr ''sig'', sgn_Verify = \<lambda>d s k. if s = ''sig'' then Inr () else Inl (ErrText ''bad''),
     sgn_PublicKey = ''key'', sgn_GetID = ''p''\<rparr>"


text \<open>
  C32: a signature covers every field. If two pieces of metadata with UTF-8 texts have the
  same signable data, they agree in everything but the signature.
\<close>

theorem SignableData_injective:
  assumes "metadata_utf8 m1" "metadata_utf8 m2" "SignableData m1 = Inr d" "SignableData m2 = Inr d"
  shows "m1\<lparr>meta_Signature := s\<rparr> = m2\<lparr>meta_Signature := s\<rparr>"
proof -
  have "json_Unmarshal d = Inr (m1\<lparr>meta_Signature := ''''\<rparr>)" "json_Unmarshal d = Inr (m2\<lparr>meta_Signature := ''''\<rparr>)"
    using assms by (auto simp: SignableData_Marshal metadata_utf8_signature intro!: Unmarshal_Marshal)
  then have "m1\<lparr>meta_Signature := ''''\<rparr> = m2\<lparr>meta_Signature := ''''\<rparr>" by simp
  then show ?thesis by (cases m1; cases m2) simp
qed

theorem SignableData_injective_witness:
  "\<exists>d. SignableData sample_metadata = Inr d \<and>
     sample_metadata\<lparr>meta_Signature := ''a''\<rparr> = sample_metadata\<lparr>meta_Signature := ''b'', meta_Signature := ''a''\<rparr>"
proof -
  have "\<exists>d. SignableData sample_metadata = Inr d"
    using Marshal_total [of "sample_metadata\<lparr>meta_Signature := ''''\<rparr>"] sample_metadata_ok(3,4)
    by (auto simp: SignableData_Marshal Marshal_def split: sum.splits)
  then obtain d where d: "SignableData sample_metadata = Inr d" by blast
  have "metadata_utf8 (sample_metadata\<lparr>meta_Signature := ''b''\<rparr>)"
    by (rule metadata_utf8_signature [OF sample_metadata_ok(1)]) code_simp
  from SignableData_injective [OF sample_metadata_ok(1) this d] d show ?thesis by simp
qed

text \<open>
  Metadata with a text that is not UTF-8 does not keep its signature. For the message
  consisting of the byte FF, what a reader decodes from the commit message has other
  signable data than what was signed: the encoder writes an escape for the invalid byte, the
  decoder turns it into the replacement character, and that is not escaped when it is
  encoded again.
\<close>

theorem invalid_utf8_changes_signable_data:
  "let m = sample_metadata\<lparr>meta_Message := [CHR 0xFF]\<rparr> in
   \<exists>s m'. Marshal m = Inr s \<and> ParseCommitMetadata s = Inr m' \<and> SignableData m' \<noteq> SignableData m"
proof -
  let ?m = "sample_metadata\<lparr>meta_Message := [CHR 0xFF]\<rparr>"
let ?m' = "?m\<lparr>meta_Message := replacement_char\<rparr>"
  have r: "replacement_char = [CHR 0xEF, CHR 0xBF, CHR 0xBD]"
    by (simp add: replacement_char_def utf8_encode_def char_of_eq_iff)
  have esc: "json_escape [CHR 0xFF] = BS # ''ufffd''"
    by (simp add: json_escape.simps(2) utf8_len_def)
  have sep: "utf8_encode 0x2028 = [CHR 0xE2, CHR 0x80, CHR 0xA8]" "utf8_encode 0x2029 = [CHR 0xE2, CHR 0x80, CHR 0xA9]"
    by (simp_all add: utf8_encode_def char_of_eq_iff)
  have esc': "json_escape replacement_char = replacement_char"
    by (simp add: r json_escape.simps(2) utf8_len_def second_byte_def cont_byte_def escape_multi_def sep)
  have co: "coerce_utf8 [CHR 0xFF] = replacement_char"
    by (simp add: coerce_utf8_def esc json_unquote.simps(2) getu4_def hex_value_def is_surrogate_def replacement_char_def)
  obtain s where s: "Marshal ?m = Inr s" using Marshal_total [of ?m] sample_metadata_ok(3,4) by auto
  have utf8: "coerce_utf8 x = x" if "utf8_valid x" for x using that by (simp add: coerce_utf8_def unquote_escape)
  have "coerce_metadata ?m = ?m'"
    using sample_metadata_ok(1) by (simp add: coerce_metadata_def metadata_utf8_def utf8 co)
  then have "ParseCommitMetadata s = Inr ?m'"
    using s Unmarshal_Marshal_coerce [of ?m s] sample_metadata_ok(2)
    by (auto simp: Marshal_def ParseCommitMetadata_def split: sum.splits)
  moreover have "SignableData ?m' \<noteq> SignableData ?m"
    using sample_metadata_ok(3,4)
    by (simp add: SignableData_Marshal json_Marshal_def metadata_json_def encode_time_def
        json_string_def quoted_def esc esc') (simp add: r)
  ultimately show ?thesis using s by (auto simp: Let_def)
qed

end
