(* ===== verification/Commit_Index.thy ===== *)
theory Commit_Index
  imports Metadata
begin

text \<open>
  The commit index of a node: the interface \<open>CommitIndex\<close> of \<open>core/index.go\<close>, its in-memory
  implementation \<open>core/index_mem.go\<close>, and the finalization helpers of \<open>core/finalization.go\<close>.

  The interface is the locale \<open>commit_index\<close>: what a lookup returns after an insert, what
  \<open>ListAfter\<close> lists, and that the finalized base only moves forward. The client lemmas
  (a sequence of inserts, determinacy of listings) are proved once in the locale, and
  \<open>MemoryCommitIndex\<close> is its interpretation \<open>mem\<close>. Every method takes the index's mutex, so
  each is one atomic step.
\<close>

section \<open>Data\<close>

datatype CommitStatus =
  CommitStatusUnknown | CommitStatusPending | CommitStatusApplied | CommitStatusRejected

record CommitIndexEntry =
  entry_HLC :: HLCTimestamp
  entry_CommitHash :: string
  entry_Status :: CommitStatus
  entry_NextRetryAt :: Time
  entry_UpdatedAt :: Time

text \<open>A composite literal that sets the timestamp, hash, status and update time.\<close>

definition mkEntry :: "HLCTimestamp \<Rightarrow> string \<Rightarrow> CommitStatus \<Rightarrow> Time \<Rightarrow> CommitIndexEntry" where
  "mkEntry h hash st t =
     \<lparr>entry_HLC = h, entry_CommitHash = hash, entry_Status = st, entry_NextRetryAt = 0,
      entry_UpdatedAt = t\<rparr>"

lemma mkEntry_sel [simp]:
  "entry_HLC (mkEntry h hash st t) = h" "entry_CommitHash (mkEntry h hash st t) = hash"
  "entry_Status (mkEntry h hash st t) = st" "entry_UpdatedAt (mkEntry h hash st t) = t"
  by (simp_all add: mkEntry_def)

record FinalizedBase =
  fb_HLC :: HLCTimestamp
  fb_CommitHash :: string
  fb_UpdatedAt :: Time

definition FinalizedBase_IsZero :: "FinalizedBase \<Rightarrow> bool" where
  "FinalizedBase_IsZero f \<longleftrightarrow> HLC_IsZero (fb_HLC f) \<and> fb_CommitHash f = ''''"

definition IsFinalized :: "HLCTimestamp \<Rightarrow> HLCTimestamp \<Rightarrow> bool" where
  "IsFinalized hlc stableHLC =
     (if HLC_IsZero stableHLC then False else Less hlc stableHLC \<or> Equal hlc stableHLC)"

definition IsAfterFinalizedBase :: "HLCTimestamp \<Rightarrow> FinalizedBase option \<Rightarrow> bool" where
  "IsAfterFinalizedBase hlc base =
     (case base of
        None \<Rightarrow> True
      | Some b \<Rightarrow> if HLC_IsZero (fb_HLC b) then True else Less (fb_HLC b) hlc)"

section \<open>The in-memory index\<close>

record MemoryCommitIndex =
  entries :: "(string \<times> CommitIndexEntry) list"
  finalizedBase :: "FinalizedBase option"

definition NewMemoryCommitIndex :: MemoryCommitIndex where
  "NewMemoryCommitIndex = \<lparr>entries = [], finalizedBase = None\<rparr>"

definition resetForRebuild :: "MemoryCommitIndex \<Rightarrow> MemoryCommitIndex" where
  "resetForRebuild m = m\<lparr>entries := []\<rparr>"

definition Upsert :: "MemoryCommitIndex \<Rightarrow> CommitIndexEntry \<Rightarrow> Time \<Rightarrow> MemoryCommitIndex" where
  "Upsert m e now =
     (let e' = (if Time_IsZero (entry_UpdatedAt e) then e\<lparr>entry_UpdatedAt := now\<rparr> else e)
      in m\<lparr>entries := AList.update (HLC_String (entry_HLC e')) e' (entries m)\<rparr>)"

definition Get :: "MemoryCommitIndex \<Rightarrow> HLCTimestamp \<Rightarrow> CommitIndexEntry option" where
  "Get m hlc = map_of (entries m) (HLC_String hlc)"

definition entry_less :: "CommitIndexEntry \<Rightarrow> CommitIndexEntry \<Rightarrow> bool" where
  "entry_less a b = Less (entry_HLC a) (entry_HLC b)"

text \<open>\<open>it\<close> is the order in which \<open>range m.entries\<close> visits the map.\<close>

definition ListAfter ::
  "((string \<times> CommitIndexEntry) list \<Rightarrow> (string \<times> CommitIndexEntry) list) \<Rightarrow>
   MemoryCommitIndex \<Rightarrow> HLCTimestamp \<Rightarrow> int \<Rightarrow> CommitIndexEntry list" where
  "ListAfter it m after limit =
     (let out = filter (\<lambda>e. Less after (entry_HLC e)) (map snd (it (entries m)));
          out = sort_slice entry_less out
      in if limit > 0 \<and> int (length out) > limit then take (nat limit) out else out)"

definition SetFinalizedBase :: "MemoryCommitIndex \<Rightarrow> FinalizedBase \<Rightarrow> Time \<Rightarrow> MemoryCommitIndex" where
  "SetFinalizedBase m fb now =
     (case finalizedBase m of
        Some cur \<Rightarrow>
          if Less (fb_HLC fb) (fb_HLC cur) \<or> Equal (fb_HLC fb) (fb_HLC cur) then m
          else m\<lparr>finalizedBase :=
                 Some (if Time_IsZero (fb_UpdatedAt fb) then fb\<lparr>fb_UpdatedAt := now\<rparr> else fb)\<rparr>
      | None \<Rightarrow>
          m\<lparr>finalizedBase :=
            Some (if Time_IsZero (fb_UpdatedAt fb) then fb\<lparr>fb_UpdatedAt := now\<rparr> else fb)\<rparr>)"

section \<open>The interface\<close>

definition stamped :: "CommitIndexEntry \<Rightarrow> Time \<Rightarrow> CommitIndexEntry" where
  "stamped e now = (if Time_IsZero (entry_UpdatedAt e) then e\<lparr>entry_UpdatedAt := now\<rparr> else e)"

lemma stamped_sel [simp]:
  "entry_HLC (stamped e t) = entry_HLC e" "entry_CommitHash (stamped e t) = entry_CommitHash e"
  "entry_Status (stamped e t) = entry_Status e"
  by (simp_all add: stamped_def)

definition fb_stamped :: "FinalizedBase \<Rightarrow> Time \<Rightarrow> FinalizedBase" where
  "fb_stamped fb now = (if Time_IsZero (fb_UpdatedAt fb) then fb\<lparr>fb_UpdatedAt := now\<rparr> else fb)"

lemma fb_stamped_sel [simp]:
  "fb_HLC (fb_stamped fb t) = fb_HLC fb" "fb_CommitHash (fb_stamped fb t) = fb_CommitHash fb"
  by (simp_all add: fb_stamped_def)

locale commit_index =
  fixes upsert :: "'i \<Rightarrow> CommitIndexEntry \<Rightarrow> Time \<Rightarrow> 'i"
    and lookup :: "'i \<Rightarrow> HLCTimestamp \<Rightarrow> CommitIndexEntry option"
    and list_after :: "'i \<Rightarrow> HLCTimestamp \<Rightarrow> int \<Rightarrow> CommitIndexEntry list"
    and base :: "'i \<Rightarrow> FinalizedBase option"
    and set_base :: "'i \<Rightarrow> FinalizedBase \<Rightarrow> Time \<Rightarrow> 'i"
    and wf :: "'i \<Rightarrow> bool"
  assumes wf_upsert: "wf i \<Longrightarrow> wf (upsert i e t)"
    and wf_set_base: "wf i \<Longrightarrow> wf (set_base i fb t)"
    and lookup_hlc: "wf i \<Longrightarrow> lookup i h = Some e \<Longrightarrow> entry_HLC e = h"
    and lookup_upsert:
      "wf i \<Longrightarrow> lookup (upsert i e t) h = (if h = entry_HLC e then Some (stamped e t) else lookup i h)"
    and lookup_set_base: "lookup (set_base i fb t) = lookup i"
    and base_upsert: "base (upsert i e t) = base i"
    and base_set_base:
      "base (set_base i fb t) =
         (case base i of
            None \<Rightarrow> Some (fb_stamped fb t)
          | Some cur \<Rightarrow> if Less (fb_HLC cur) (fb_HLC fb) then Some (fb_stamped fb t) else Some cur)"
    and list_after_set:
      "wf i \<Longrightarrow> set (list_after i a 0) = {e. lookup i (entry_HLC e) = Some e \<and> Less a (entry_HLC e)}"
    and list_after_sorted: "wf i \<Longrightarrow> sorted_wrt entry_less (list_after i a 0)"
    and list_after_limit:
      "wf i \<Longrightarrow> list_after i a n = (if n > 0 then take (nat n) (list_after i a 0) else list_after i a 0)"
begin

text \<open>Listings are a function of the contents: they do not depend on how the index was built.\<close>

lemma list_after_cong:
  assumes "wf i" "wf j" "lookup i = lookup j"
  shows "list_after i a n = list_after j a n"
proof -
  have "sorted_wrt entry_less xs \<Longrightarrow> sorted_wrt entry_less ys \<Longrightarrow> set xs = set ys \<Longrightarrow> xs = ys"
    for xs ys
  proof (induction xs arbitrary: ys)
    case Nil
    then show ?case by simp
  next
    case (Cons x xs)
    from Cons.prems(3) obtain y ys' where ys: "ys = y # ys'" by (cases ys) auto
    have irr: "\<not> (entry_less u v \<and> entry_less v u)" for u v
      by (auto simp: entry_less_def Less_less)
    have "x = y" using Cons.prems ys irr by (metis insert_iff list.simps(15) sorted_wrt.simps(2))
    moreover have "set xs = set ys'"
      using Cons.prems ys \<open>x = y\<close> irr by (metis insert_ident list.simps(15) sorted_wrt.simps(2))
    ultimately show ?case using Cons ys by simp
  qed
  then have "list_after i a 0 = list_after j a 0"
    using assms list_after_set list_after_sorted by auto
  then show ?thesis using assms list_after_limit by metis
qed

lemma list_after_mem:
  "wf i \<Longrightarrow> e \<in> set (list_after i a 0) \<longleftrightarrow> lookup i (entry_HLC e) = Some e \<and> Less a (entry_HLC e)"
  using list_after_set by auto

text \<open>The base never moves back, and afterwards it is at or after the proposed one.\<close>

lemma base_monotone:
  "base i = Some b \<Longrightarrow> \<exists>b'. base (set_base i fb t) = Some b' \<and> fb_HLC b \<le> fb_HLC b' \<and> fb_HLC fb \<le> fb_HLC b'"
  by (auto simp: base_set_base Less_less)

text \<open>A sequence of inserts.\<close>

lemma wf_upserts: "wf i \<Longrightarrow> wf (foldl (\<lambda>i e. upsert i e t) i es)"
  by (induction es arbitrary: i) (auto intro: wf_upsert)

lemma base_upserts: "base (foldl (\<lambda>i e. upsert i e t) i es) = base i"
  by (induction es arbitrary: i) (auto simp: base_upsert)

lemma lookup_upserts_other:
  "wf i \<Longrightarrow> h \<notin> entry_HLC ` set es \<Longrightarrow> lookup (foldl (\<lambda>i e. upsert i e t) i es) h = lookup i h"
  by (induction es arbitrary: i) (auto simp: lookup_upsert wf_upsert)

lemma lookup_upserts_mem:
  "wf i \<Longrightarrow> h \<in> entry_HLC ` set es \<Longrightarrow>
   \<exists>e \<in> set es. entry_HLC e = h \<and> lookup (foldl (\<lambda>i e. upsert i e t) i es) h = Some (stamped e t)"
proof (induction es arbitrary: i)
  case Nil
  then show ?case by simp
next
  case (Cons e es)
  show ?case
  proof (cases "h \<in> entry_HLC ` set es")
    case True
    with Cons.IH [of "upsert i e t"] Cons.prems show ?thesis by (auto simp: wf_upsert)
  next
    case False
    with Cons.prems have "lookup (foldl (\<lambda>i e. upsert i e t) (upsert i e t) es) h = Some (stamped e t)"
      by (auto simp: lookup_upserts_other wf_upsert lookup_upsert)
    with Cons.prems False show ?thesis by auto
  qed
qed

end

section \<open>The in-memory index implements the interface\<close>

definition idx_wf :: "MemoryCommitIndex \<Rightarrow> bool" where
  "idx_wf m \<longleftrightarrow> map_wf (entries m) \<and> (\<forall>(k, e)\<in>set (entries m). k = HLC_String (entry_HLC e))"

lemma idx_wf_New [simp]: "idx_wf NewMemoryCommitIndex"
  by (simp add: idx_wf_def NewMemoryCommitIndex_def)

lemma idx_wf_reset [simp]: "idx_wf (resetForRebuild m)"
  by (simp add: idx_wf_def resetForRebuild_def)

lemma Get_New [simp]: "Get NewMemoryCommitIndex h = None"
  by (simp add: Get_def NewMemoryCommitIndex_def)

lemma Get_reset [simp]: "Get (resetForRebuild m) h = None"
  by (simp add: Get_def resetForRebuild_def)

lemma finalizedBase_reset [simp]: "finalizedBase (resetForRebuild m) = finalizedBase m"
  by (simp add: resetForRebuild_def)

lemma Upsert_stamped:
  "Upsert m e t = m\<lparr>entries := AList.update (HLC_String (entry_HLC e)) (stamped e t) (entries m)\<rparr>"
  by (auto simp: Upsert_def Let_def stamped_def)

lemma set_alist_update: "set (AList.update k v al) \<subseteq> insert (k, v) (set al)"
  by (induction al) auto

lemma idx_wf_Upsert: "idx_wf m \<Longrightarrow> idx_wf (Upsert m e t)"
  using set_alist_update [of "HLC_String (entry_HLC e)" "stamped e t" "entries m"]
  by (fastforce simp: idx_wf_def Upsert_stamped)

lemma idx_wf_SetFinalizedBase: "idx_wf m \<Longrightarrow> idx_wf (SetFinalizedBase m fb t)"
  by (auto simp: idx_wf_def SetFinalizedBase_def split: option.splits)

lemma Get_iff:
  assumes "idx_wf m"
  shows "Get m h = Some e \<longleftrightarrow> (HLC_String h, e) \<in> set (entries m)"
  using assms by (simp add: Get_def idx_wf_def map_wf_lookup)

lemma Get_entry_HLC: "idx_wf m \<Longrightarrow> Get m h = Some e \<Longrightarrow> entry_HLC e = h"
  by (auto simp: Get_iff idx_wf_def)

lemma Get_of_entries: "idx_wf m \<Longrightarrow> e \<in> snd ` set (entries m) \<longleftrightarrow> Get m (entry_HLC e) = Some e"
  by (force simp: Get_iff idx_wf_def)

interpretation entry: slice_order entry_less
  by unfold_locales (auto simp: entry_less_def Less_less)

lemma entry_values_distinct:
  assumes "idx_wf m"
  shows "distinct (map entry_HLC (map snd (entries m)))"
proof -
  have "map fst (entries m) = map HLC_String (map entry_HLC (map snd (entries m)))"
    using assms by (auto simp: idx_wf_def)
  then have "distinct (map HLC_String (map entry_HLC (map snd (entries m))))"
    using assms by (metis idx_wf_def map_wf_def)
  then show ?thesis by (simp only: distinct_map [of HLC_String])
qed

lemma entry_comparable:
  assumes "idx_wf m"
  shows "comparable entry_less (snd ` set (entries m))"
proof -
  have "entry_HLC x \<noteq> entry_HLC y"
    if "x \<in> snd ` set (entries m)" "y \<in> snd ` set (entries m)" "x \<noteq> y" for x y
    using that assms by (metis Get_of_entries option.inject)
  then show ?thesis unfolding comparable_def entry_less_def Less_less by (metis less_linear)
qed

text \<open>The iteration order of the map does not show in a listing.\<close>

lemma ListAfter_it:
  assumes "range_ok it" "idx_wf m"
  shows "ListAfter it m a n = ListAfter (\<lambda>xs. xs) m a n"
proof -
  let ?f = "\<lambda>xs. filter (\<lambda>e. Less a (entry_HLC e)) (map snd xs)"
  have "mset (?f (it (entries m))) = mset (?f (entries m))"
    using range_okD [OF assms(1), of "entries m"] by simp
  moreover have "comparable entry_less (set (?f (it (entries m))))"
    using comparable_subset [OF entry_comparable [OF assms(2)]] range_ok_set [OF assms(1)] by auto
  ultimately have "sort_slice entry_less (?f (it (entries m))) = sort_slice entry_less (?f (entries m))"
    by (rule entry.sort_slice_cong_mset)
  then show ?thesis unfolding ListAfter_def Let_def by (simp only:)
qed

lemma ListAfter_set:
  assumes "idx_wf m"
  shows "set (ListAfter (\<lambda>xs. xs) m a 0) = {e. Get m (entry_HLC e) = Some e \<and> Less a (entry_HLC e)}"
proof -
  have "set (ListAfter (\<lambda>xs. xs) m a 0) = {e \<in> snd ` set (entries m). Less a (entry_HLC e)}"
    by (simp add: ListAfter_def)
  then show ?thesis using Get_of_entries [OF assms] by auto
qed

lemma ListAfter_sorted:
  assumes "idx_wf m"
  shows "sorted_wrt entry_less (ListAfter (\<lambda>xs. xs) m a 0)"
proof -
  let ?out = "filter (\<lambda>e. Less a (entry_HLC e)) (map snd (entries m))"
  have "distinct (map snd (entries m))"
    using entry_values_distinct [OF assms] by (simp only: distinct_map [of entry_HLC])
  moreover have "comparable entry_less (set ?out)"
    by (rule comparable_subset [OF entry_comparable [OF assms]]) auto
  ultimately have "sorted_wrt entry_less (sort_slice entry_less ?out)"
    by (intro entry.sort_slice_strict) auto
  then show ?thesis by (simp add: ListAfter_def)
qed

interpretation mem: commit_index Upsert Get "ListAfter (\<lambda>xs. xs)" finalizedBase SetFinalizedBase idx_wf
proof
  fix m :: MemoryCommitIndex and e t h a n fb
  show "idx_wf m \<Longrightarrow> idx_wf (Upsert m e t)" by (rule idx_wf_Upsert)
  show "idx_wf m \<Longrightarrow> idx_wf (SetFinalizedBase m fb t)" by (rule idx_wf_SetFinalizedBase)
  show "idx_wf m \<Longrightarrow> Get m h = Some e \<Longrightarrow> entry_HLC e = h" by (rule Get_entry_HLC)
  show "idx_wf m \<Longrightarrow> Get (Upsert m e t) h = (if h = entry_HLC e then Some (stamped e t) else Get m h)"
    by (auto simp: Get_def Upsert_stamped)
  show "Get (SetFinalizedBase m fb t) = Get m"
    by (auto simp: Get_def SetFinalizedBase_def fun_eq_iff split: option.splits)
  show "finalizedBase (Upsert m e t) = finalizedBase m" by (simp add: Upsert_stamped)
  show "finalizedBase (SetFinalizedBase m fb t) =
      (case finalizedBase m of
         None \<Rightarrow> Some (fb_stamped fb t)
       | Some cur \<Rightarrow> if Less (fb_HLC cur) (fb_HLC fb) then Some (fb_stamped fb t) else Some cur)"
    by (auto simp: SetFinalizedBase_def fb_stamped_def Less_less split: option.splits)
  show "idx_wf m \<Longrightarrow> set (ListAfter (\<lambda>xs. xs) m a 0) =
      {e. Get m (entry_HLC e) = Some e \<and> Less a (entry_HLC e)}" by (rule ListAfter_set)
  show "idx_wf m \<Longrightarrow> sorted_wrt entry_less (ListAfter (\<lambda>xs. xs) m a 0)" by (rule ListAfter_sorted)
  show "idx_wf m \<Longrightarrow> ListAfter (\<lambda>xs. xs) m a n =
      (if n > 0 then take (nat n) (ListAfter (\<lambda>xs. xs) m a 0) else ListAfter (\<lambda>xs. xs) m a 0)"
    by (simp add: ListAfter_def Let_def)
qed

declare mem.wf_upsert [simp] mem.wf_set_base [simp] mem.lookup_upsert [simp]
  mem.lookup_set_base [simp] mem.base_upsert [simp]

section \<open>Specification and properties\<close>

text \<open>
  The abstract index is a map from timestamps to entries together with a base. A run of the
  index is a list of method calls, starting from \<open>NewMemoryCommitIndex\<close>.
\<close>

datatype index_op = OpUpsert CommitIndexEntry Time | OpSetFinalizedBase FinalizedBase Time | OpReset

fun index_step :: "MemoryCommitIndex \<Rightarrow> index_op \<Rightarrow> MemoryCommitIndex" where
  "index_step m (OpUpsert e t) = Upsert m e t"
| "index_step m (OpSetFinalizedBase fb t) = SetFinalizedBase m fb t"
| "index_step m OpReset = resetForRebuild m"

definition index_run :: "index_op list \<Rightarrow> MemoryCommitIndex" where
  "index_run ops = foldl index_step NewMemoryCommitIndex ops"

type_synonym abs_index = "(HLCTimestamp \<rightharpoonup> CommitIndexEntry) \<times> FinalizedBase option"

fun spec_step :: "abs_index \<Rightarrow> index_op \<Rightarrow> abs_index" where
  "spec_step (f, b) (OpUpsert e t) = (f(entry_HLC e \<mapsto> stamped e t), b)"
| "spec_step (f, b) (OpSetFinalizedBase fb t) =
     (f, case b of
           None \<Rightarrow> Some (fb_stamped fb t)
         | Some cur \<Rightarrow> if Less (fb_HLC cur) (fb_HLC fb) then Some (fb_stamped fb t) else Some cur)"
| "spec_step (f, b) OpReset = (Map.empty, b)"

definition spec_run :: "index_op list \<Rightarrow> abs_index" where
  "spec_run ops = foldl spec_step (Map.empty, None) ops"

definition idx_abs :: "MemoryCommitIndex \<Rightarrow> abs_index" where
  "idx_abs m = (Get m, finalizedBase m)"

lemma idx_wf_step: "idx_wf m \<Longrightarrow> idx_wf (index_step m op)"
  by (cases op) auto

lemma idx_abs_step: "idx_wf m \<Longrightarrow> idx_abs (index_step m op) = spec_step (idx_abs m) op"
  by (cases op) (auto simp: idx_abs_def fun_eq_iff mem.base_set_base split: option.splits)

lemma index_run_refines: "idx_wf (index_run ops) \<and> idx_abs (index_run ops) = spec_run ops"
proof -
  have "idx_wf m \<Longrightarrow> idx_wf (foldl index_step m ops) \<and>
      idx_abs (foldl index_step m ops) = foldl spec_step (idx_abs m) ops" for m
    by (induction ops arbitrary: m) (auto simp: idx_wf_step idx_abs_step)
  moreover have "idx_abs NewMemoryCommitIndex = (Map.empty, None)"
    by (simp add: idx_abs_def fun_eq_iff) (simp add: NewMemoryCommitIndex_def)
  ultimately show ?thesis
    using idx_wf_New by (metis index_run_def spec_run_def)
qed

text \<open>
  C22: The in-memory index implements the abstract one: after any sequence of method calls a
  lookup by timestamp, although it goes through the string key, returns the entry last
  stored for that timestamp since the last rebuild, and the finalized base is the one that
  the monotone specification gives; in particular a rebuild keeps it.
\<close>

theorem MemoryCommitIndex_refines_map:
  "Get (index_run ops) = fst (spec_run ops) \<and> finalizedBase (index_run ops) = snd (spec_run ops)"
  using index_run_refines [of ops] by (metis fst_conv idx_abs_def snd_conv)

text \<open>
  C26: In every reachable index, \<open>ListAfter\<close> returns exactly the stored entries strictly after
  the given timestamp, each once, in strictly increasing timestamp order, cut to the limit
  when it is positive; the iteration order of the map cannot be observed.
\<close>

theorem ListAfter_exact:
  assumes "range_ok it"
  shows "let all = ListAfter it (index_run ops) after 0 in
     set all = {e. fst (spec_run ops) (entry_HLC e) = Some e \<and> Less after (entry_HLC e)} \<and>
     sorted_wrt (\<lambda>a b. Less (entry_HLC a) (entry_HLC b)) all \<and>
     ListAfter it (index_run ops) after limit = (if limit > 0 then take (nat limit) all else all)"
proof -
  have wf: "idx_wf (index_run ops)" and get: "Get (index_run ops) = fst (spec_run ops)"
    using index_run_refines [of ops] by (auto simp: idx_abs_def dest: arg_cong [of _ _ fst])
  show ?thesis
    using ListAfter_it [OF assms wf] mem.list_after_set [OF wf] mem.list_after_sorted [OF wf]
      mem.list_after_limit [OF wf, of after limit]
    by (simp add: Let_def get entry_less_def [abs_def])
qed

theorem ListAfter_exact_witness:
  "ListAfter rev (index_run
      [OpUpsert (mkEntry \<lparr>Wall = 5, Logical = 0, PeerID = ''a''\<rparr> ''h5'' CommitStatusApplied 1) 1,
       OpUpsert (mkEntry \<lparr>Wall = 3, Logical = 0, PeerID = ''a''\<rparr> ''h3'' CommitStatusApplied 1) 1])
      zeroHLC 0 =
     [mkEntry \<lparr>Wall = 3, Logical = 0, PeerID = ''a''\<rparr> ''h3'' CommitStatusApplied 1,
      mkEntry \<lparr>Wall = 5, Logical = 0, PeerID = ''a''\<rparr> ''h5'' CommitStatusApplied 1] \<and>
   sorted_wrt (\<lambda>a b. Less (entry_HLC a) (entry_HLC b)) (ListAfter rev (index_run
      [OpUpsert (mkEntry \<lparr>Wall = 5, Logical = 0, PeerID = ''a''\<rparr> ''h5'' CommitStatusApplied 1) 1,
       OpUpsert (mkEntry \<lparr>Wall = 3, Logical = 0, PeerID = ''a''\<rparr> ''h3'' CommitStatusApplied 1) 1])
      zeroHLC 0)"
  using ListAfter_exact [OF range_ok_rev, of
      "[OpUpsert (mkEntry \<lparr>Wall = 5, Logical = 0, PeerID = ''a''\<rparr> ''h5'' CommitStatusApplied 1) 1,
       OpUpsert (mkEntry \<lparr>Wall = 3, Logical = 0, PeerID = ''a''\<rparr> ''h3'' CommitStatusApplied 1) 1]"
      zeroHLC 0]
  by (simp add: Let_def index_run_def NewMemoryCommitIndex_def Upsert_def ListAfter_def
      entry_less_def Less_def zeroHLC_def Time_IsZero_def)

text \<open>
  C13: The finalized base never moves back: along any continuation of a run it stays at or
  after where it was, and proposing a base leaves it at or after the proposal.
\<close>

theorem finalized_base_monotone:
  assumes "finalizedBase (index_run ops) = Some b"
  shows "\<exists>b'. finalizedBase (index_run (ops @ ops')) = Some b' \<and> \<not> Less (fb_HLC b') (fb_HLC b) \<and>
    (\<forall>fb t. OpSetFinalizedBase fb t \<in> set ops' \<longrightarrow> \<not> Less (fb_HLC b') (fb_HLC fb))"
proof -
  have "finalizedBase m = Some b \<Longrightarrow>
      \<exists>b'. finalizedBase (foldl index_step m ops') = Some b' \<and> fb_HLC b \<le> fb_HLC b' \<and>
        (\<forall>fb t. OpSetFinalizedBase fb t \<in> set ops' \<longrightarrow> fb_HLC fb \<le> fb_HLC b')" for m b
  proof (induction ops' arbitrary: m b)
    case Nil
    then show ?case by simp
  next
    case (Cons op ops')
    obtain b1 where b1: "finalizedBase (index_step m op) = Some b1" "fb_HLC b \<le> fb_HLC b1"
        "\<forall>fb t. op = OpSetFinalizedBase fb t \<longrightarrow> fb_HLC fb \<le> fb_HLC b1"
      using Cons.prems mem.base_monotone by (cases op) (fastforce)+
    obtain b2 where b2: "finalizedBase (foldl index_step (index_step m op) ops') = Some b2"
        "fb_HLC b1 \<le> fb_HLC b2"
        "\<forall>fb t. OpSetFinalizedBase fb t \<in> set ops' \<longrightarrow> fb_HLC fb \<le> fb_HLC b2"
      using Cons.IH [OF b1(1)] by blast
    have "\<forall>fb t. OpSetFinalizedBase fb t \<in> set (op # ops') \<longrightarrow> fb_HLC fb \<le> fb_HLC b2"
      using b1(3) b2(2,3) order_trans by (metis set_ConsD)
    with b1(2) b2(1,2) show ?case by (auto intro: order_trans)
  qed
  then show ?thesis
    using assms by (simp add: index_run_def Less_not_less_eq)
qed

theorem finalized_base_monotone_witness:
  "\<exists>b'. finalizedBase (index_run ([OpSetFinalizedBase \<lparr>fb_HLC = \<lparr>Wall = 9, Logical = 0, PeerID = ''a''\<rparr>,
        fb_CommitHash = ''h9'', fb_UpdatedAt = 1\<rparr> 1] @
      [OpReset, OpSetFinalizedBase \<lparr>fb_HLC = \<lparr>Wall = 4, Logical = 0, PeerID = ''a''\<rparr>,
        fb_CommitHash = ''h4'', fb_UpdatedAt = 2\<rparr> 2])) = Some b' \<and>
    \<not> Less (fb_HLC b') \<lparr>Wall = 9, Logical = 0, PeerID = ''a''\<rparr>"
  using finalized_base_monotone [of "[OpSetFinalizedBase \<lparr>fb_HLC = \<lparr>Wall = 9, Logical = 0, PeerID = ''a''\<rparr>,
        fb_CommitHash = ''h9'', fb_UpdatedAt = 1\<rparr> 1]"
      "\<lparr>fb_HLC = \<lparr>Wall = 9, Logical = 0, PeerID = ''a''\<rparr>, fb_CommitHash = ''h9'', fb_UpdatedAt = 1\<rparr>"
      "[OpReset, OpSetFinalizedBase \<lparr>fb_HLC = \<lparr>Wall = 4, Logical = 0, PeerID = ''a''\<rparr>,
        fb_CommitHash = ''h4'', fb_UpdatedAt = 2\<rparr> 2]"]
  by (auto simp: index_run_def NewMemoryCommitIndex_def SetFinalizedBase_def Time_IsZero_def)

end
