(* ===== verification/Dolt.thy ===== *)
theory Dolt
  imports Commit_Index
begin

text \<open>
  The boundary to Dolt. Dolt's SQL engine is not part of the repository: it is the argument
  \<open>V\<close>, a record of the calls that the sources make on it, each a function on an abstract
  world \<open>'w\<close>. The world holds whatever the engine, the file system, other connections and
  the clock hold; every call may change it, so that concurrent activity is not excluded.

  A SQL text of the sources is a constructor of \<open>stmt\<close> (executed for its effect) or of
  \<open>query\<close> (executed for its rows), with the values that the source formats into the text or
  passes as arguments. \<open>sql_text\<close> gives the text that is sent, with the quoting of the
  sources (\<open>escapeSQL\<close> where, and only where, they use it).

  Programs over the database are in the state monad over \<open>DB\<close>, the record of the fields of
  the \<open>DB\<close> struct of \<open>core/db.go\<close> together with the world.
\<close>

section \<open>Statements\<close>

type_synonym session = nat

text \<open>Session 0 is the connection pool \<open>db.sqldb\<close>; \<open>sqldb.Conn\<close> and \<open>BeginTx\<close> return others.\<close>

abbreviation Pool :: session where
  "Pool \<equiv> 0"

record Commit =
  commit_Hash :: string
  commit_Committer :: string
  commit_Email :: string
  commit_Date :: Time
  commit_Message :: string

text \<open>\<open>commitWithMeta\<close> of \<open>core/reconciler_core.go\<close>: a commit and the timestamp of its metadata.\<close>

record commitWithMeta =
  cwm_commit :: Commit
  cwm_hlc :: HLCTimestamp

datatype stmt =
    DoltCheckout string
  | DoltBranchForce string string
  | DoltBranchDelete string
  | DoltResetHard string
  | DoltMerge string
  | DoltMergeAbort
  | DoltMergeFFOnly string
  | DoltCommitAmend string string string Time
  | DoltTag string string string string string
  | DoltRemoteRemove string
  | DoltRemoteAdd string string
  | DoltFetch string
  | CreateDatabase string
  | CommitStmt
  | UseDatabase string

datatype query =
    QHashOf string
  | QBranchHash string
  | QRemoteBranchHash string
  | QRemoteURL string
  | QMergeBase string string
  | QHashOfDB string
  | QShowDatabases string
  | QFirstParent string
  | QParents string
  | QCommitByHash string
  | QLog string
  | QLogFirst string
  | QLogOldest string
  | QLogWhere string string
  | QDiffSummary string string
  | QCommitAll string string string Time
  | QCommitAllRaw string string string Time

definition escapeSQL :: "string \<Rightarrow> string" where
  "escapeSQL s = concat (map (\<lambda>c. if c = CHR 0x27 then [CHR 0x27, CHR 0x27] else [c]) s)"

definition sql_quote :: "string \<Rightarrow> string" where
  "sql_quote s = [CHR 0x27] @ s @ [CHR 0x27]"

fun sql_args :: "string \<Rightarrow> string list \<Rightarrow> string" where
  "sql_args sep [] = ''''"
| "sql_args sep [a] = sql_quote a"
| "sql_args sep (a # as) = sql_quote a @ sep @ sql_args sep as"

definition sql_call :: "string \<Rightarrow> string \<Rightarrow> string list \<Rightarrow> string" where
  "sql_call f sep args = ''CALL '' @ f @ ''('' @ sql_args sep args @ '');''"

fun sql_text :: "stmt \<Rightarrow> string" where
  "sql_text (DoltCheckout b) = sql_call ''DOLT_CHECKOUT'' '', '' [b]"
| "sql_text (DoltBranchForce b h) = sql_call ''DOLT_BRANCH'' '', '' [''-f'', b, h]"
| "sql_text (DoltBranchDelete b) = sql_call ''DOLT_BRANCH'' '', '' [''-D'', b]"
| "sql_text (DoltResetHard h) = sql_call ''DOLT_RESET'' '', '' [''--hard'', h]"
| "sql_text (DoltMerge h) = sql_call ''DOLT_MERGE'' '', '' [h]"
| "sql_text DoltMergeAbort = sql_call ''DOLT_MERGE'' '', '' [''--abort'']"
| "sql_text (DoltMergeFFOnly h) = sql_call ''DOLT_MERGE'' '', '' [''--ff-only'', h]"
| "sql_text (DoltCommitAmend msg author email date) =
     sql_call ''DOLT_COMMIT'' '', '' [''--amend'', ''-m'', escapeSQL msg, ''--author'',
       escapeSQL author @ '' <'' @ escapeSQL email @ ''>'', ''--date'', FormatRFC3339Nano date]"
| "sql_text (DoltTag pubkey author email name h) =
     sql_call ''DOLT_TAG'' '', '' [''-m'', pubkey, ''--author'', author @ '' <'' @ email @ ''>'', name, h]"
| "sql_text (DoltRemoteRemove r) = sql_call ''DOLT_REMOTE'' '','' [''remove'', r]"
| "sql_text (DoltRemoteAdd r url) = sql_call ''DOLT_REMOTE'' '','' [''add'', r, escapeSQL url]"
| "sql_text (DoltFetch r) = sql_call ''DOLT_FETCH'' '', '' [r]"
| "sql_text (CreateDatabase n) = ''CREATE DATABASE '' @ n @ '';''"
| "sql_text CommitStmt = ''commit;''"
| "sql_text (UseDatabase n) = ''USE '' @ n @ '';''"

text \<open>The text of a query and the arguments bound to its placeholders.\<close>

definition commit_columns :: string where
  "commit_columns = ''SELECT commit_hash, committer, email, date, message FROM ''"

fun query_text :: "query \<Rightarrow> string \<times> string list" where
  "query_text (QHashOf r) = (''SELECT HASHOF('' @ sql_quote (escapeSQL r) @ '');'', [])"
| "query_text (QBranchHash n) = (''SELECT hash FROM dolt_branches WHERE name = ? LIMIT 1;'', [n])"
| "query_text (QRemoteBranchHash n) =
     (''SELECT hash FROM dolt_remote_branches WHERE name = ? LIMIT 1;'', [n])"
| "query_text (QRemoteURL n) =
     (''SELECT url FROM dolt_remotes WHERE name = '' @ sql_quote n @ '' LIMIT 1;'', [])"
| "query_text (QMergeBase l r) = (''SELECT DOLT_MERGE_BASE(?, ?);'', [l, r])"
| "query_text (QHashOfDB r) = (''SELECT dolt_hashof_db('' @ sql_quote r @ '')'', [])"
| "query_text (QShowDatabases n) = (''SHOW DATABASES LIKE '' @ sql_quote n, [])"
| "query_text (QFirstParent h) =
     (''SELECT parent_hash FROM dolt_commit_ancestors WHERE commit_hash = ? AND parent_index = 0 LIMIT 1'', [h])"
| "query_text (QParents h) =
     (''SELECT parent_hash FROM dolt_commit_ancestors WHERE commit_hash = ? ORDER BY parent_index ASC'', [h])"
| "query_text (QCommitByHash h) =
     (commit_columns @ ''dolt_commits WHERE commit_hash = ? LIMIT 1;'', [h])"
| "query_text (QLog r) = (commit_columns @ ''dolt_log('' @ sql_quote (escapeSQL r) @ '');'', [])"
| "query_text (QLogFirst r) =
     (commit_columns @ ''dolt_log('' @ sql_quote (escapeSQL r) @ '') LIMIT 1;'', [])"
| "query_text (QLogOldest r) =
     (commit_columns @ ''dolt_log('' @ sql_quote r @ '') ORDER BY date ASC LIMIT 1;'', [])"
| "query_text (QLogWhere r h) =
     (commit_columns @ ''dolt_log('' @ sql_quote r @ '') WHERE commit_hash = '' @
        sql_quote (escapeSQL h) @ '' LIMIT 1;'', [])"
| "query_text (QDiffSummary f t) =
     (''SELECT to_table_name FROM DOLT_DIFF_SUMMARY('' @ sql_args '', '' [f, t] @ '')'', [])"
| "query_text (QCommitAll msg author email date) =
     (sql_call ''DOLT_COMMIT'' '', '' [''-A'', ''-m'', escapeSQL msg, ''--author'',
        author @ '' <'' @ email @ ''>'', ''--date'', FormatRFC3339Nano date], [])"
| "query_text (QCommitAllRaw msg author email date) =
     (sql_call ''DOLT_COMMIT'' '', '' [''-A'', ''-m'', msg, ''--author'',
        author @ '' <'' @ email @ ''>'', ''--date'', FormatRFC3339Nano date], [])"

section \<open>The engine\<close>

text \<open>The outcome of \<open>os.Mkdir\<close>: \<open>MkdirExist\<close> carries an error for which \<open>os.IsExist\<close> holds.\<close>

datatype mkdir_result = MkdirOk | MkdirExist go_error | MkdirError go_error

record 'w env =
  e_exec :: "session \<Rightarrow> stmt \<Rightarrow> 'w \<Rightarrow> unit result \<times> 'w"
  e_query_string :: "session \<Rightarrow> query \<Rightarrow> 'w \<Rightarrow> string option result \<times> 'w"
  e_query_strings :: "session \<Rightarrow> query \<Rightarrow> 'w \<Rightarrow> string option result list result \<times> 'w"
  e_query_commits :: "session \<Rightarrow> query \<Rightarrow> 'w \<Rightarrow> Commit result list result \<times> 'w"
  e_fetch_all :: "query \<Rightarrow> 'w \<Rightarrow> Commit list result \<times> 'w"
  e_fetch_one :: "query \<Rightarrow> 'w \<Rightarrow> Commit result \<times> 'w"
  e_conn :: "'w \<Rightarrow> session result \<times> 'w"
  e_begin_tx :: "'w \<Rightarrow> session result \<times> 'w"
  e_commit_tx :: "session \<Rightarrow> 'w \<Rightarrow> unit result \<times> 'w"
  e_release :: "session \<Rightarrow> 'w \<Rightarrow> 'w"
  e_open :: "string \<Rightarrow> 'w \<Rightarrow> unit result \<times> 'w"
  e_ping :: "'w \<Rightarrow> unit result \<times> 'w"
  e_close :: "'w \<Rightarrow> unit result \<times> 'w"
  e_abs :: "string \<Rightarrow> string \<times> go_error option"
  e_mkdir :: "string \<Rightarrow> 'w \<Rightarrow> mkdir_result \<times> 'w"
  e_stat_is_dir :: "string \<Rightarrow> 'w \<Rightarrow> bool result \<times> 'w"
  e_xid :: "'w \<Rightarrow> string \<times> 'w"
  e_time :: "'w \<Rightarrow> Time \<times> 'w"
  e_fuel :: nat
  e_it_entries :: "(string \<times> CommitIndexEntry) list \<Rightarrow> (string \<times> CommitIndexEntry) list"
  e_it_commits :: "(string \<times> commitWithMeta) list \<Rightarrow> (string \<times> commitWithMeta) list"
  e_it_peers :: "(string \<times> HLCTimestamp) list \<Rightarrow> (string \<times> HLCTimestamp) list"
  e_it_callbacks :: "(string \<times> string) list \<Rightarrow> (string \<times> string) list"

text \<open>
  \<open>e_release\<close> is \<open>conn.Close\<close> or \<open>tx.Rollback\<close> (which does nothing after a commit);
  \<open>e_abs\<close>, \<open>e_mkdir\<close> and \<open>e_stat_is_dir\<close> are the calls to the file system and \<open>e_xid\<close> makes a
  unique name; \<open>e_fuel\<close> bounds the graph traversal of the reconciler; the last four fields are
  the iteration orders of the maps that the sources range over.
\<close>

definition env_ok :: "'w env \<Rightarrow> bool" where
  "env_ok V \<longleftrightarrow> range_ok (e_it_entries V) \<and> range_ok (e_it_commits V) \<and> range_ok (e_it_peers V) \<and>
     range_ok (e_it_callbacks V)"

section \<open>The database handle\<close>

text \<open>
  \<open>recHLC\<close> is the clock of the DB's reconciler; \<open>sqldb\<close> says whether the field of that name
  is set; \<open>cancelled\<close> says whether the context of the DB has been cancelled. A registered
  notifier is represented by a name, and \<open>notified\<close> records those for which \<open>Notify\<close> was
  started.
\<close>

record 'w DB =
  world :: 'w
  db_name :: string
  workingDir :: string
  initialized :: bool
  sqldb :: bool
  cancelled :: bool
  signer :: Signer
  recHLC :: HLC
  tableChangeCallbacks :: "(string \<times> string) list"
  notified :: "string list"

type_synonym ('w, 'm, 'a) db_prog = "(('w, 'm) DB_scheme, 'a) state"

definition on_world :: "('w \<Rightarrow> 'a \<times> 'w) \<Rightarrow> ('w, 'm, 'a) db_prog" where
  "on_world f = State (\<lambda>s. case f (world s) of (x, w) \<Rightarrow> (x, s\<lparr>world := w\<rparr>))"

definition modify :: "('s \<Rightarrow> 's) \<Rightarrow> ('s, unit) state" where
  "modify f = State (\<lambda>s. ((), f s))"

definition gets :: "('s \<Rightarrow> 'a) \<Rightarrow> ('s, 'a) state" where
  "gets f = State (\<lambda>s. (f s, s))"

lemma run_on_world [simp, run_simps]:
  "run_state (on_world f) s = (case f (world s) of (x, w) \<Rightarrow> (x, s\<lparr>world := w\<rparr>))"
  by (simp add: on_world_def)

lemma run_modify [simp, run_simps]: "run_state (modify f) s = ((), f s)"
  by (simp add: modify_def)

lemma run_gets [simp, run_simps]: "run_state (gets f) s = (f s, s)"
  by (simp add: gets_def)

abbreviation return :: "'a \<Rightarrow> ('s, 'a) state" where
  "return \<equiv> State_Monad.return"

abbreviation exec :: "'w env \<Rightarrow> session \<Rightarrow> stmt \<Rightarrow> ('w, 'm, unit result) db_prog" where
  "exec V c q \<equiv> on_world (e_exec V c q)"

abbreviation timeNow :: "'w env \<Rightarrow> ('w, 'm, Time) db_prog" where
  "timeNow V \<equiv> on_world (e_time V)"

text \<open>\<open>Scan\<close> into a \<open>string\<close> variable fails on NULL.\<close>

definition scan_string :: "string option result \<Rightarrow> string result" where
  "scan_string r = (case r of
       Inl e \<Rightarrow> Inl e
     | Inr None \<Rightarrow> Inl (ErrText ''sql: Scan error on column index 0: converting NULL to string is unsupported'')
     | Inr (Some s) \<Rightarrow> Inr s)"

text \<open>\<open>QueryRowContext(...).Scan(&c.Hash, ...)\<close>: the first row, or \<open>sql.ErrNoRows\<close>.\<close>

definition first_row :: "'a result list result \<Rightarrow> 'a result" where
  "first_row r = (case r of Inl e \<Rightarrow> Inl e | Inr [] \<Rightarrow> Inl ErrNoRows | Inr (x # _) \<Rightarrow> x)"

definition is_no_rows :: "go_error \<Rightarrow> bool" where
  "is_no_rows e \<longleftrightarrow> e = ErrNoRows \<or> str_contains (error_text e) ''no rows''"

section \<open>Clock of the reconciler\<close>

definition hlcNow :: "'w env \<Rightarrow> ('w, 'm, HLCTimestamp) db_prog" where
  "hlcNow V = do {
     t \<leftarrow> timeNow V;
     c \<leftarrow> gets recHLC;
     let (ts, c') = Now c (UnixNano t);
     _ \<leftarrow> modify (\<lambda>s. s\<lparr>recHLC := c'\<rparr>);
     return ts }"

definition hlcUpdate :: "'w env \<Rightarrow> HLCTimestamp \<Rightarrow> ('w, 'm, unit) db_prog" where
  "hlcUpdate V remote = do {
     t \<leftarrow> timeNow V;
     modify (\<lambda>s. s\<lparr>recHLC := Update (recHLC s) remote (UnixNano t)\<rparr>) }"

section \<open>Reads\<close>

definition GetLastCommit :: "'w env \<Rightarrow> string \<Rightarrow> ('w, 'm, Commit result) db_prog" where
  "GetLastCommit V branch = do {
     r \<leftarrow> on_world (e_fetch_all V (QLogFirst branch));
     case r of
       Inl err \<Rightarrow> return (Inl (ErrWrap ''failed to retrieve last commit hash'' err))
     | Inr commits \<Rightarrow>
         (case commits of
            [] \<Rightarrow> return (Inl (ErrText ''no commits found''))
          | c # _ \<Rightarrow> return (Inr c)) }"

text \<open>The loop over the rows: the first row whose message is user metadata, or a scan error.\<close>

fun first_user_commit :: "Commit result list \<Rightarrow> (Commit \<times> CommitMetadata) result" where
  "first_user_commit [] = Inl (ErrText ''no user commits found'')"
| "first_user_commit (Inl err # rows) = Inl err"
| "first_user_commit (Inr c # rows) =
     (case ParseCommitMetadata (commit_Message c) of
        Inl err \<Rightarrow> first_user_commit rows
      | Inr meta \<Rightarrow>
          if meta_Kind meta = CommitKindUser then Inr (c, meta) else first_user_commit rows)"

definition GetLastUserCommit ::
  "'w env \<Rightarrow> string \<Rightarrow> ('w, 'm, (Commit \<times> CommitMetadata) result) db_prog" where
  "GetLastUserCommit V branch = do {
     r \<leftarrow> on_world (e_query_commits V Pool (QLog branch));
     case r of
       Inl err \<Rightarrow> return (Inl (ErrWrap ''failed to retrieve commits'' err))
     | Inr rows \<Rightarrow> return (first_user_commit rows) }"

definition GetFirstCommit :: "'w env \<Rightarrow> ('w, 'm, Commit result) db_prog" where
  "GetFirstCommit V = do {
     r \<leftarrow> on_world (e_fetch_all V (QLogOldest ''main''));
     case r of
       Inl err \<Rightarrow> return (Inl (ErrWrap ''failed to retrieve last commit hash'' err))
     | Inr commits \<Rightarrow>
         (case commits of
            [] \<Rightarrow> return (Inl (ErrText ''no commits found''))
          | c # _ \<Rightarrow> return (Inr c)) }"

definition CheckIfCommitPresent :: "'w env \<Rightarrow> string \<Rightarrow> ('w, 'm, bool result) db_prog" where
  "CheckIfCommitPresent V commitHash = do {
     r \<leftarrow> on_world (e_fetch_one V (QLogWhere ''main'' commitHash));
     case r of
       Inl err \<Rightarrow>
         if str_contains (error_text err) ''no rows in result set'' then return (Inr False)
         else return (Inl (ErrWrap ''failed to look up commit hash'' err))
     | Inr commit \<Rightarrow> return (Inr (commit_Hash commit = commitHash)) }"

definition DatabaseExists :: "'w env \<Rightarrow> string \<Rightarrow> ('w, 'm, bool \<times> go_error option) db_prog" where
  "DatabaseExists V nm = do {
     dbn \<leftarrow> gets db_name;
     r \<leftarrow> on_world (e_query_string V Pool (QShowDatabases dbn));
     case scan_string r of
       Inl err \<Rightarrow> return (False, Some err)
     | Inr found \<Rightarrow> return (found \<noteq> '''', None) }"

definition FetchSwarm :: "'w env \<Rightarrow> ('w, 'm, unit result) db_prog" where
  "FetchSwarm V = exec V Pool (DoltFetch ''swarm'')"

text \<open>\<open>(out.String, out.Valid && out.String != "")\<close>\<close>

definition null_string :: "string option \<Rightarrow> string \<times> bool" where
  "null_string out = (case out of None \<Rightarrow> ('''', False) | Some s \<Rightarrow> (s, s \<noteq> ''''))"

definition GetBranchHead :: "'w env \<Rightarrow> string \<Rightarrow> ('w, 'm, (string \<times> bool) result) db_prog" where
  "GetBranchHead V refName = do {
     r \<leftarrow> on_world (e_query_string V Pool (QBranchHash refName));
     case r of
       Inr out \<Rightarrow> return (Inr (null_string out))
     | Inl err \<Rightarrow>
         if \<not> str_contains (error_text err) ''no rows'' \<and> err \<noteq> ErrNoRows then return (Inl err)
         else do {
           r' \<leftarrow> on_world (e_query_string V Pool (QRemoteBranchHash refName));
           case r' of
             Inr out \<Rightarrow> return (Inr (null_string out))
           | Inl err \<Rightarrow> if is_no_rows err then return (Inr ('''', False)) else return (Inl err) } }"

definition MergeBase :: "'w env \<Rightarrow> string \<Rightarrow> string \<Rightarrow> ('w, 'm, string result) db_prog" where
  "MergeBase V leftRef rightRef = do {
     r \<leftarrow> on_world (e_query_string V Pool (QMergeBase leftRef rightRef));
     case r of
       Inl err \<Rightarrow> if is_no_rows err then return (Inr '''') else return (Inl err)
     | Inr None \<Rightarrow> return (Inr '''')
     | Inr (Some h) \<Rightarrow> return (Inr h) }"

end
