(* ===== verification/Dolt_Reference.thy ===== *)
theory Dolt_Reference
  imports Dolt
begin

text \<open>
  A small reference engine: a concrete instance of the interface to Dolt, with a commit graph,
  branches, one checked-out branch for each session, one remote and a clock. The properties of
  the library hold for every engine that satisfies their hypotheses; this instance shows that
  the hypotheses can be met, and the witnesses run the programs on it.

  The behaviour follows the documentation of the Dolt procedures and system tables that the
  sources use. A merge of a commit whose hash is listed in \<open>r_conflicts\<close> fails with a
  conflict.
\<close>

record rworld =
  r_commits :: "(string \<times> Commit \<times> string list) list"
  r_branches :: "(string \<times> string) list"
  r_remote_branches :: "(string \<times> string) list"
  r_current :: "(session \<times> string) list"
  r_next :: nat
  r_clock :: Time
  r_remote :: "string option"
  r_conflicts :: "string list"
  r_databases :: "string list"

definition r_branch :: "rworld \<Rightarrow> string \<Rightarrow> string option" where
  "r_branch w b = map_of (r_branches w) b"

definition r_session :: "session \<Rightarrow> rworld \<Rightarrow> string" where
  "r_session c w = (case map_of (r_current w) c of None \<Rightarrow> ''main'' | Some b \<Rightarrow> b)"

definition r_resolve :: "session \<Rightarrow> string \<Rightarrow> rworld \<Rightarrow> string option" where
  "r_resolve c ref w =
     (if ref = ''HEAD'' then r_branch w (r_session c w)
      else case r_branch w ref of
        Some h \<Rightarrow> Some h
      | None \<Rightarrow>
          (case map_of (r_remote_branches w) ref of
             Some h \<Rightarrow> Some h
           | None \<Rightarrow> if map_of (r_commits w) ref \<noteq> None then Some ref else None))"

definition r_set_branch :: "string \<Rightarrow> string \<Rightarrow> rworld \<Rightarrow> rworld" where
  "r_set_branch b h w = w\<lparr>r_branches := AList.update b h (r_branches w)\<rparr>"

definition r_parents :: "rworld \<Rightarrow> string \<Rightarrow> string list" where
  "r_parents w h = (case map_of (r_commits w) h of None \<Rightarrow> [] | Some (c, ps) \<Rightarrow> ps)"

fun r_ancestors :: "nat \<Rightarrow> rworld \<Rightarrow> string list \<Rightarrow> string list \<Rightarrow> string list" where
  "r_ancestors 0 w seen queue = rev seen"
| "r_ancestors (Suc n) w seen [] = rev seen"
| "r_ancestors (Suc n) w seen (h # queue) =
     (if h \<in> set seen then r_ancestors n w seen queue
      else r_ancestors n w (h # seen) (queue @ r_parents w h))"

definition r_history :: "rworld \<Rightarrow> string \<Rightarrow> string list" where
  "r_history w h = r_ancestors (Suc (length (concat (map (snd \<circ> snd) (r_commits w))))) w [] [h]"

definition r_commit :: "session \<Rightarrow> string list \<Rightarrow> string \<Rightarrow> string \<Rightarrow> string \<Rightarrow> Time \<Rightarrow> rworld \<Rightarrow> string \<times> rworld" where
  "r_commit s parents author email msg date w =
     (let h = ''c'' @ show_nat (r_next w);
          c = \<lparr>commit_Hash = h, commit_Committer = author, commit_Email = email, commit_Date = date, commit_Message = msg\<rparr>
      in (h, r_set_branch (r_session s w) h
               (w\<lparr>r_commits := (h, c, parents) # r_commits w, r_next := Suc (r_next w)\<rparr>)))"

definition r_move :: "session \<Rightarrow> string \<Rightarrow> rworld \<Rightarrow> unit result \<times> rworld" where
  "r_move s ref w =
     (case r_resolve s ref w of
        None \<Rightarrow> (Inl (ErrText ''invalid ref''), w)
      | Some h \<Rightarrow> (Inr (), r_set_branch (r_session s w) h w))"

definition r_head :: "session \<Rightarrow> rworld \<Rightarrow> string list" where
  "r_head s w = (case r_resolve s ''HEAD'' w of None \<Rightarrow> [] | Some h \<Rightarrow> [h])"

definition r_merge :: "session \<Rightarrow> string \<Rightarrow> rworld \<Rightarrow> unit result \<times> rworld" where
  "r_merge s ref w =
     (if ref \<in> set (r_conflicts w) then (Inl (ErrText ''merge conflict''), w)
      else case r_resolve s ref w of
        None \<Rightarrow> (Inl (ErrText ''invalid ref''), w)
      | Some h \<Rightarrow> (Inr (), snd (r_commit s (r_head s w @ [h]) '''' '''' ''merge'' (r_clock w) w)))"

definition r_merge_ff :: "session \<Rightarrow> string \<Rightarrow> rworld \<Rightarrow> unit result \<times> rworld" where
  "r_merge_ff s ref w =
     (case (r_head s w, r_resolve s ref w) of
        (h # _, Some t) \<Rightarrow>
          if h \<in> set (r_history w t) then (Inr (), r_set_branch (r_session s w) t w)
          else (Inl (ErrText ''fast-forward not possible''), w)
      | _ \<Rightarrow> (Inl (ErrText ''invalid ref''), w))"

definition r_amend :: "session \<Rightarrow> string \<Rightarrow> string \<Rightarrow> string \<Rightarrow> Time \<Rightarrow> rworld \<Rightarrow> unit result \<times> rworld" where
  "r_amend s msg author email date w =
     (case r_head s w of
        [] \<Rightarrow> (Inl (ErrText ''nothing to amend''), w)
      | h # _ \<Rightarrow> (Inr (), snd (r_commit s (r_parents w h) author email msg date w)))"

fun r_exec :: "session \<Rightarrow> stmt \<Rightarrow> rworld \<Rightarrow> unit result \<times> rworld" where
  "r_exec s (DoltCheckout b) w =
     (if r_branch w b = None then (Inl (ErrText ''branch not found''), w)
      else (Inr (), w\<lparr>r_current := AList.update s b (r_current w)\<rparr>))"
| "r_exec s (DoltBranchForce b ref) w =
     (case r_resolve s ref w of None \<Rightarrow> (Inl (ErrText ''invalid ref''), w) | Some h \<Rightarrow> (Inr (), r_set_branch b h w))"
| "r_exec s (DoltBranchDelete b) w =
     (if r_session s w = b then (Inl (ErrText ''cannot delete the current branch''), w)
      else (Inr (), w\<lparr>r_branches := AList.delete b (r_branches w)\<rparr>))"
| "r_exec s (DoltResetHard ref) w = r_move s ref w"
| "r_exec s (DoltMerge ref) w = r_merge s ref w"
| "r_exec s DoltMergeAbort w = (Inr (), w)"
| "r_exec s (DoltMergeFFOnly ref) w = r_merge_ff s ref w"
| "r_exec s (DoltCommitAmend msg author email date) w = r_amend s msg author email date w"
| "r_exec s (DoltRemoteRemove r) w =
     (if r_remote w = None then (Inl (ErrText ''unknown remote''), w) else (Inr (), w\<lparr>r_remote := None\<rparr>))"
| "r_exec s (DoltRemoteAdd r url) w =
     (if r_remote w \<noteq> None then (Inl (ErrText ''remote already exists''), w) else (Inr (), w\<lparr>r_remote := Some url\<rparr>))"
| "r_exec s (CreateDatabase n) w = (Inr (), w\<lparr>r_databases := n # r_databases w\<rparr>)"
| "r_exec s st w = (Inr (), w)"

definition r_row :: "'a option \<Rightarrow> 'a option result" where
  "r_row x = (case x of None \<Rightarrow> Inl ErrNoRows | Some v \<Rightarrow> Inr (Some v))"

definition r_merge_base :: "session \<Rightarrow> string \<Rightarrow> string \<Rightarrow> rworld \<Rightarrow> string option" where
  "r_merge_base s l r w =
     (case (r_resolve s l w, r_resolve s r w) of
        (Some a, Some b) \<Rightarrow> List.find (\<lambda>h. h \<in> set (r_history w b)) (r_history w a)
      | _ \<Rightarrow> None)"

fun r_query_string :: "session \<Rightarrow> query \<Rightarrow> rworld \<Rightarrow> string option result \<times> rworld" where
  "r_query_string s (QHashOf ref) w =
     (case r_resolve s ref w of None \<Rightarrow> Inl (ErrText ''invalid ref'') | Some h \<Rightarrow> Inr (Some h), w)"
| "r_query_string s (QBranchHash b) w = (r_row (r_branch w b), w)"
| "r_query_string s (QRemoteBranchHash b) w = (r_row (map_of (r_remote_branches w) b), w)"
| "r_query_string s (QRemoteURL n) w = (r_row (r_remote w), w)"
| "r_query_string s (QMergeBase l r) w = (Inr (r_merge_base s l r w), w)"
| "r_query_string s (QHashOfDB r) w = (Inr (Some ''content''), w)"
| "r_query_string s (QShowDatabases n) w =
     (if n \<in> set (r_databases w) then Inr (Some n) else Inl ErrNoRows, w)"
| "r_query_string s (QCommitAll msg author email date) w =
     (case r_commit s (r_head s w) author email msg date w of (h, w') \<Rightarrow> (Inr (Some h), w'))"
| "r_query_string s q w = (Inl (ErrText ''unsupported query''), w)"

fun r_query_strings :: "session \<Rightarrow> query \<Rightarrow> rworld \<Rightarrow> string option result list result \<times> rworld" where
  "r_query_strings s (QParents h) w = (Inr (map (\<lambda>p. Inr (Some p)) (r_parents w h)), w)"
| "r_query_strings s (QFirstParent h) w = (Inr (map (\<lambda>p. Inr (Some p)) (take 1 (r_parents w h))), w)"
| "r_query_strings s q w = (Inr [], w)"

text \<open>The row of a commit carries the hash under which the commit is stored.\<close>

definition r_commit_row :: "rworld \<Rightarrow> string \<Rightarrow> Commit" where
  "r_commit_row w h =
     (case map_of (r_commits w) h of
        None \<Rightarrow> \<lparr>commit_Hash = h, commit_Committer = '''', commit_Email = '''', commit_Date = 0, commit_Message = ''''\<rparr>
      | Some (c, ps) \<Rightarrow> c\<lparr>commit_Hash := h\<rparr>)"

definition r_log :: "session \<Rightarrow> string \<Rightarrow> rworld \<Rightarrow> Commit list result" where
  "r_log s ref w =
     (case r_resolve s ref w of
        None \<Rightarrow> Inl (ErrText ''branch not found'')
      | Some h \<Rightarrow> Inr (map (r_commit_row w) (r_history w h)))"

fun r_query_commits :: "session \<Rightarrow> query \<Rightarrow> rworld \<Rightarrow> Commit result list result \<times> rworld" where
  "r_query_commits s (QCommitByHash h) w =
     (Inr (case map_of (r_commits w) h of None \<Rightarrow> [] | Some (c, ps) \<Rightarrow> [Inr c]), w)"
| "r_query_commits s (QLogFirst ref) w = (map_sum id (\<lambda>cs. map Inr (take 1 cs)) (r_log s ref w), w)"
| "r_query_commits s (QLog ref) w = (map_sum id (map Inr) (r_log s ref w), w)"
| "r_query_commits s q w = (Inr [], w)"

fun r_fetch_all :: "query \<Rightarrow> rworld \<Rightarrow> Commit list result \<times> rworld" where
  "r_fetch_all (QLogFirst ref) w = (map_sum id (take 1) (r_log Pool ref w), w)"
| "r_fetch_all (QLog ref) w = (r_log Pool ref w, w)"
| "r_fetch_all (QLogOldest ref) w = (map_sum id (\<lambda>cs. take 1 (rev cs)) (r_log Pool ref w), w)"
| "r_fetch_all q w = (Inr [], w)"

fun r_fetch_one :: "query \<Rightarrow> rworld \<Rightarrow> Commit result \<times> rworld" where
  "r_fetch_one (QLogWhere ref h) w =
     (case r_log Pool ref w of
        Inl err \<Rightarrow> Inl err
      | Inr cs \<Rightarrow> (case filter (\<lambda>c. commit_Hash c = h) cs of [] \<Rightarrow> Inl ErrNoRows | c # _ \<Rightarrow> Inr c), w)"
| "r_fetch_one q w = (Inl ErrNoRows, w)"

definition reference_engine :: "rworld env" where
  "reference_engine =
     \<lparr>e_exec = r_exec, e_query_string = r_query_string, e_query_strings = r_query_strings,
      e_query_commits = r_query_commits, e_fetch_all = r_fetch_all, e_fetch_one = r_fetch_one,
      e_conn = \<lambda>w. (Inr (Suc (r_next w)), w\<lparr>r_next := Suc (r_next w)\<rparr>),
      e_begin_tx = \<lambda>w. (Inr (Suc (r_next w)), w\<lparr>r_next := Suc (r_next w)\<rparr>),
      e_commit_tx = \<lambda>c w. (Inr (), w),
      e_release = \<lambda>c w. w\<lparr>r_current := AList.delete c (r_current w)\<rparr>,
      e_open = \<lambda>url w. (Inr (), w), e_ping = \<lambda>w. (Inr (), w), e_close = \<lambda>w. (Inr (), w),
      e_abs = \<lambda>d. (d, None), e_mkdir = \<lambda>d w. (MkdirExist (ErrText ''file exists''), w), e_stat_is_dir = \<lambda>d w. (Inr True, w),
      e_xid = \<lambda>w. (show_nat (r_next w), w\<lparr>r_next := Suc (r_next w)\<rparr>),
      e_time = \<lambda>w. (r_clock w, w\<lparr>r_clock := r_clock w + 1\<rparr>),
      e_fuel = 1000, e_it_entries = id, e_it_commits = rev, e_it_peers = rev, e_it_callbacks = rev\<rparr>"

lemma reference_env_ok: "env_ok reference_engine"
  by (simp add: env_ok_def reference_engine_def range_ok_def)

text \<open>A history of two branches that have diverged after the commit \<open>''base0000''\<close>.\<close>

definition ref_commit :: "string \<Rightarrow> string \<Rightarrow> Commit" where
  "ref_commit h msg = \<lparr>commit_Hash = h, commit_Committer = ''p'', commit_Email = ''p@doltswarm'', commit_Date = 0, commit_Message = msg\<rparr>"

definition sample_world :: rworld where
  "sample_world =
     \<lparr>r_commits = [(''base0000'', ref_commit ''base0000'' ''init'', []),
        (''local001'', ref_commit ''local001'' ''local'', [''base0000'']),
        (''remote01'', ref_commit ''remote01'' ''remote'', [''base0000''])],
      r_branches = [(''main'', ''local001'')], r_remote_branches = [(''remotes/swarm/main'', ''remote01'')],
      r_current = [], r_next = 0, r_clock = 0, r_remote = None, r_conflicts = [],
      r_databases = [''repo'']\<rparr>"

definition sample_state :: "rworld \<Rightarrow> rworld DB" where
  "sample_state w = \<lparr>world = w, db_name = ''repo'', workingDir = ''/tmp/repo'', initialized = True, sqldb = True, cancelled = False, signer = sample_signer,
     recHLC = NewHLC ''p'' 0, tableChangeCallbacks = [], notified = []\<rparr>"

end
