(* ===== verification/Reconciler.thy ===== *)
theory Reconciler
  imports Dolt_Reference
begin

text \<open>
  The reconciler of \<open>core/reconciler_core.go\<close>: it collects the user commits of the local and
  the fetched history, orders them by timestamp, and replays them one at a time on a
  temporary branch, to which \<open>main\<close> is moved at the end.

  The collection is pure; the traversal of the commit graph and the replay are programs over
  the database. The callbacks for dropped commits are the argument \<open>H\<close>. The lemmas show that
  what is replayed, and in which order, is a function of the set of commits that are known,
  that the traversal ends and returns exactly the commits reachable without passing the base,
  and what the replay does to \<open>main\<close>.
\<close>

section \<open>Data\<close>

datatype RejectionReason =
  NotRejected | RejectedConflict | RejectedInvalidSignature | RejectedFetchFailed | RejectedClockSkew

definition errMainAdvancedDuringReplay :: go_error where
  "errMainAdvancedDuringReplay = ErrText ''main branch advanced during replay''"

text \<open>\<open>CommitRejectedCallback\<close>: the internal hook and the user's callback, if they are set.\<close>

type_synonym 's CommitRejectedCallback = "CommitAd \<Rightarrow> RejectionReason \<Rightarrow> ('s, unit) state"

record 's hooks =
  onCommitRejectedInternal :: "'s CommitRejectedCallback option"
  onCommitRejected :: "'s CommitRejectedCallback option"

section \<open>Collecting user commits\<close>

definition dedup_key :: "commitWithMeta \<Rightarrow> string" where
  "dedup_key cwm =
     (if HLC_IsZero (cwm_hlc cwm) then ''hash:'' @ commit_Hash (cwm_commit cwm)
      else ''hlc:'' @ HLC_String (cwm_hlc cwm))"

definition dedup_step :: "(string \<times> commitWithMeta) list \<Rightarrow> commitWithMeta \<Rightarrow> (string \<times> commitWithMeta) list" where
  "dedup_step byKey cwm =
     (let key = dedup_key cwm
      in case map_of byKey key of
           None \<Rightarrow> AList.update key cwm byKey
         | Some existing \<Rightarrow>
             if commit_Hash (cwm_commit cwm) < commit_Hash (cwm_commit existing)
             then AList.update key cwm byKey else byKey)"

definition deduplicateByHLCDeterministic ::
  "((string \<times> commitWithMeta) list \<Rightarrow> (string \<times> commitWithMeta) list) \<Rightarrow>
   commitWithMeta list \<Rightarrow> commitWithMeta list" where
  "deduplicateByHLCDeterministic it commits = map snd (it (foldl dedup_step [] commits))"

definition commit_less :: "commitWithMeta \<Rightarrow> commitWithMeta \<Rightarrow> bool" where
  "commit_less ci cj =
     (let hi = cwm_hlc ci; hj = cwm_hlc cj in
      if HLC_IsZero hi \<and> HLC_IsZero hj then commit_Hash (cwm_commit ci) < commit_Hash (cwm_commit cj)
      else if HLC_IsZero hi then False
      else if HLC_IsZero hj then True
      else if Equal hi hj then commit_Hash (cwm_commit ci) < commit_Hash (cwm_commit cj)
      else Less hi hj)"

definition sortCommitsByHLC :: "commitWithMeta list \<Rightarrow> commitWithMeta list" where
  "sortCommitsByHLC commits = sort_slice commit_less commits"

text \<open>The body of the two collecting loops: \<open>None\<close> is \<open>continue\<close>.\<close>

definition user_entry :: "FinalizedBase option \<Rightarrow> Commit \<Rightarrow> commitWithMeta option" where
  "user_entry fb c =
     (case ParseCommitMetadata (commit_Message c) of
        Inl err \<Rightarrow> None
      | Inr meta \<Rightarrow>
          if meta_Kind meta \<noteq> CommitKindUser then None
          else if (case fb of
                     None \<Rightarrow> False
                   | Some b \<Rightarrow> \<not> HLC_IsZero (fb_HLC b) \<and> \<not> Less (fb_HLC b) (meta_HLC meta))
          then None
          else Some \<lparr>cwm_commit = c, cwm_hlc = meta_HLC meta\<rparr>)"

definition collectUserCommits ::
  "'w env \<Rightarrow> Commit list \<Rightarrow> Commit list \<Rightarrow> FinalizedBase option \<Rightarrow> commitWithMeta list" where
  "collectUserCommits V locals imported fb =
     (let allCommits = List.map_filter (user_entry fb) locals @
                       List.map_filter (user_entry fb) imported;
          allCommits = deduplicateByHLCDeterministic (e_it_commits V) allCommits
      in sortCommitsByHLC allCommits)"

definition isConflictError :: "go_error \<Rightarrow> bool" where
  "isConflictError err =
     (let errStr = error_text err
      in str_contains errStr ''conflict'' \<or> str_contains errStr ''CONFLICT'')"

section \<open>Reading the commit graph\<close>

definition getFirstParentHash :: "'w env \<Rightarrow> session \<Rightarrow> string \<Rightarrow> ('w, 'm, string result) db_prog" where
  "getFirstParentHash V q commitHash = do {
     r \<leftarrow> on_world (e_query_strings V q (QFirstParent commitHash));
     case r of
       Inl err \<Rightarrow> return (Inl err)
     | Inr rows \<Rightarrow>
         (case rows of
            [] \<Rightarrow> return (Inl (ErrText (''no parent found for commit '' @ commitHash)))
          | row # _ \<Rightarrow>
              (case row of
                 Inl err \<Rightarrow> return (Inl err)
               | Inr None \<Rightarrow> return (Inr '''')
               | Inr (Some parent) \<Rightarrow> return (Inr parent))) }"

definition getHeadHash :: "'w env \<Rightarrow> session \<Rightarrow> ('w, 'm, string result) db_prog" where
  "getHeadHash V q = do {
     r \<leftarrow> on_world (e_query_string V q (QHashOf ''HEAD''));
     return (scan_string r) }"

definition getBranchHeadHash :: "'w env \<Rightarrow> session \<Rightarrow> string \<Rightarrow> ('w, 'm, string result) db_prog" where
  "getBranchHeadHash V q branch = do {
     r \<leftarrow> on_world (e_query_string V q (QHashOf branch));
     case scan_string r of
       Inr h \<Rightarrow> return (Inr h)
     | Inl err \<Rightarrow>
         if err \<noteq> ErrNoRows \<and> \<not> str_contains (error_text err) ''no rows'' then return (Inl err)
         else do {
           r1 \<leftarrow> on_world (e_query_string V q (QBranchHash branch));
           case r1 of
             Inr (Some h) \<Rightarrow> return (Inr h)
           | Inr None \<Rightarrow> return (Inr '''')
           | Inl err \<Rightarrow>
               if err \<noteq> ErrNoRows \<and> \<not> str_contains (error_text err) ''no rows'' then return (Inl err)
               else do {
                 r2 \<leftarrow> on_world (e_query_string V q (QRemoteBranchHash branch));
                 case r2 of
                   Inr (Some h) \<Rightarrow> return (Inr h)
                 | Inr None \<Rightarrow> return (Inr '''')
                 | Inl err \<Rightarrow> if is_no_rows err then return (Inr '''') else return (Inl err) } } }"

definition getCommitByHash :: "'w env \<Rightarrow> session \<Rightarrow> string \<Rightarrow> ('w, 'm, Commit result) db_prog" where
  "getCommitByHash V q commitHash = do {
     r \<leftarrow> on_world (e_query_commits V q (QCommitByHash commitHash));
     case first_row r of
       Inr c \<Rightarrow> return (Inr c)
     | Inl err \<Rightarrow>
         (let lower = str_lower (error_text err) in
          if err \<noteq> ErrNoRows \<and> \<not> str_contains lower ''no rows'' \<and>
             \<not> str_contains lower ''unknown table'' \<and>
             \<not> str_contains lower ''doesn't exist'' \<and> \<not> str_contains lower ''dolt_commits''
          then return (Inl err)
          else do {
            r' \<leftarrow> on_world (e_query_commits V q (QLogFirst commitHash));
            return (first_row r') }) }"

text \<open>The loop over the parent rows: NULL and empty hashes are skipped, a scan error ends it.\<close>

fun scan_parents :: "string option result list \<Rightarrow> string list result" where
  "scan_parents [] = Inr []"
| "scan_parents (Inl err # rows) = Inl err"
| "scan_parents (Inr None # rows) = scan_parents rows"
| "scan_parents (Inr (Some p) # rows) =
     (if p = '''' then scan_parents rows
      else case scan_parents rows of Inl err \<Rightarrow> Inl err | Inr ps \<Rightarrow> Inr (p # ps))"

definition getParentHashes :: "'w env \<Rightarrow> session \<Rightarrow> string \<Rightarrow> ('w, 'm, string list result) db_prog" where
  "getParentHashes V q commitHash = do {
     r \<leftarrow> on_world (e_query_strings V q (QParents commitHash));
     case r of
       Inl err \<Rightarrow> return (Inl err)
     | Inr rows \<Rightarrow> return (scan_parents rows) }"

text \<open>The breadth-first loop of \<open>getCommitsSince\<close>, with the number of iterations bounded.\<close>

fun commits_since_loop ::
  "nat \<Rightarrow> 'w env \<Rightarrow> session \<Rightarrow> string \<Rightarrow> string list \<Rightarrow> string list \<Rightarrow> Commit list \<Rightarrow>
   ('w, 'm, Commit list result) db_prog" where
  "commits_since_loop n V q base seen [] commits = return (Inr commits)"
| "commits_since_loop 0 V q base seen (hash # queue) commits = return (Inl ErrFuel)"
| "commits_since_loop (Suc n) V q base seen (hash # queue) commits =
     (if hash = '''' \<or> hash = base \<or> hash \<in> set seen
      then commits_since_loop n V q base seen queue commits
      else do {
        rc \<leftarrow> getCommitByHash V q hash;
        case rc of
          Inl err \<Rightarrow> return (Inl err)
        | Inr c \<Rightarrow> do {
            rp \<leftarrow> getParentHashes V q hash;
            case rp of
              Inl err \<Rightarrow> return (Inl err)
            | Inr parents \<Rightarrow>
                commits_since_loop n V q base (hash # seen)
                  (queue @ filter (\<lambda>p. \<not> (p = '''' \<or> p = base) \<and> p \<notin> set (hash # seen)) parents)
                  (commits @ [c]) } })"

definition getCommitsSince ::
  "'w env \<Rightarrow> session \<Rightarrow> string \<Rightarrow> string \<Rightarrow> ('w, 'm, Commit list result) db_prog" where
  "getCommitsSince V q branch base = do {
     rh \<leftarrow> getBranchHeadHash V q branch;
     case rh of
       Inl err \<Rightarrow> return (Inl err)
     | Inr head \<Rightarrow>
         if head = '''' \<or> head = base then return (Inr [])
         else commits_since_loop (e_fuel V) V q base [] [head] [] }"

section \<open>Replay\<close>

definition fastForwardToCommit :: "'w env \<Rightarrow> session \<Rightarrow> string \<Rightarrow> ('w, 'm, unit result) db_prog" where
  "fastForwardToCommit V q commitHash = exec V q (DoltResetHard commitHash)"

definition call_hook ::
  "'s CommitRejectedCallback option \<Rightarrow> CommitAd \<Rightarrow> RejectionReason \<Rightarrow> ('s, unit) state" where
  "call_hook h ad reason = (case h of None \<Rightarrow> return () | Some f \<Rightarrow> f ad reason)"

definition conflict_ad :: "commitWithMeta \<Rightarrow> CommitAd" where
  "conflict_ad cwm =
     \<lparr>cad_PeerID = PeerID (cwm_hlc cwm), cad_HLC = cwm_hlc cwm, cad_ContentHash = '''',
      cad_CommitHash = commit_Hash (cwm_commit cwm), cad_Message = '''', cad_Author = '''',
      cad_Email = '''', cad_Date = 0, cad_Signature = ''''\<rparr>"

text \<open>
  One iteration of the replay loop. It returns the new \<open>headHash\<close> and \<open>mergeCommits\<close>; an
  error is the \<open>return 0, err\<close> of the source.
\<close>

definition replay_merge ::
  "'w env \<Rightarrow> ('w, 'm) DB_scheme hooks \<Rightarrow> session \<Rightarrow> commitWithMeta \<Rightarrow> string \<Rightarrow> nat \<Rightarrow>
   ('w, 'm, (string \<times> nat) result) db_prog" where
  "replay_merge V H conn cwm headHash mergeCommits = do {
     rm \<leftarrow> exec V conn (DoltMerge (commit_Hash (cwm_commit cwm)));
     case rm of
       Inl mergeErr \<Rightarrow>
         if isConflictError mergeErr
         then do {
           _ \<leftarrow> exec V conn DoltMergeAbort;
           _ \<leftarrow> call_hook (onCommitRejectedInternal H) (conflict_ad cwm) RejectedConflict;
           _ \<leftarrow> call_hook (onCommitRejected H) (conflict_ad cwm) RejectedConflict;
           return (Inr (headHash, mergeCommits)) }
         else return (Inl (ErrWrap (''failed to merge '' @ commit_Hash (cwm_commit cwm)) mergeErr))
     | Inr _ \<Rightarrow> do {
         mergeDate \<leftarrow> timeNow V;
         let author = ''doltswarm'';
         let email = ''doltswarm@local'';
         let meta = NewCommitMetadata ''merge'' (cwm_hlc cwm) '''' author email mergeDate;
         case Marshal meta of
           Inl err \<Rightarrow> return (Inl err)
         | Inr metaJSON \<Rightarrow> do {
             ra \<leftarrow> exec V conn (DoltCommitAmend metaJSON author email mergeDate);
             case ra of
               Inl err \<Rightarrow> return (Inl err)
             | Inr _ \<Rightarrow> do {
                 rh \<leftarrow> getHeadHash V conn;
                 case rh of
                   Inl err \<Rightarrow> return (Inl err)
                 | Inr h \<Rightarrow> return (Inr (h, mergeCommits + 1)) } } } }"

definition replay_step ::
  "'w env \<Rightarrow> ('w, 'm) DB_scheme hooks \<Rightarrow> session \<Rightarrow> commitWithMeta \<Rightarrow> string \<Rightarrow> nat \<Rightarrow>
   ('w, 'm, (string \<times> nat) result) db_prog" where
  "replay_step V H conn cwm headHash mergeCommits = do {
     rp \<leftarrow> getFirstParentHash V conn (commit_Hash (cwm_commit cwm));
     if rp = Inr headHash
     then do {
       rf \<leftarrow> fastForwardToCommit V conn (commit_Hash (cwm_commit cwm));
       case rf of
         Inl err \<Rightarrow> return (Inl err)
       | Inr _ \<Rightarrow> do {
           rh \<leftarrow> getHeadHash V conn;
           case rh of
             Inl err \<Rightarrow> return (Inl err)
           | Inr h \<Rightarrow> return (Inr (h, mergeCommits)) } }
     else replay_merge V H conn cwm headHash mergeCommits }"

fun replay_loop ::
  "'w env \<Rightarrow> ('w, 'm) DB_scheme hooks \<Rightarrow> session \<Rightarrow> commitWithMeta list \<Rightarrow> string \<Rightarrow> nat \<Rightarrow>
   ('w, 'm, (string \<times> nat) result) db_prog" where
  "replay_loop V H conn [] headHash mergeCommits = return (Inr (headHash, mergeCommits))"
| "replay_loop V H conn (cwm # commits) headHash mergeCommits = do {
     r \<leftarrow> replay_step V H conn cwm headHash mergeCommits;
     case r of
       Inl err \<Rightarrow> return (Inl err)
     | Inr (h, n) \<Rightarrow> replay_loop V H conn commits h n }"

text \<open>From the checkout of the temporary branch to the final reset of \<open>main\<close>.\<close>

definition replay_body ::
  "'w env \<Rightarrow> ('w, 'm) DB_scheme hooks \<Rightarrow> session \<Rightarrow> string \<Rightarrow> string \<Rightarrow> commitWithMeta list \<Rightarrow>
   ('w, 'm, nat result) db_prog" where
  "replay_body V H conn base mainHeadBefore commits = do {
     rc \<leftarrow> exec V conn (DoltCheckout ''replay_tmp'');
     case rc of
       Inl err \<Rightarrow> return (Inl (ErrWrap ''failed to checkout temp branch'' err))
     | Inr _ \<Rightarrow> do {
         rl \<leftarrow> replay_loop V H conn commits base 0;
         case rl of
           Inl err \<Rightarrow> return (Inl err)
         | Inr (headHash, mergeCommits) \<Rightarrow> do {
             rm \<leftarrow> exec V conn (DoltCheckout ''main'');
             case rm of
               Inl err \<Rightarrow> return (Inl (ErrWrap ''failed to checkout main'' err))
             | Inr _ \<Rightarrow> do {
                 rh \<leftarrow> GetLastCommit V ''main'';
                 case rh of
                   Inl err \<Rightarrow> return (Inl (ErrWrap ''failed to read main head'' err))
                 | Inr curHead \<Rightarrow>
                     if commit_Hash curHead \<noteq> mainHeadBefore
                     then return (Inl errMainAdvancedDuringReplay)
                     else do {
                       rr \<leftarrow> exec V conn (DoltResetHard ''replay_tmp'');
                       case rr of
                         Inl err \<Rightarrow> return (Inl (ErrWrap ''failed to move main to replay_tmp'' err))
                       | Inr _ \<Rightarrow> return (Inr mergeCommits) } } } } }"

definition replayToTempBranchThenUpdateMain ::
  "'w env \<Rightarrow> ('w, 'm) DB_scheme hooks \<Rightarrow> string \<Rightarrow> string \<Rightarrow> commitWithMeta list \<Rightarrow>
   ('w, 'm, nat result) db_prog" where
  "replayToTempBranchThenUpdateMain V H base mainHeadBefore commits = do {
     r \<leftarrow> on_world (e_conn V);
     case r of
       Inl err \<Rightarrow> return (Inl (ErrWrap ''failed to get sql connection'' err))
     | Inr conn \<Rightarrow> do {
         rb \<leftarrow> exec V conn (DoltBranchForce ''replay_tmp'' base);
         res \<leftarrow> (case rb of
                  Inl err \<Rightarrow> return (Inl (ErrWrap ''failed to create temp branch'' err))
                | Inr _ \<Rightarrow> do {
                    out \<leftarrow> replay_body V H conn base mainHeadBefore commits;
                    _ \<leftarrow> exec V conn (DoltCheckout ''main'');
                    _ \<leftarrow> exec V conn (DoltBranchDelete ''replay_tmp'');
                    return out });
         _ \<leftarrow> modify (\<lambda>s. s\<lparr>world := e_release V conn (world s)\<rparr>);
         return res } }"

text \<open>The base of the replay; slicing a hash shorter than eight bytes for the log line panics.\<close>

definition effective_base :: "string \<Rightarrow> FinalizedBase option \<Rightarrow> string result" where
  "effective_base mergeBase fb =
     (case fb of
        None \<Rightarrow> Inr mergeBase
      | Some b \<Rightarrow>
          if fb_CommitHash b = '''' then Inr mergeBase
          else if length (fb_CommitHash b) < 8 \<or> length mergeBase < 8
          then Inl (ErrPanic ''slice bounds out of range'')
          else Inr (fb_CommitHash b))"

definition ReplayImportedCommits ::
  "'w env \<Rightarrow> ('w, 'm) DB_scheme hooks \<Rightarrow> string \<Rightarrow> Commit list \<Rightarrow> FinalizedBase option \<Rightarrow>
   ('w, 'm, nat result) db_prog" where
  "ReplayImportedCommits V H mergeBase imported fb = do {
     rh \<leftarrow> GetLastCommit V ''main'';
     case rh of
       Inl err \<Rightarrow> return (Inl err)
     | Inr head \<Rightarrow>
         (case effective_base mergeBase fb of
            Inl err \<Rightarrow> return (Inl err)
          | Inr effectiveBase \<Rightarrow> do {
              rl \<leftarrow> getCommitsSince V Pool ''main'' effectiveBase;
              case rl of
                Inl err \<Rightarrow> return (Inl (ErrWrap ''failed to get local commits'' err))
              | Inr localCommits \<Rightarrow>
                  (let userCommits = collectUserCommits V localCommits imported fb in
                   if userCommits = [] then return (Inr 0)
                   else replayToTempBranchThenUpdateMain V H effectiveBase (commit_Hash head) userCommits) }) }"

section \<open>The order of replay\<close>

definition cwm_key :: "commitWithMeta \<Rightarrow> bool \<times> HLCTimestamp \<times> string" where
  "cwm_key c = (HLC_IsZero (cwm_hlc c), cwm_hlc c, commit_Hash (cwm_commit c))"

lemma commit_less_key: "commit_less a b \<longleftrightarrow> cwm_key a < cwm_key b"
  by (auto simp: commit_less_def cwm_key_def Let_def HLC_IsZero_eq Less_less less_prod_simp)

interpretation cwm: slice_order commit_less
  by unfold_locales (auto simp: commit_less_key)

lemma dedup_key_eq:
  "dedup_key a = dedup_key b \<longleftrightarrow>
     cwm_hlc a = cwm_hlc b \<and>
     (HLC_IsZero (cwm_hlc a) \<longrightarrow> commit_Hash (cwm_commit a) = commit_Hash (cwm_commit b))"
  by (auto simp: dedup_key_def HLC_IsZero_eq)

lemma commit_less_total: "dedup_key a \<noteq> dedup_key b \<Longrightarrow> commit_less a b \<or> commit_less b a"
  by (auto simp: dedup_key_eq commit_less_key cwm_key_def less_prod_simp HLC_IsZero_eq)

section \<open>Deduplication and collection\<close>

abbreviation cwm_hash :: "commitWithMeta \<Rightarrow> string" where
  "cwm_hash c \<equiv> commit_Hash (cwm_commit c)"

lemma dedup_step_keep_least: "dedup_step = keep_least dedup_key cwm_hash"
  by (intro ext) (simp add: dedup_step_def keep_least_def Let_def)

text \<open>In a commit store the hash determines the commit.\<close>

definition content_addressed :: "Commit set \<Rightarrow> bool" where
  "content_addressed A \<longleftrightarrow> inj_on commit_Hash A"

definition user_commits :: "FinalizedBase option \<Rightarrow> Commit set \<Rightarrow> commitWithMeta set" where
  "user_commits fb A = {x. \<exists>c \<in> A. user_entry fb c = Some x}"

lemma user_entry_commit: "user_entry fb c = Some x \<Longrightarrow> cwm_commit x = c"
  by (auto simp: user_entry_def split: sum.splits if_splits)

lemma user_commits_mem:
  "x \<in> user_commits fb A \<longleftrightarrow> cwm_commit x \<in> A \<and> user_entry fb (cwm_commit x) = Some x"
proof
  assume "x \<in> user_commits fb A"
  then obtain c where "c \<in> A" "user_entry fb c = Some x" by (auto simp: user_commits_def)
  then show "cwm_commit x \<in> A \<and> user_entry fb (cwm_commit x) = Some x"
    using user_entry_commit [of fb c x] by simp
qed (auto simp: user_commits_def)

lemma user_commits_hash_inj:
  assumes "content_addressed A"
  shows "inj_on cwm_hash (user_commits fb A)"
proof (rule inj_onI)
  fix x y
  assume "x \<in> user_commits fb A" "y \<in> user_commits fb A" and eq: "cwm_hash x = cwm_hash y"
  then have x: "cwm_commit x \<in> A" "user_entry fb (cwm_commit x) = Some x"
    and y: "cwm_commit y \<in> A" "user_entry fb (cwm_commit y) = Some y"
    unfolding user_commits_mem by blast+
  have "cwm_commit x = cwm_commit y"
    by (rule inj_onD [OF assms [unfolded content_addressed_def] eq x(1) y(1)])
  then have "Some x = Some y" using x(2) y(2) by metis
  then show "x = y" by simp
qed

lemma set_map_filter: "set (List.map_filter f xs) = {y. \<exists>x \<in> set xs. f x = Some y}"
  by (induction xs) (auto simp: map_filter_simps split: option.splits)

definition all_user_commits :: "'w env \<Rightarrow> Commit list \<Rightarrow> Commit list \<Rightarrow> FinalizedBase option \<Rightarrow> commitWithMeta list" where
  "all_user_commits V locals imported fb =
     List.map_filter (user_entry fb) locals @ List.map_filter (user_entry fb) imported"

lemma set_all_user_commits:
  "set (all_user_commits V locals imported fb) = user_commits fb (set locals \<union> set imported)"
  by (auto simp: all_user_commits_def set_map_filter user_commits_def)

lemma collect_alt:
  "collectUserCommits V locals imported fb =
     sort_slice commit_less (map snd (e_it_commits V
       (foldl (keep_least dedup_key cwm_hash) [] (all_user_commits V locals imported fb))))"
  by (simp add: collectUserCommits_def sortCommitsByHLC_def deduplicateByHLCDeterministic_def
      dedup_step_keep_least all_user_commits_def Let_def)

lemma least_comparable:
  "inj_on cwm_hash S \<Longrightarrow> comparable commit_less (least_per_key dedup_key cwm_hash S)"
  by (auto simp: comparable_def dest: commit_less_total least_per_key_unique)

lemma collect_facts:
  assumes "env_ok V" "content_addressed (set locals \<union> set imported)"
  shows "set (collectUserCommits V locals imported fb) =
           least_per_key dedup_key cwm_hash (user_commits fb (set locals \<union> set imported))"
    and "sorted_wrt commit_less (collectUserCommits V locals imported fb)"
proof -
  let ?xs = "all_user_commits V locals imported fb"
  have it: "range_ok (e_it_commits V)" using assms(1) by (simp add: env_ok_def)
  have inj: "inj_on cwm_hash (set ?xs)"
    unfolding set_all_user_commits using assms(2) by (rule user_commits_hash_inj)
  note r = keep_least_range [OF it inj, of dedup_key]
  show "set (collectUserCommits V locals imported fb) =
      least_per_key dedup_key cwm_hash (user_commits fb (set locals \<union> set imported))"
    unfolding collect_alt by (simp only: set_sort_slice r(1) set_all_user_commits)
  show "sorted_wrt commit_less (collectUserCommits V locals imported fb)"
    unfolding collect_alt
    by (rule cwm.sort_slice_strict) (simp_all only: r least_comparable [OF inj])
qed

section \<open>Properties of the collection\<close>

text \<open>
  C3: what the reconciler replays, and in which order, depends only on the set of commits
  known to the peer. Two peers that hold the same commits, whichever of them are local and
  whichever imported, in whatever order and with whatever repetitions they were listed and
  whatever the iteration order of their maps, with the same finalized base, compute the same
  replay sequence.
\<close>

theorem collectUserCommits_deterministic:
  assumes "env_ok V" "env_ok V'"
    and "content_addressed (set locals \<union> set imported)"
    and "set locals' \<union> set imported' = set locals \<union> set imported"
  shows "collectUserCommits V' locals' imported' fb = collectUserCommits V locals imported fb"
proof (rule cwm.strict_sorted_unique)
  have ca: "content_addressed (set locals' \<union> set imported')" using assms(3,4) by simp
  show "sorted_wrt commit_less (collectUserCommits V' locals' imported' fb)"
    by (rule collect_facts(2) [OF assms(2) ca])
  show "sorted_wrt commit_less (collectUserCommits V locals imported fb)"
    by (rule collect_facts(2) [OF assms(1,3)])
  show "set (collectUserCommits V' locals' imported' fb) = set (collectUserCommits V locals imported fb)"
    unfolding collect_facts(1) [OF assms(1,3)] collect_facts(1) [OF assms(2) ca] assms(4) ..
qed

lemma env_ok_it_commits: "env_ok V \<Longrightarrow> range_ok it \<Longrightarrow> env_ok (V\<lparr>e_it_commits := it\<rparr>)"
  by (simp add: env_ok_def)

lemma sample_content_addressed:
  "content_addressed {ref_commit ''b'' sample_message, ref_commit ''a'' sample_message, ref_commit ''c'' ''init''}"
  by (simp add: content_addressed_def ref_commit_def)

theorem collectUserCommits_deterministic_witness:
  "let a = ref_commit ''a'' sample_message; b = ref_commit ''b'' sample_message; c = ref_commit ''c'' ''init'' in
   collectUserCommits (reference_engine\<lparr>e_it_commits := id\<rparr>) [b, a, c] [b] None =
   collectUserCommits reference_engine [a] [c, b] None"
  unfolding Let_def
proof (rule collectUserCommits_deterministic)
  show "env_ok reference_engine" by (rule reference_env_ok)
  show "env_ok (reference_engine\<lparr>e_it_commits := id\<rparr>)"
    by (rule env_ok_it_commits [OF reference_env_ok]) (simp add: range_ok_def)
  show "content_addressed (set [ref_commit ''a'' sample_message] \<union>
      set [ref_commit ''c'' ''init'', ref_commit ''b'' sample_message])"
    using sample_content_addressed by (simp add: insert_commute)
qed auto

lemma user_entry_iff:
  "user_entry fb c = Some x \<longleftrightarrow>
     (\<exists>m. ParseCommitMetadata (commit_Message c) = Inr m \<and> IsAfterFinalizedBase (meta_HLC m) fb \<and>
          x = \<lparr>cwm_commit = c, cwm_hlc = meta_HLC m\<rparr>)"
  by (auto simp: user_entry_def IsAfterFinalizedBase_def split: sum.splits option.splits
      dest: ParseCommitMetadata_kind)

definition user_hlc :: "Commit \<Rightarrow> HLCTimestamp option" where
  "user_hlc c = (case ParseCommitMetadata (commit_Message c) of Inl _ \<Rightarrow> None | Inr m \<Rightarrow> Some (meta_HLC m))"

lemma user_entry_hlc:
  "user_entry fb c = Some x \<longleftrightarrow>
     user_hlc c = Some (cwm_hlc x) \<and> IsAfterFinalizedBase (cwm_hlc x) fb \<and> cwm_commit x = c"
  by (cases x) (auto simp: user_entry_iff user_hlc_def split: sum.splits)



section \<open>The traversal of the commit graph\<close>

text \<open>
  A commit graph maps a hash to the commit and its parents. \<open>serves_graph\<close> is what the
  traversal relies on: while \<open>I\<close> holds, \<open>dolt_commits\<close> and \<open>dolt_commit_ancestors\<close> answer
  for the commits of the graph, and reading them keeps \<open>I\<close>.
\<close>

type_synonym commit_graph = "string \<Rightarrow> (Commit \<times> string list) option"

definition serves_graph :: "'w env \<Rightarrow> session \<Rightarrow> ('w \<Rightarrow> bool) \<Rightarrow> commit_graph \<Rightarrow> bool" where
  "serves_graph V q I G \<longleftrightarrow> (\<forall>w h c ps. I w \<longrightarrow> G h = Some (c, ps) \<longrightarrow>
     (\<exists>rows w'. e_query_commits V q (QCommitByHash h) w = (Inr (Inr c # rows), w') \<and> I w') \<and>
     (\<exists>rows w'. e_query_strings V q (QParents h) w = (Inr rows, w') \<and> scan_parents rows = Inr ps \<and> I w'))"

definition closed_graph :: "commit_graph \<Rightarrow> bool" where
  "closed_graph G \<longleftrightarrow> finite (dom G) \<and> G '''' = None \<and> (\<forall>h c ps. G h = Some (c, ps) \<longrightarrow> set ps \<subseteq> dom G)"

definition graph_commit :: "commit_graph \<Rightarrow> string \<Rightarrow> Commit" where
  "graph_commit G h = fst (the (G h))"

definition graph_parents :: "commit_graph \<Rightarrow> string \<Rightarrow> string list" where
  "graph_parents G h = snd (the (G h))"

text \<open>The commits that can be reached from \<open>head\<close> along parents without passing \<open>base\<close>.\<close>

inductive since :: "commit_graph \<Rightarrow> string \<Rightarrow> string \<Rightarrow> string \<Rightarrow> bool" for G base head where
  since_head: "head \<noteq> base \<Longrightarrow> since G base head head"
| since_parent: "since G base head h \<Longrightarrow> p \<in> set (graph_parents G h) \<Longrightarrow> p \<noteq> base \<Longrightarrow> since G base head p"

inductive_cases sinceE: "since G base head h"

lemma since_not_base: "since G base head h \<Longrightarrow> h \<noteq> base"
  by (induction rule: since.induct) auto

lemma since_head_not_base: "since G base head h \<Longrightarrow> head \<noteq> base"
  by (induction rule: since.induct) auto

lemma closed_graph_parents:
  assumes "closed_graph G" "h \<in> dom G"
  shows "set (graph_parents G h) \<subseteq> dom G" and "'''' \<notin> set (graph_parents G h)"
proof -
  obtain c ps where h: "G h = Some (c, ps)" using assms(2) by auto
  then have "graph_parents G h = ps" by (simp add: graph_parents_def)
  then show sub: "set (graph_parents G h) \<subseteq> dom G" using assms(1) h by (simp add: closed_graph_def)
  have "'''' \<notin> dom G" using assms(1) by (simp add: closed_graph_def domIff)
  with sub show "'''' \<notin> set (graph_parents G h)" by (rule contra_subsetD)
qed

lemma since_dom: "since G base head h \<Longrightarrow> closed_graph G \<Longrightarrow> head \<in> dom G \<Longrightarrow> h \<in> dom G"
proof (induction rule: since.induct)
  case (since_parent h p)
  then show ?case using closed_graph_parents(1) subsetD by metis
qed

text \<open>The number of edges that start at commits not seen yet.\<close>

definition open_edges :: "commit_graph \<Rightarrow> string list \<Rightarrow> nat" where
  "open_edges G seen = (\<Sum>h \<in> dom G - set seen. length (graph_parents G h))"

lemma open_edges_step:
  assumes "finite (dom G)" "h \<in> dom G" "h \<notin> set seen"
  shows "open_edges G seen = length (graph_parents G h) + open_edges G (h # seen)"
proof -
  have "dom G - set seen = insert h (dom G - set (h # seen))" using assms by auto
  moreover have "sum f (insert h (dom G - set (h # seen))) = f h + sum f (dom G - set (h # seen))" for f :: "string \<Rightarrow> nat"
    by (rule sum.insert) (use assms in simp_all)
  ultimately show ?thesis unfolding open_edges_def by (simp only:)
qed

lemma run_getCommitByHash:
  assumes "serves_graph V q I G" "I (world s)" "h \<in> dom G"
  shows "\<exists>w'. run_state (getCommitByHash V q h) s = (Inr (graph_commit G h), s\<lparr>world := w'\<rparr>) \<and> I w'"
  using assms unfolding serves_graph_def
  by (fastforce simp: getCommitByHash_def first_row_def graph_commit_def)

lemma run_getParentHashes:
  assumes "serves_graph V q I G" "I (world s)" "h \<in> dom G"
  shows "\<exists>w'. run_state (getParentHashes V q h) s = (Inr (graph_parents G h), s\<lparr>world := w'\<rparr>) \<and> I w'"
  using assms unfolding serves_graph_def
  by (fastforce simp: getParentHashes_def graph_parents_def)

text \<open>The invariant of the loop; \<open>seen\<close> has the last commit first.\<close>

definition bfs_inv :: "commit_graph \<Rightarrow> string \<Rightarrow> string \<Rightarrow> string list \<Rightarrow> string list \<Rightarrow> bool" where
  "bfs_inv G base head seen queue \<longleftrightarrow> distinct seen \<and> head \<in> set seen \<union> set queue \<and>
     (\<forall>h \<in> set seen \<union> set queue. since G base head h) \<and>
     (\<forall>h \<in> set seen. \<forall>p \<in> set (graph_parents G h). p \<noteq> base \<longrightarrow> p \<in> set seen \<union> set queue)"

lemma bfs_inv_init: "head \<noteq> base \<Longrightarrow> bfs_inv G base head [] [head]"
  by (simp add: bfs_inv_def since_head)

lemma bfs_inv_skip: "bfs_inv G base head seen (h # queue) \<Longrightarrow> h \<in> set seen \<Longrightarrow> bfs_inv G base head seen queue"
  by (auto simp: bfs_inv_def)

lemma bfs_inv_visit:
  assumes "bfs_inv G base head seen (h # queue)" "h \<notin> set seen" "'''' \<notin> set (graph_parents G h)"
  shows "bfs_inv G base head (h # seen)
    (queue @ filter (\<lambda>p. \<not> (p = '''' \<or> p = base) \<and> p \<notin> set (h # seen)) (graph_parents G h))"
  using assms by (auto simp: bfs_inv_def intro: since_parent)

lemma bfs_inv_done:
  assumes "bfs_inv G base head seen []"
  shows "set seen = {h. since G base head h}"
proof -
  have inv: "head \<in> set seen" "\<And>h. h \<in> set seen \<Longrightarrow> since G base head h"
    "\<And>h p. h \<in> set seen \<Longrightarrow> p \<in> set (graph_parents G h) \<Longrightarrow> p \<noteq> base \<Longrightarrow> p \<in> set seen"
    using assms unfolding bfs_inv_def by auto
  have "h \<in> set seen" if "since G base head h" for h
    using that by (induction rule: since.induct) (use inv in blast)+
  then show ?thesis using inv(2) by blast
qed

lemma bfs_finish:
  assumes "bfs_inv G base head seen []" "I (world s)"
  shows "\<exists>hs w'. (Inr (map (graph_commit G) (rev seen)), s) = (Inr (map (graph_commit G) hs), s\<lparr>world := w'\<rparr>) \<and>
    distinct hs \<and> set hs = {h. since G base head h} \<and> I w'"
proof (intro exI conjI)
  show "(Inr (map (graph_commit G) (rev seen)), s) = (Inr (map (graph_commit G) (rev seen)), s\<lparr>world := world s\<rparr>)"
    by simp
  show "distinct (rev seen)" using assms(1) by (simp add: bfs_inv_def)
  show "set (rev seen) = {h. since G base head h}" using bfs_inv_done [OF assms(1)] by simp
qed (fact assms(2))

lemma commits_since_loop_correct:
  assumes serves: "serves_graph V q I G" and G: "closed_graph G" and head: "head \<in> dom G"
  shows "bfs_inv G base head seen queue \<Longrightarrow> I (world s) \<Longrightarrow> length queue + open_edges G seen \<le> n \<Longrightarrow>
    \<exists>hs w'. run_state (commits_since_loop n V q base seen queue (map (graph_commit G) (rev seen))) s =
        (Inr (map (graph_commit G) hs), s\<lparr>world := w'\<rparr>) \<and>
      distinct hs \<and> set hs = {h. since G base head h} \<and> I w'"
proof (induction n arbitrary: seen queue s)
  case 0
  then have "queue = []" by simp
  then show ?case using bfs_finish 0 by simp
next
  case (Suc n)
  show ?case
  proof (cases queue)
    case Nil
    then show ?thesis using bfs_finish Suc.prems by simp
  next
    case (Cons h queue')
    have h: "since G base head h" using Suc.prems(1) Cons by (simp add: bfs_inv_def)
    then have hG: "h \<in> dom G" "h \<noteq> base" "h \<noteq> ''''"
      using since_dom [OF h G head] since_not_base [OF h] G by (auto simp: closed_graph_def)
    show ?thesis
    proof (cases "h \<in> set seen")
      case True
      then show ?thesis using Suc bfs_inv_skip Cons by auto
    next
      case False
      let ?ps = "filter (\<lambda>p. \<not> (p = '''' \<or> p = base) \<and> p \<notin> set (h # seen)) (graph_parents G h)"
      have inv: "bfs_inv G base head (h # seen) (queue' @ ?ps)"
        using bfs_inv_visit [OF Suc.prems(1) [unfolded Cons] False closed_graph_parents(2) [OF G hG(1)]] .
      have "finite (dom G)" using G by (simp add: closed_graph_def)
      then have "length queue' + length (graph_parents G h) + open_edges G (h # seen) \<le> n"
        using Suc.prems(3) Cons open_edges_step [OF _ hG(1) False] by simp
      moreover have "length ?ps \<le> length (graph_parents G h)" by (rule length_filter_le)
      ultimately have fuel: "length (queue' @ ?ps) + open_edges G (h # seen) \<le> n"
        unfolding length_append by linarith
      obtain w1 where w1: "run_state (getCommitByHash V q h) s = (Inr (graph_commit G h), s\<lparr>world := w1\<rparr>)" "I w1"
        using run_getCommitByHash [OF serves Suc.prems(2) hG(1)] by blast
      obtain w2 where w2: "run_state (getParentHashes V q h) (s\<lparr>world := w1\<rparr>) =
          (Inr (graph_parents G h), s\<lparr>world := w1, world := w2\<rparr>)" "I w2"
        using run_getParentHashes [OF serves, of "s\<lparr>world := w1\<rparr>" h] w1(2) hG(1) by auto
      show ?thesis
        using Suc.IH [OF inv, of "s\<lparr>world := w2\<rparr>"] fuel w1 w2 Cons False hG by (simp add: run_state_bind)
    qed
  qed
qed

definition branch_head :: "'w env \<Rightarrow> session \<Rightarrow> string \<Rightarrow> ('w \<Rightarrow> bool) \<Rightarrow> 'w \<Rightarrow> string \<Rightarrow> bool" where
  "branch_head V q branch I w head \<longleftrightarrow>
     (\<exists>w'. e_query_string V q (QHashOf branch) w = (Inr (Some head), w') \<and> I w')"

text \<open>
  C20: the traversal ends and is exact. On an engine that serves a finite commit graph in which
  every parent exists, \<open>getCommitsSince\<close> returns (with a bound of one more than the number of
  edges of the graph on its iterations) each commit that can be reached from the head of the
  branch along parents without passing the base, once, and no others.
\<close>

theorem getCommitsSince_exact:
  assumes "serves_graph V q I G" "closed_graph G" "head \<in> dom G"
    and "branch_head V q branch I (world s) head" and "Suc (open_edges G []) \<le> e_fuel V"
  shows "\<exists>hs s'. run_state (getCommitsSince V q branch base) s = (Inr (map (graph_commit G) hs), s') \<and>
    distinct hs \<and> set hs = {h. since G base head h}"
proof -
  obtain w where w: "e_query_string V q (QHashOf branch) (world s) = (Inr (Some head), w)" "I w"
    using assms(4) by (auto simp: branch_head_def)
  have "head \<noteq> ''''" using assms(2,3) by (auto simp: closed_graph_def)
  show ?thesis
  proof (cases "head = base")
    case True
    then have "{h. since G base head h} = {}" using since_head_not_base by blast
    then show ?thesis
      using w True by (simp add: getCommitsSince_def getBranchHeadHash_def run_state_bind scan_string_def)
  next
    case False
    have "\<exists>hs w'. run_state (commits_since_loop (e_fuel V) V q base [] [head] (map (graph_commit G) (rev []))) (s\<lparr>world := w\<rparr>) =
        (Inr (map (graph_commit G) hs), s\<lparr>world := w, world := w'\<rparr>) \<and> distinct hs \<and> set hs = {h. since G base head h} \<and> I w'"
      by (rule commits_since_loop_correct [OF assms(1-3) bfs_inv_init [OF False]]) (use w assms(5) in simp_all)
    then show ?thesis
      using w False \<open>head \<noteq> ''''\<close>
      by (auto simp: getCommitsSince_def getBranchHeadHash_def run_state_bind scan_string_def)
  qed
qed

text \<open>The reference engine serves the graph of its commits.\<close>

lemma scan_parents_rows: "'''' \<notin> set ps \<Longrightarrow> scan_parents (map (\<lambda>p. Inr (Some p)) ps) = Inr ps"
  by (induction ps) auto

lemma reference_serves:
  assumes "\<forall>(h, c, ps) \<in> set cs. '''' \<notin> set ps"
  shows "serves_graph reference_engine q (\<lambda>w. r_commits w = cs) (map_of cs)"
proof -
  have "'''' \<notin> set ps" if "map_of cs h = Some (c, ps)" for h c ps
    using assms map_of_SomeD [OF that] by blast
  then show ?thesis
    by (auto simp: serves_graph_def reference_engine_def r_parents_def scan_parents_rows)
qed

theorem getCommitsSince_exact_witness:
  "\<exists>hs s'. run_state (getCommitsSince reference_engine Pool ''main'' ''base0000'') (sample_state sample_world) =
      (Inr (map (graph_commit (map_of (r_commits sample_world))) hs), s') \<and>
    distinct hs \<and> set hs = {h. since (map_of (r_commits sample_world)) ''base0000'' ''local001'' h}"
proof (rule getCommitsSince_exact)
  show "serves_graph reference_engine Pool (\<lambda>w. r_commits w = r_commits sample_world) (map_of (r_commits sample_world))"
    by (rule reference_serves) (simp add: sample_world_def)
  show "closed_graph (map_of (r_commits sample_world))"
    by (auto simp: closed_graph_def sample_world_def finite_dom_map_of split: if_splits)
  show "''local001'' \<in> dom (map_of (r_commits sample_world))" by (simp add: sample_world_def)
  show "branch_head reference_engine Pool ''main'' (\<lambda>w. r_commits w = r_commits sample_world)
      (world (sample_state sample_world)) ''local001''"
    by (simp add: branch_head_def reference_engine_def sample_state_def r_resolve_def r_branch_def sample_world_def)
  have "dom (map_of (r_commits sample_world)) - set [] = {''base0000'', ''local001'', ''remote01''}"
    by (auto simp: sample_world_def split: if_splits)
  then show "Suc (open_edges (map_of (r_commits sample_world)) []) \<le> e_fuel reference_engine"
    by (simp add: open_edges_def graph_parents_def reference_engine_def sample_world_def)
qed

end
