(* ===== verification/Replay.thy ===== *)
theory Replay
  imports Reconciler
begin

text \<open>
  What the replay of \<open>core/reconciler_core.go\<close> does to the branches. The laws of the engine
  that it relies on are stated over two observations of the world: the head of each branch
  (\<open>B\<close>) and the branch that a session has checked out (\<open>C\<close>). No other writer is active
  during the replay, which holds the reconciler's mutex.
\<close>

section \<open>Laws of branches\<close>

fun moves_head :: "stmt \<Rightarrow> bool" where
  "moves_head (DoltResetHard h) = True"
| "moves_head (DoltMerge h) = True"
| "moves_head DoltMergeAbort = True"
| "moves_head (DoltMergeFFOnly h) = True"
| "moves_head (DoltCommitAmend m a e d) = True"
| "moves_head st = False"

text \<open>
  \<open>DOLT_CHECKOUT\<close> changes the branch of the session, and only that; \<open>DOLT_BRANCH\<close> changes the
  branch it names; reset, merge and commit change the branch of the session; a reset to a
  branch makes the two heads equal, and a failed reset changes nothing.
\<close>

definition branch_laws ::
  "'w env \<Rightarrow> ('w \<Rightarrow> string \<Rightarrow> string option) \<Rightarrow> (session \<Rightarrow> 'w \<Rightarrow> string) \<Rightarrow> bool" where
  "branch_laws V B C \<longleftrightarrow>
     (\<forall>c b w r w'. e_exec V c (DoltCheckout b) w = (r, w') \<longrightarrow> B w' = B w \<and>
        C c w' = (case r of Inl _ \<Rightarrow> C c w | Inr _ \<Rightarrow> b)) \<and>
     (\<forall>c b h w r w'. e_exec V c (DoltBranchForce b h) w = (r, w') \<longrightarrow>
        C c w' = C c w \<and> (\<forall>x. x \<noteq> b \<longrightarrow> B w' x = B w x)) \<and>
     (\<forall>c b w r w'. e_exec V c (DoltBranchDelete b) w = (r, w') \<longrightarrow>
        C c w' = C c w \<and> (\<forall>x. x \<noteq> b \<longrightarrow> B w' x = B w x)) \<and>
     (\<forall>c st w r w'. moves_head st \<longrightarrow> e_exec V c st w = (r, w') \<longrightarrow>
        C c w' = C c w \<and> (\<forall>x. x \<noteq> C c w \<longrightarrow> B w' x = B w x)) \<and>
     (\<forall>c b w r w'. e_exec V c (DoltResetHard b) w = (r, w') \<longrightarrow>
        (case r of Inl _ \<Rightarrow> B w' = B w | Inr _ \<Rightarrow> b \<noteq> ''HEAD'' \<and> B w b \<noteq> None \<longrightarrow> B w' (C c w) = B w b)) \<and>
     (\<forall>b w c cs w'. e_fetch_all V (QLogFirst b) w = (Inr (c # cs), w') \<longrightarrow> b \<noteq> ''HEAD'' \<and> B w b \<noteq> None \<longrightarrow>
        B w b = Some (commit_Hash c))"

text \<open>Reading changes neither observation.\<close>

definition read_laws ::
  "'w env \<Rightarrow> ('w \<Rightarrow> string \<Rightarrow> string option) \<Rightarrow> (session \<Rightarrow> 'w \<Rightarrow> string) \<Rightarrow> bool" where
  "read_laws V B C \<longleftrightarrow>
     (\<forall>c q w. B (snd (e_query_string V c (QHashOf q) w)) = B w \<and> C c (snd (e_query_string V c (QHashOf q) w)) = C c w) \<and>
     (\<forall>c q w. B (snd (e_query_strings V c q w)) = B w \<and> C c (snd (e_query_strings V c q w)) = C c w) \<and>
     (\<forall>c q w. B (snd (e_fetch_all V q w)) = B w \<and> C c (snd (e_fetch_all V q w)) = C c w) \<and>
     (\<forall>c w. B (snd (e_time V w)) = B w \<and> C c (snd (e_time V w)) = C c w) \<and>
     (\<forall>w. B (snd (e_conn V w)) = B w) \<and>
     (\<forall>c w. B (e_release V c w) = B w)"

text \<open>A callback may do anything but touch the branches.\<close>

definition hook_ok ::
  "('w \<Rightarrow> string \<Rightarrow> string option) \<Rightarrow> (session \<Rightarrow> 'w \<Rightarrow> string) \<Rightarrow> ('w, 'm) DB_scheme CommitRejectedCallback option \<Rightarrow> bool" where
  "hook_ok B C h \<longleftrightarrow> (case h of None \<Rightarrow> True | Some f \<Rightarrow>
     (\<forall>ad reason s. let w = world s; w' = world (snd (run_state (f ad reason) s)) in B w' = B w \<and> (\<forall>c. C c w' = C c w)))"

definition hooks_ok ::
  "('w \<Rightarrow> string \<Rightarrow> string option) \<Rightarrow> (session \<Rightarrow> 'w \<Rightarrow> string) \<Rightarrow> ('w, 'm) DB_scheme hooks \<Rightarrow> bool" where
  "hooks_ok B C H \<longleftrightarrow> hook_ok B C (onCommitRejectedInternal H) \<and> hook_ok B C (onCommitRejected H)"

text \<open>The branches other than \<open>t\<close> have the heads \<open>b0\<close>; the session \<open>conn\<close> is on the branch \<open>b\<close>.\<close>

definition others_are ::
  "('w \<Rightarrow> string \<Rightarrow> string option) \<Rightarrow> string \<Rightarrow> (string \<Rightarrow> string option) \<Rightarrow> ('w, 'm) DB_scheme \<Rightarrow> bool" where
  "others_are B t b0 s \<longleftrightarrow> (\<forall>x. x \<noteq> t \<longrightarrow> B (world s) x = b0 x)"

definition on_branch ::
  "('w \<Rightarrow> string \<Rightarrow> string option) \<Rightarrow> (session \<Rightarrow> 'w \<Rightarrow> string) \<Rightarrow> session \<Rightarrow> string \<Rightarrow>
   (string \<Rightarrow> string option) \<Rightarrow> string \<Rightarrow> ('w, 'm) DB_scheme \<Rightarrow> bool" where
  "on_branch B C conn t b0 b s \<longleftrightarrow> others_are B t b0 s \<and> C conn (world s) = b"

section \<open>The loop works on the temporary branch\<close>

lemma keeps_on_world:
  "(\<And>s. P s \<Longrightarrow> P (s\<lparr>world := snd (f (world s))\<rparr>)) \<Longrightarrow> keeps P (on_world f)"
  by (auto intro!: keepsI split: prod.splits) (metis snd_conv)

lemma branch_lawsD:
  assumes "branch_laws V B C"
  shows checkout_law: "e_exec V c (DoltCheckout b) w = (r, w') \<Longrightarrow>
      B w' = B w \<and> C c w' = (case r of Inl _ \<Rightarrow> C c w | Inr _ \<Rightarrow> b)"
    and force_law: "e_exec V c (DoltBranchForce b h) w = (r, w') \<Longrightarrow> C c w' = C c w \<and> (\<forall>x. x \<noteq> b \<longrightarrow> B w' x = B w x)"
    and delete_law: "e_exec V c (DoltBranchDelete b) w = (r, w') \<Longrightarrow> C c w' = C c w \<and> (\<forall>x. x \<noteq> b \<longrightarrow> B w' x = B w x)"
    and move_law: "moves_head st \<Longrightarrow> e_exec V c st w = (r, w') \<Longrightarrow>
      C c w' = C c w \<and> (\<forall>x. x \<noteq> C c w \<longrightarrow> B w' x = B w x)"
    and reset_law: "e_exec V c (DoltResetHard b) w = (r, w') \<Longrightarrow>
      (case r of Inl _ \<Rightarrow> B w' = B w | Inr _ \<Rightarrow> b \<noteq> ''HEAD'' \<and> B w b \<noteq> None \<longrightarrow> B w' (C c w) = B w b)"
    and log_law: "e_fetch_all V (QLogFirst b) w = (Inr (cm # cs), w') \<Longrightarrow> b \<noteq> ''HEAD'' \<and> B w b \<noteq> None \<longrightarrow>
      B w b = Some (commit_Hash cm)"
proof -
  note laws = assms [unfolded branch_laws_def]
  show "e_exec V c (DoltCheckout b) w = (r, w') \<Longrightarrow> B w' = B w \<and> C c w' = (case r of Inl _ \<Rightarrow> C c w | Inr _ \<Rightarrow> b)"
    using laws [THEN conjunct1] by blast
  show "e_exec V c (DoltBranchForce b h) w = (r, w') \<Longrightarrow> C c w' = C c w \<and> (\<forall>x. x \<noteq> b \<longrightarrow> B w' x = B w x)"
    using laws [THEN conjunct2, THEN conjunct1] by blast
  show "e_exec V c (DoltBranchDelete b) w = (r, w') \<Longrightarrow> C c w' = C c w \<and> (\<forall>x. x \<noteq> b \<longrightarrow> B w' x = B w x)"
    using laws [THEN conjunct2, THEN conjunct2, THEN conjunct1] by blast
  show "moves_head st \<Longrightarrow> e_exec V c st w = (r, w') \<Longrightarrow> C c w' = C c w \<and> (\<forall>x. x \<noteq> C c w \<longrightarrow> B w' x = B w x)"
    using laws [THEN conjunct2, THEN conjunct2, THEN conjunct2, THEN conjunct1] by blast
  show "e_exec V c (DoltResetHard b) w = (r, w') \<Longrightarrow>
      (case r of Inl _ \<Rightarrow> B w' = B w | Inr _ \<Rightarrow> b \<noteq> ''HEAD'' \<and> B w b \<noteq> None \<longrightarrow> B w' (C c w) = B w b)"
    using laws [THEN conjunct2, THEN conjunct2, THEN conjunct2, THEN conjunct2, THEN conjunct1] by blast
  show "e_fetch_all V (QLogFirst b) w = (Inr (cm # cs), w') \<Longrightarrow> b \<noteq> ''HEAD'' \<and> B w b \<noteq> None \<longrightarrow>
      B w b = Some (commit_Hash cm)"
    using laws [THEN conjunct2, THEN conjunct2, THEN conjunct2, THEN conjunct2, THEN conjunct2] by blast
qed

lemma keeps_move:
  assumes "branch_laws V B C" "moves_head st"
  shows "keeps (on_branch B C conn t b0 t) (exec V conn st)"
proof (rule keeps_on_world)
  fix s assume "on_branch B C conn t b0 t s"
  moreover obtain r w' where "e_exec V conn st (world s) = (r, w')" by fastforce
  ultimately show "on_branch B C conn t b0 t (s\<lparr>world := snd (e_exec V conn st (world s))\<rparr>)"
    using move_law [OF assms] by (simp add: on_branch_def others_are_def)
qed

lemma keeps_reads:
  assumes "read_laws V B C"
  shows "keeps (on_branch B C conn t b0 b) (on_world (e_query_string V conn (QHashOf ref)))"
    and "keeps (on_branch B C conn t b0 b) (on_world (e_query_strings V conn q))"
    and "keeps (on_branch B C conn t b0 b) (on_world (e_fetch_all V q))"
    and "keeps (on_branch B C conn t b0 b) (timeNow V)"
  using assms by (intro keeps_on_world; simp add: read_laws_def on_branch_def others_are_def)+

lemma keeps_call_hook:
  assumes "hook_ok B C h"
  shows "keeps (on_branch B C conn t b0 b) (call_hook h ad reason)"
  using assms
  by (cases h) (auto simp: call_hook_def hook_ok_def Let_def on_branch_def others_are_def intro!: keepsI keeps_return)

lemma keeps_replay_step:
  assumes laws: "branch_laws V B C" "read_laws V B C" "hooks_ok B C H"
  shows "keeps (on_branch B C conn t b0 t) (replay_step V H conn cwm headHash n)"
proof -
  have hooks: "hook_ok B C (onCommitRejectedInternal H)" "hook_ok B C (onCommitRejected H)"
    using laws(3) by (simp_all add: hooks_ok_def)
  show ?thesis
    unfolding replay_step_def replay_merge_def getFirstParentHash_def getHeadHash_def fastForwardToCommit_def Let_def
    by (intro keeps_intros keeps_reads [OF laws(2)] keeps_move [OF laws(1)] keeps_call_hook [OF hooks(1)]
        keeps_call_hook [OF hooks(2)]) simp_all
qed

lemma keeps_replay_loop:
  assumes laws: "branch_laws V B C" "read_laws V B C" "hooks_ok B C H"
  shows "keeps (on_branch B C conn t b0 t) (replay_loop V H conn cwms headHash n)"
  by (induction cwms arbitrary: headHash n)
    (auto intro!: keeps_intros keeps_replay_step [OF laws])

section \<open>The replay as a whole\<close>

text \<open>
  What the body guarantees: on an error the branches other than the temporary one are as they
  were; on success \<open>main\<close> had the expected head, the others are as they were, and \<open>main\<close> has
  the head that the temporary branch has.
\<close>

definition replayed ::
  "('w \<Rightarrow> string \<Rightarrow> string option) \<Rightarrow> (string \<Rightarrow> string option) \<Rightarrow> string \<Rightarrow> 'a result \<Rightarrow> ('w, 'm) DB_scheme \<Rightarrow> bool" where
  "replayed B b0 mainHeadBefore r s \<longleftrightarrow>
     (\<forall>x. x \<noteq> ''replay_tmp'' \<and> x \<noteq> ''main'' \<longrightarrow> B (world s) x = b0 x) \<and>
     (case r of
        Inl err \<Rightarrow> B (world s) ''main'' = b0 ''main''
      | Inr n \<Rightarrow> b0 ''main'' \<noteq> None \<longrightarrow> b0 ''main'' = Some mainHeadBefore)"

lemma triple_exec:
  "(\<And>s r w'. P s \<Longrightarrow> e_exec V c st (world s) = (r, w') \<Longrightarrow> Q r (s\<lparr>world := w'\<rparr>)) \<Longrightarrow> triple P (exec V c st) Q"
  by (auto simp: triple_def split: prod.splits)

lemma triple_keeps: "keeps P m \<Longrightarrow> triple P m (\<lambda>_. P)"
  by (simp add: keeps_def)

lemma others_are_replayed: "others_are B ''replay_tmp'' b0 s \<Longrightarrow> replayed B b0 m (Inl err) s"
  by (simp add: others_are_def replayed_def)

lemma triple_checkout:
  assumes "branch_laws V B C"
  shows "triple (others_are B t b0) (exec V conn (DoltCheckout b))
    (\<lambda>r s. others_are B t b0 s \<and> (case r of Inl _ \<Rightarrow> True | Inr _ \<Rightarrow> on_branch B C conn t b0 b s))"
  by (rule triple_exec) (auto dest!: checkout_law [OF assms] simp: others_are_def on_branch_def split: sum.splits)

lemma triple_GetLastCommit:
  assumes "branch_laws V B C" "read_laws V B C"
  shows "triple (on_branch B C conn t b0 b) (GetLastCommit V br)
    (\<lambda>r s. on_branch B C conn t b0 b s \<and> (case r of Inl _ \<Rightarrow> True | Inr c \<Rightarrow>
       br \<noteq> t \<and> br \<noteq> ''HEAD'' \<and> b0 br \<noteq> None \<longrightarrow> b0 br = Some (commit_Hash c)))"
proof (rule tripleI)
  fix s r s'
  assume P: "on_branch B C conn t b0 b s" and run: "run_state (GetLastCommit V br) s = (r, s')"
  obtain rows w' where f: "e_fetch_all V (QLogFirst br) (world s) = (rows, w')" by fastforce
  have "keeps (on_branch B C conn t b0 b) (GetLastCommit V br)"
    unfolding GetLastCommit_def by (intro keeps_intros keeps_reads [OF assms(2)])
  from keepsD [OF this P run] have "on_branch B C conn t b0 b s'" .
  moreover have "br \<noteq> t \<and> br \<noteq> ''HEAD'' \<and> b0 br \<noteq> None \<longrightarrow> b0 br = Some (commit_Hash c)" if "r = Inr c" for c
    using log_law [OF assms(1)] f run P that
    by (auto simp: GetLastCommit_def run_state_bind on_branch_def others_are_def split: sum.splits list.splits)
  ultimately show "on_branch B C conn t b0 b s' \<and> (case r of Inl _ \<Rightarrow> True | Inr c \<Rightarrow>
      br \<noteq> t \<and> br \<noteq> ''HEAD'' \<and> b0 br \<noteq> None \<longrightarrow> b0 br = Some (commit_Hash c))"
    by (auto split: sum.splits)
qed

lemma triple_reset:
  assumes "branch_laws V B C"
  shows "triple (\<lambda>s. on_branch B C conn ''replay_tmp'' b0 ''main'' s \<and> (b0 ''main'' \<noteq> None \<longrightarrow> b0 ''main'' = Some m))
    (exec V conn (DoltResetHard ref)) (replayed B b0 m)"
proof (rule triple_exec)
  fix s r w'
  assume P: "on_branch B C conn ''replay_tmp'' b0 ''main'' s \<and> (b0 ''main'' \<noteq> None \<longrightarrow> b0 ''main'' = Some m)"
    and e: "e_exec V conn (DoltResetHard ref) (world s) = (r, w')"
  have "\<forall>x. x \<noteq> ''main'' \<longrightarrow> B w' x = B (world s) x"
    using move_law [OF assms _ e] P by (simp add: on_branch_def)
  moreover have "B w' = B (world s)" if "r = Inl err" for err
    using reset_law [OF assms e] that by simp
  ultimately show "replayed B b0 m r (s\<lparr>world := w'\<rparr>)"
    using P by (auto simp: replayed_def on_branch_def others_are_def split: sum.splits)
qed

lemma replayed_cong: "replayed B b0 m (r :: 'a result) s \<Longrightarrow> (\<And>e. r' = Inl e \<Longrightarrow> isl r) \<Longrightarrow> (\<And>x. r' = Inr x \<Longrightarrow> \<not> isl r) \<Longrightarrow>
    replayed B b0 m (r' :: 'b result) s"
  by (cases r; cases r') (simp_all add: replayed_def)

lemma triple_move_main:
  assumes laws: "branch_laws V B C" "read_laws V B C"
  shows "triple (on_branch B C conn ''replay_tmp'' b0 ''main'')
    (do {
       rh \<leftarrow> GetLastCommit V ''main'';
       case rh of
         Inl err \<Rightarrow> return (Inl (ErrWrap ''failed to read main head'' err))
       | Inr curHead \<Rightarrow>
           if commit_Hash curHead \<noteq> m then return (Inl errMainAdvancedDuringReplay)
           else do {
             rr \<leftarrow> exec V conn (DoltResetHard ''replay_tmp'');
             case rr of
               Inl err \<Rightarrow> return (Inl (ErrWrap ''failed to move main to replay_tmp'' err))
             | Inr _ \<Rightarrow> return (Inr n) } })
    (replayed B b0 m)"
proof (rule triple_bind [OF triple_GetLastCommit [OF laws]])
  fix r :: "Commit result"
  let ?reset = "do {
      rr \<leftarrow> exec V conn (DoltResetHard ''replay_tmp'');
      case rr of
        Inl err \<Rightarrow> return (Inl (ErrWrap ''failed to move main to replay_tmp'' err))
      | Inr _ \<Rightarrow> return (Inr n) }"
  have reset: "triple (\<lambda>s. on_branch B C conn ''replay_tmp'' b0 ''main'' s \<and> (b0 ''main'' \<noteq> None \<longrightarrow> b0 ''main'' = Some m)) ?reset (replayed B b0 m)"
    by (rule triple_bind [OF triple_reset [OF laws(1)]]) (auto intro!: triple_sum triple_return elim: replayed_cong)
  show "triple (\<lambda>s. on_branch B C conn ''replay_tmp'' b0 ''main'' s \<and>
      (case r of Inl _ \<Rightarrow> True | Inr c \<Rightarrow> ''main'' \<noteq> ''replay_tmp'' \<and> ''main'' \<noteq> ''HEAD'' \<and> b0 ''main'' \<noteq> None \<longrightarrow>
         b0 ''main'' = Some (commit_Hash c)))
    (case r of
       Inl err \<Rightarrow> return (Inl (ErrWrap ''failed to read main head'' err))
     | Inr curHead \<Rightarrow> if commit_Hash curHead \<noteq> m then return (Inl errMainAdvancedDuringReplay) else ?reset)
    (replayed B b0 m)"
  proof (cases r)
    case (Inl e)
    then show ?thesis by (auto intro!: triple_return simp: on_branch_def others_are_replayed)
  next
    case (Inr curHead)
    show ?thesis
    proof (cases "commit_Hash curHead = m")
      case True
      then show ?thesis using Inr reset by simp
    next
      case False
      then show ?thesis using Inr by (auto intro!: triple_return simp: on_branch_def others_are_replayed)
    qed
  qed
qed

lemma triple_replay_body:
  assumes laws: "branch_laws V B C" "read_laws V B C" "hooks_ok B C H"
  shows "triple (others_are B ''replay_tmp'' b0) (replay_body V H conn base m cwms) (replayed B b0 m)"
proof -
  have err: "triple (\<lambda>s. others_are B ''replay_tmp'' b0 s \<and> R s) (return (Inl e :: nat result)) (replayed B b0 m)" for e R
    by (rule triple_return) (simp add: others_are_replayed)
  have err': "triple (on_branch B C conn ''replay_tmp'' b0 b) (return (Inl e :: nat result)) (replayed B b0 m)" for e b
    by (rule triple_return) (simp add: on_branch_def others_are_replayed)
  have checkout: "triple (on_branch B C conn ''replay_tmp'' b0 b) (exec V conn (DoltCheckout b'))
      (\<lambda>r s. others_are B ''replay_tmp'' b0 s \<and>
         (case r of Inl _ \<Rightarrow> True | Inr _ \<Rightarrow> on_branch B C conn ''replay_tmp'' b0 b' s))" for b b'
    by (rule triple_pre [OF triple_checkout [OF laws(1)]]) (simp add: on_branch_def)
  have pre: "triple (on_branch B C conn ''replay_tmp'' b0 b) f (replayed B b0 m) \<Longrightarrow> r = Inr () \<Longrightarrow>
      triple (\<lambda>s. others_are B ''replay_tmp'' b0 s \<and>
         (case r of Inl _ \<Rightarrow> True | Inr _ \<Rightarrow> on_branch B C conn ''replay_tmp'' b0 b s)) f (replayed B b0 m)"
    for b r and f :: "('a, 'b, nat result) db_prog"
    by (erule triple_pre) auto
  show ?thesis
    unfolding replay_body_def
    by (rule triple_bind [OF triple_checkout [OF laws(1)]] triple_sum err err' pre triple_prod triple_move_main [where ?b0.0 = b0, OF laws(1,2)]
        triple_bind [OF triple_keeps [OF keeps_replay_loop [OF laws]]] triple_bind [OF checkout] | simp)+
qed

lemma replayed_keep:
  assumes "replayed B b0 m r s" "\<forall>x. x \<noteq> ''replay_tmp'' \<longrightarrow> B (world s') x = B (world s) x"
  shows "replayed B b0 m r s'"
  using assms by (auto simp: replayed_def split: sum.splits)

lemma keeps_cleanup:
  assumes "branch_laws V B C"
  shows "keeps (replayed B b0 m r) (exec V conn (DoltCheckout b))"
    and "keeps (replayed B b0 m r) (exec V conn (DoltBranchDelete ''replay_tmp''))"
  using checkout_law [OF assms prod.collapse [symmetric]] delete_law [OF assms prod.collapse [symmetric]]
  by (auto intro!: keeps_on_world elim!: replayed_keep)


lemma triple_replay:
  assumes laws: "branch_laws V B C" "read_laws V B C" "hooks_ok B C H"
  shows "triple (\<lambda>s. B (world s) = b0) (replayToTempBranchThenUpdateMain V H base m cwms) (replayed B b0 m)"
proof -
  let ?P = "others_are B ''replay_tmp'' b0"
  have conn: "triple (\<lambda>s. B (world s) = b0) (on_world (e_conn V)) (\<lambda>_. ?P)"
    using laws(2) by (auto simp: triple_def read_laws_def others_are_def split: prod.splits) (metis snd_conv)
  have branch: "triple ?P (exec V conn (DoltBranchForce ''replay_tmp'' base)) (\<lambda>_. ?P)" for conn
    by (rule triple_exec) (auto dest!: force_law [OF laws(1)] simp: others_are_def)
  have err: "triple ?P (return (Inl e :: nat result)) (replayed B b0 m)" for e
    by (rule triple_return) (rule others_are_replayed)
  have release: "triple (replayed B b0 m r) (modify (\<lambda>s. s\<lparr>world := e_release V conn (world s)\<rparr>)) (\<lambda>_. replayed B b0 m r)"
    for conn and r :: "nat result"
    using laws(2) by (auto simp: triple_def read_laws_def elim!: replayed_keep)
  show ?thesis
    unfolding replayToTempBranchThenUpdateMain_def
    by (rule triple_bind [OF conn] triple_bind [OF branch] triple_sum err triple_bind [OF triple_replay_body [where ?b0.0 = b0, OF laws]]
        triple_bind [OF triple_keeps [OF keeps_cleanup(1) [OF laws(1)]]] triple_bind [OF triple_keeps [OF keeps_cleanup(2) [OF laws(1)]]]
        triple_bind [OF release] triple_bind [where R = "replayed B b0 m"] triple_return | assumption)+
qed

text \<open>
  C1: a replay moves \<open>main\<close> like a compare-and-swap. If it returns an error, every branch other
  than the temporary one has the head it had before. If it succeeds, \<open>main\<close> had the head that
  the caller expected, and no branch other than \<open>main\<close> and the temporary one has moved.
\<close>

theorem replay_compare_and_swap:
  assumes "branch_laws V B C" "read_laws V B C" "hooks_ok B C H"
    and "B (world s) ''main'' \<noteq> None"
    and "run_state (replayToTempBranchThenUpdateMain V H base mainHeadBefore cwms) s = (r, s')"
  shows "(\<forall>b. b \<noteq> ''replay_tmp'' \<and> b \<noteq> ''main'' \<longrightarrow> B (world s') b = B (world s) b) \<and>
    (case r of
       Inl err \<Rightarrow> B (world s') ''main'' = B (world s) ''main''
     | Inr n \<Rightarrow> B (world s) ''main'' = Some mainHeadBefore)"
  using tripleD [OF triple_replay [where B = B and ?b0.0 = "B (world s)", OF assms(1-3)] refl assms(5)] assms(4)
  by (cases r) (simp_all add: replayed_def)

section \<open>The reference engine satisfies the laws\<close>

lemma r_set_branch_simps [simp]:
  "r_branch (r_set_branch b h w) = (r_branch w)(b \<mapsto> h)" "r_session c (r_set_branch b h w) = r_session c w"
  by (auto simp: r_set_branch_def r_branch_def r_session_def fun_eq_iff)



lemma r_commit_laws:
  "r_session c (snd (r_commit s ps a e m d w)) = r_session c w"
  "x \<noteq> r_session s w \<Longrightarrow> r_branch (snd (r_commit s ps a e m d w)) x = r_branch w x"
  by (simp_all add: r_commit_def Let_def) (simp_all add: r_session_def r_branch_def)

lemma r_move_law:
  assumes "moves_head st"
  shows "r_session s (snd (r_exec s st w)) = r_session s w \<and>
    (\<forall>x. x \<noteq> r_session s w \<longrightarrow> r_branch (snd (r_exec s st w)) x = r_branch w x)"
  using assms
  by (cases st) (auto simp: r_move_def r_merge_def r_merge_ff_def r_amend_def r_commit_laws split: option.splits list.splits)

lemma r_history_head: "\<exists>hs. r_history w h = h # hs"
proof -
  have "\<exists>hs. r_ancestors n w (seen @ [h]) q = h # hs" for n seen q
  proof (induction n arbitrary: seen q)
    case (Suc n)
    show ?case
    proof (cases q)
      case (Cons a q')
      then show ?thesis using Suc [of seen q'] Suc [of "a # seen"] by simp
    qed simp
  qed simp
  from this [of _ "[]"] show ?thesis by (simp add: r_history_def)
qed

lemma r_log_first:
  assumes "r_fetch_all (QLogFirst b) w = (Inr (c # cs), w')" "b \<noteq> ''HEAD''" "r_branch w b = Some h"
  shows "commit_Hash c = h"
proof -
  obtain hs where "r_history w h = h # hs" using r_history_head by blast
  then show ?thesis
    using assms by (auto simp: r_log_def r_resolve_def r_commit_row_def split: option.splits)
qed

lemma reference_branch_laws: "branch_laws reference_engine r_branch r_session"
  unfolding branch_laws_def
proof (intro conjI allI impI)
  fix c b w r w'
  assume "e_exec reference_engine c (DoltCheckout b) w = (r, w')"
  then show "r_branch w' = r_branch w" "r_session c w' = (case r of Inl _ \<Rightarrow> r_session c w | Inr _ \<Rightarrow> b)"
    by (auto simp: reference_engine_def r_branch_def r_session_def split: if_splits)
next
  fix c b h w r w'
  assume "e_exec reference_engine c (DoltBranchForce b h) w = (r, w')"
  then show "r_session c w' = r_session c w" "x \<noteq> b \<Longrightarrow> r_branch w' x = r_branch w x" for x
    by (auto simp: reference_engine_def split: option.splits)
next
  fix c b w r w'
  assume "e_exec reference_engine c (DoltBranchDelete b) w = (r, w')"
  then show "r_session c w' = r_session c w" "x \<noteq> b \<Longrightarrow> r_branch w' x = r_branch w x" for x
    by (auto simp: reference_engine_def r_branch_def r_session_def delete_conv' split: if_splits)
next
  fix c st w r w'
  assume "moves_head st" "e_exec reference_engine c st w = (r, w')"
  then show "r_session c w' = r_session c w" "x \<noteq> r_session c w \<Longrightarrow> r_branch w' x = r_branch w x" for x
    using r_move_law [of st c w] by (auto simp: reference_engine_def)
next
  fix c b w r w'
  assume "e_exec reference_engine c (DoltResetHard b) w = (r, w')"
  then show "case r of Inl _ \<Rightarrow> r_branch w' = r_branch w
      | Inr _ \<Rightarrow> b \<noteq> ''HEAD'' \<and> r_branch w b \<noteq> None \<longrightarrow> r_branch w' (r_session c w) = r_branch w b"
    by (auto simp: reference_engine_def r_move_def r_resolve_def split: option.splits if_splits)
next
  fix b w c cs w'
  assume "e_fetch_all reference_engine (QLogFirst b) w = (Inr (c # cs), w')" "b \<noteq> ''HEAD'' \<and> r_branch w b \<noteq> None"
  then show "r_branch w b = Some (commit_Hash c)"
    using r_log_first [of b w c cs w'] by (auto simp: reference_engine_def)
qed

lemma reference_read_laws: "read_laws reference_engine r_branch r_session"
proof -
  have "snd (r_query_strings c q w) = w" for c q w by (cases q) simp_all
  moreover have "snd (r_fetch_all q w) = w" for q w by (cases q) simp_all
  ultimately show ?thesis
    by (simp add: read_laws_def reference_engine_def r_branch_def [abs_def] r_session_def)
qed

definition no_hooks :: "'s hooks" where
  "no_hooks = \<lparr>onCommitRejectedInternal = None, onCommitRejected = None\<rparr>"

lemma hooks_ok_no_hooks: "hooks_ok B C no_hooks"
  by (simp add: hooks_ok_def hook_ok_def no_hooks_def)

definition sample_cwm :: "string \<Rightarrow> int64 \<Rightarrow> commitWithMeta" where
  "sample_cwm h t = \<lparr>cwm_commit = ref_commit h ''m'', cwm_hlc = \<lparr>Wall = t, Logical = 0, PeerID = ''p''\<rparr>\<rparr>"

text \<open>A replay on a linear history: \<open>main\<close> moves forward to the replayed commit.\<close>

definition linear_world :: rworld where
  "linear_world = sample_world\<lparr>r_branches := [(''main'', ''base0000'')]\<rparr>"

theorem replay_compare_and_swap_witness:
  "\<exists>n s'. run_state (replayToTempBranchThenUpdateMain reference_engine no_hooks ''base0000'' ''base0000''
       [sample_cwm ''local001'' 1]) (sample_state linear_world) = (Inr n, s') \<and>
     r_branch linear_world ''main'' = Some ''base0000'' \<and> r_branch (world s') ''main'' = Some ''local001''"
proof -
  let ?run = "run_state (replayToTempBranchThenUpdateMain reference_engine no_hooks ''base0000'' ''base0000''
       [sample_cwm ''local001'' 1]) (sample_state linear_world)"
  have main: "r_branch (world (sample_state linear_world)) ''main'' \<noteq> None"
    by (simp add: sample_state_def linear_world_def r_branch_def)
  obtain r s' where run: "?run = (r, s')" by fastforce
  note cas = replay_compare_and_swap [OF reference_branch_laws reference_read_laws hooks_ok_no_hooks main run]
  have "\<not> isl (fst ?run)" "r_branch (world (snd ?run)) ''main'' = Some ''local001''" by code_simp+
  then show ?thesis
    using cas run by (cases r) (auto simp: sample_state_def)
qed

end
