(* ===== verification/Database.thy ===== *)
theory Database
  imports Replay
begin

text \<open>
  The rest of the database handle: opening and initialising (\<open>core/db.go\<close>, \<open>core/utils.go\<close>),
  committing (\<open>core/sql.go\<close>, \<open>core/commit_sql_helpers.go\<close>), the \<open>swarm\<close> remote, the table-change
  callbacks and closing.

  The lemmas show, for every engine: what a successful commit has sent to it and that the
  metadata in the message carries the timestamp that the clock issued and verifies; which
  callbacks a commit starts; and, for engines whose remotes behave as documented, that the
  remote points to the swarm URL.
\<close>

section \<open>Opening\<close>

definition ensureDir :: "'w env \<Rightarrow> string \<Rightarrow> ('w, 'm, unit result) db_prog" where
  "ensureDir V dirName = do {
     r \<leftarrow> on_world (e_mkdir V dirName);
     case r of
       MkdirOk \<Rightarrow> return (Inr ())
     | MkdirError err \<Rightarrow> return (Inl err)
     | MkdirExist _ \<Rightarrow> do {
         info \<leftarrow> on_world (e_stat_is_dir V dirName);
         case info of
           Inl err \<Rightarrow> return (Inl err)
         | Inr isDir \<Rightarrow>
             if \<not> isDir then return (Inl (ErrText ''path exists but is not a directory'')) else return (Inr ()) } }"

definition conn_string :: "string \<Rightarrow> string \<Rightarrow> string \<Rightarrow> string" where
  "conn_string dir signerID dbName =
     (let s = ''file://'' @ dir @ ''?commitname='' @ signerID @ ''&commitemail='' @ signerID @
              ''@doltswarm&multistatements=true''
      in if dbName \<noteq> '''' then s @ ''&database='' @ dbName else s)"

text \<open>
  The error of a failed ping wraps the \<open>err\<close> of \<open>sql.Open\<close>, which is \<open>nil\<close> there.
\<close>

definition openDB :: "'w env \<Rightarrow> string \<Rightarrow> string \<Rightarrow> string \<Rightarrow> ('w, 'm, unit result) db_prog" where
  "openDB V dir signerID dbName =
     (if dir = '''' \<or> signerID = '''' then return (Inl (ErrText ''workingDir and signerID cannot be empty''))
      else do {
        r \<leftarrow> on_world (e_open V (conn_string dir signerID dbName));
        case r of
          Inl err \<Rightarrow> return (Inl (ErrWrap ''failed to open db'' err))
        | Inr _ \<Rightarrow> do {
            p \<leftarrow> on_world (e_ping V);
            case p of
              Inl _ \<Rightarrow> return (Inl (ErrText ''failed to ping db: %!w(<nil>)''))
            | Inr _ \<Rightarrow> return (Inr ()) } })"

text \<open>\<open>db.sqldb, err = openDB(...)\<close>: the field is \<open>nil\<close> when there is an error.\<close>

definition reopen :: "'w env \<Rightarrow> string \<Rightarrow> ('w, 'm, unit result) db_prog" where
  "reopen V dbName = do {
     dir \<leftarrow> gets workingDir;
     sg \<leftarrow> gets signer;
     r \<leftarrow> openDB V dir (sgn_GetID sg) dbName;
     _ \<leftarrow> modify (\<lambda>s. s\<lparr>sqldb := \<not> isl r\<rparr>);
     return r }"

text \<open>The part of \<open>Open\<close> that runs when the database already exists.\<close>

definition open_existing :: "'w env \<Rightarrow> ('w, 'm, unit result) db_prog" where
  "open_existing V = do {
     nm \<leftarrow> gets db_name;
     rc \<leftarrow> on_world (e_close V);
     case rc of
       Inl err \<Rightarrow> return (Inl (ErrWrap ''failed to close db connection after init local'' err))
     | Inr _ \<Rightarrow> do {
         _ \<leftarrow> modify (\<lambda>s. s\<lparr>initialized := True\<rparr>);
         ro \<leftarrow> reopen V nm;
         case ro of
           Inl err \<Rightarrow> return (Inl (ErrWrap ''failed to re-open db'' err))
         | Inr _ \<Rightarrow> do {
             ru \<leftarrow> exec V Pool (UseDatabase nm);
             case ru of
               Inl err \<Rightarrow> return (Inl (ErrWrap ''failed to use db'' err))
             | Inr _ \<Rightarrow> do {
                 rr \<leftarrow> exec V Pool (DoltRemoteRemove ''origin'');
                 case rr of
                   Inl err \<Rightarrow>
                     if \<not> str_contains (error_text err) ''unknown remote''
                     then return (Inl (ErrWrap ''failed to remove origin remote during init'' err))
                     else return (Inr ())
                 | Inr _ \<Rightarrow> return (Inr ()) } } } }"

definition open_body :: "'w env \<Rightarrow> ('w, 'm, unit result) db_prog" where
  "open_body V = do {
     t \<leftarrow> timeNow V;
     _ \<leftarrow> modify (\<lambda>s. s\<lparr>recHLC := NewHLC (sgn_GetID (signer s)) (UnixNano t)\<rparr>);
     dir \<leftarrow> gets workingDir;
     re \<leftarrow> ensureDir V dir;
     case re of
       Inl err \<Rightarrow> return (Inl (ErrWrap ''failed to open db'' err))
     | Inr _ \<Rightarrow> do {
         ro \<leftarrow> reopen V '''';
         case ro of
           Inl err \<Rightarrow> return (Inl (ErrWrap ''failed to open db'' err))
         | Inr _ \<Rightarrow> do {
             nm \<leftarrow> gets db_name;
             (foundDB, err) \<leftarrow> DatabaseExists V nm;
             if err = None \<and> foundDB then open_existing V else return (Inr ()) } } }"

text \<open>
  \<open>hasLog\<close> and \<open>sg\<close> say whether a logger and a signer are given. The text of a failed \<open>Abs\<close>
  contains the path that \<open>Abs\<close> has returned with its error.
\<close>

definition Open :: "'w env \<Rightarrow> string \<Rightarrow> string \<Rightarrow> bool \<Rightarrow> Signer option \<Rightarrow> 'w \<Rightarrow> 'w DB result \<times> 'w" where
  "Open V dir nm hasLog sg w =
     (if \<not> hasLog then (Inl (ErrText ''logger is nil''), w)
      else case sg of
        None \<Rightarrow> (Inl (ErrText ''signer is nil''), w)
      | Some signr \<Rightarrow>
          (case e_abs V dir of
             (wdir, Some err) \<Rightarrow> (Inl (ErrText (''failed to get absolute path for '' @ wdir @ '': '' @ error_text err)), w)
           | (wdir, None) \<Rightarrow>
               (let db = \<lparr>world = w, db_name = nm, workingDir = wdir, initialized = False, sqldb = False,
                          cancelled = False, signer = signr, recHLC = NewHLC (sgn_GetID signr) 0,
                          tableChangeCallbacks = [], notified = []\<rparr>
                in case run_state (open_body V) db of
                     (Inl err, db') \<Rightarrow> (Inl err, world db')
                   | (Inr _, db') \<Rightarrow> (Inr db', world db'))))"

section \<open>Initialisation\<close>

definition sign_tag :: "'w env \<Rightarrow> session \<Rightarrow> Signer \<Rightarrow> string \<Rightarrow> string \<Rightarrow> string \<Rightarrow> string \<Rightarrow> ('w, 'm, unit result) db_prog" where
  "sign_tag V tx sg author email signature commitHash =
     exec V tx (DoltTag (sgn_PublicKey sg) author email signature commitHash)"

definition InitLocal :: "'w env \<Rightarrow> ('w, 'm, unit result) db_prog" where
  "InitLocal V = do {
     nm \<leftarrow> gets db_name;
     sg \<leftarrow> gets signer;
     r1 \<leftarrow> exec V Pool (CreateDatabase nm);
     case r1 of
       Inl err \<Rightarrow> return (Inl (ErrWrap (''failed to exec '' @ sql_quote (sql_text (CreateDatabase nm))) err))
     | Inr _ \<Rightarrow> do {
     r2 \<leftarrow> exec V Pool CommitStmt;
     case r2 of
       Inl err \<Rightarrow> return (Inl (ErrWrap ''failed to commit db creation'' err))
     | Inr _ \<Rightarrow> do {
     r3 \<leftarrow> on_world (e_close V);
     case r3 of
       Inl err \<Rightarrow> return (Inl (ErrWrap ''failed to close db connection after init local'' err))
     | Inr _ \<Rightarrow> do {
     r4 \<leftarrow> reopen V nm;
     case r4 of
       Inl err \<Rightarrow> return (Inl (ErrWrap ''failed to re-open db after local init'' err))
     | Inr _ \<Rightarrow> do {
     r5 \<leftarrow> exec V Pool (UseDatabase nm);
     case r5 of
       Inl err \<Rightarrow> return (Inl (ErrWrap ''failed to use db after init local'' err))
     | Inr _ \<Rightarrow> do {
     r6 \<leftarrow> GetFirstCommit V;
     case r6 of
       Inl err \<Rightarrow> return (Inl (ErrWrap ''failed to retrieve init commit'' err))
     | Inr commit \<Rightarrow>
     (case sgn_Sign sg (commit_Hash commit) of
        Inl err \<Rightarrow> return (Inl (ErrWrap (''failed to sign init commit '' @ sql_quote (commit_Hash commit)) err))
      | Inr signature \<Rightarrow> do {
     r7 \<leftarrow> sign_tag V Pool sg (sgn_GetID sg) (sgn_GetID sg @ ''@doltswarm'') signature (commit_Hash commit);
     case r7 of
       Inl err \<Rightarrow> return (Inl (ErrWrap (''failed to create signature tag ('' @ signature @ '') for init commit ('' @
                    commit_Hash commit @ '')'') err))
     | Inr _ \<Rightarrow> do {
         _ \<leftarrow> modify (\<lambda>s. s\<lparr>initialized := True\<rparr>);
         return (Inr ()) } }) } } } } } }"

definition GetFilePath :: "('w, 'm) DB_scheme \<Rightarrow> string" where
  "GetFilePath db = workingDir db @ ''/'' @ db_name db"

text \<open>
  \<open>Close\<close>: no code adds to \<open>db.stoppers\<close> or to \<open>db.shutdownWg\<close>, so the loop over the stoppers
  is empty and the wait ends at once; \<open>Reconciler.Stop\<close> does nothing.
\<close>

definition DB_Close :: "'w env \<Rightarrow> ('w, 'm, unit result) db_prog" where
  "DB_Close V = do {
     _ \<leftarrow> modify (\<lambda>s. s\<lparr>cancelled := True\<rparr>);
     opened \<leftarrow> gets sqldb;
     if opened then on_world (e_close V) else return (Inr ()) }"

section \<open>Table-change callbacks\<close>

definition RegisterTableChangeCallback :: "'w env \<Rightarrow> string \<Rightarrow> string \<Rightarrow> ('w, 'm, unit) db_prog" where
  "RegisterTableChangeCallback V tableName n = do {
     guid \<leftarrow> on_world (e_xid V);
     let table = tableName @ ''_'' @ guid;
     modify (\<lambda>s. s\<lparr>tableChangeCallbacks := AList.update table n (tableChangeCallbacks s)\<rparr>) }"

definition triggerTableChangeCallbacks :: "'w env \<Rightarrow> string \<Rightarrow> ('w, 'm) DB_scheme \<Rightarrow> ('w, 'm) DB_scheme" where
  "triggerTableChangeCallbacks V tableName db =
     db\<lparr>notified := notified db @
        map snd (filter (\<lambda>(table, n). str_contains table tableName) (e_it_callbacks V (tableChangeCallbacks db)))\<rparr>"

section \<open>The swarm remote\<close>

definition SwarmDBFactoryScheme :: string where
  "SwarmDBFactoryScheme = ''swarm''"

definition swarm_url :: "RepoID \<Rightarrow> string" where
  "swarm_url repo =
     (if Org repo \<noteq> '''' then SwarmDBFactoryScheme @ ''://'' @ Org repo @ ''/'' @ RepoName repo
      else SwarmDBFactoryScheme @ ''://'' @ RepoName repo)"

text \<open>The \<open>switch\<close> over the outcome of the query for the current URL.\<close>

definition needRewrite :: "string option result \<Rightarrow> string \<Rightarrow> bool" where
  "needRewrite q url =
     (case q of
        Inr cur \<Rightarrow> cur \<noteq> Some url
      | Inl qerr \<Rightarrow>
          if is_no_rows qerr then False
          else if str_contains (str_lower (error_text qerr)) ''doesn't exist'' \<or>
                  str_contains (str_lower (error_text qerr)) ''unknown table'' \<or>
                  str_contains (str_lower (error_text qerr)) ''dolt_remotes''
          then True
          else True)"

definition add_remote :: "'w env \<Rightarrow> string \<Rightarrow> ('w, 'm, unit result) db_prog" where
  "add_remote V url = do {
     r \<leftarrow> exec V Pool (DoltRemoteAdd ''swarm'' url);
     case r of
       Inl err \<Rightarrow>
         if \<not> str_contains (error_text err) ''already exists''
         then return (Inl (ErrWrap ''failed to add swarm remote'' err)) else return (Inr ())
     | Inr _ \<Rightarrow> return (Inr ()) }"

definition EnsureSwarmRemote :: "'w env \<Rightarrow> RepoID \<Rightarrow> ('w, 'm, unit result) db_prog" where
  "EnsureSwarmRemote V repo =
     (if RepoName repo = '''' then return (Inl (ErrText ''repo name is required''))
      else do {
        let url = swarm_url repo;
        q \<leftarrow> on_world (e_query_string V Pool (QRemoteURL ''swarm''));
        if q = Inr (Some url) then return (Inr ())
        else if needRewrite q url
        then do {
          r \<leftarrow> exec V Pool (DoltRemoteRemove ''swarm'');
          case r of
            Inl err \<Rightarrow>
              if \<not> str_contains (error_text err) ''unknown remote''
              then return (Inl (ErrWrap ''failed to remove swarm remote'' err)) else add_remote V url
          | Inr _ \<Rightarrow> add_remote V url }
        else add_remote V url })"

section \<open>All commits\<close>

definition GetAllCommits :: "'w env \<Rightarrow> ('w, 'm, Commit list result) db_prog" where
  "GetAllCommits V = do {
     opened \<leftarrow> gets sqldb;
     r \<leftarrow> (if opened then getCommitsSince V Pool ''main'' '''' else return (Inl (ErrText '''')));
     case r of
       Inr commits \<Rightarrow> return (Inr commits)
     | Inl _ \<Rightarrow> do {
         r' \<leftarrow> on_world (e_fetch_all V (QLog ''main''));
         case r' of
           Inl err \<Rightarrow> return (Inl (ErrWrap ''failed to retrieve last commit hash'' err))
         | Inr commits \<Rightarrow> return (Inr commits) } }"

section \<open>Committing\<close>

definition getContentHash :: "'w env \<Rightarrow> session \<Rightarrow> ('w, 'm, string result) db_prog" where
  "getContentHash V q = do {
     r \<leftarrow> on_world (e_query_string V q (QHashOfDB ''WORKING''));
     return (scan_string r) }"

definition sign_metadata :: "'w env \<Rightarrow> string \<Rightarrow> HLCTimestamp \<Rightarrow> string \<Rightarrow> ('w, 'm, CommitMetadata result) db_prog" where
  "sign_metadata V msg hlc contentHash = do {
     sg \<leftarrow> gets signer;
     let author = sgn_GetID sg;
     let email = author @ ''@doltswarm'';
     commitDate \<leftarrow> timeNow V;
     return (case Sign (NewCommitMetadata msg hlc contentHash author email commitDate) sg of
               Inl err \<Rightarrow> Inl (ErrWrap ''failed to sign'' err)
             | Inr metadata \<Rightarrow> Inr metadata) }"

definition CreateCommitMetadata :: "'w env \<Rightarrow> string \<Rightarrow> HLCTimestamp \<Rightarrow> ('w, 'm, CommitMetadata result) db_prog" where
  "CreateCommitMetadata V msg hlc = do {
     rc \<leftarrow> getContentHash V Pool;
     case rc of
       Inl err \<Rightarrow> return (Inl (ErrWrap ''failed to get content hash'' err))
     | Inr contentHash \<Rightarrow> sign_metadata V msg hlc contentHash }"

text \<open>The end of both commit procedures: sign the hash and store the signature as a tag
  (the two error texts differ in a space).\<close>

definition tag_commit :: "'w env \<Rightarrow> session \<Rightarrow> Signer \<Rightarrow> string \<Rightarrow> string \<Rightarrow> string \<Rightarrow> string \<Rightarrow> ('w, 'm, string result) db_prog" where
  "tag_commit V tx sg author email sp commitHash =
     (case sgn_Sign sg commitHash of
        Inl err \<Rightarrow> return (Inl (ErrWrap (''failed to sign commit '' @ sql_quote commitHash) err))
      | Inr signature \<Rightarrow> do {
          rt \<leftarrow> sign_tag V tx sg author email signature commitHash;
          case rt of
            Inl err \<Rightarrow> return (Inl (ErrWrap (''failed to create signature tag ('' @ signature @ '')'' @ sp) err))
          | Inr _ \<Rightarrow> return (Inr commitHash) })"

definition doCommitWithMetadata ::
  "'w env \<Rightarrow> session \<Rightarrow> CommitMetadata \<Rightarrow> Signer option \<Rightarrow> ('w, 'm, string result) db_prog" where
  "doCommitWithMetadata V tx metadata signr =
     (case signr of
        None \<Rightarrow> return (Inl (ErrText ''no signer available''))
      | Some sg \<Rightarrow>
          (case Marshal metadata of
             Inl err \<Rightarrow> return (Inl (ErrWrap ''failed to marshal metadata'' err))
           | Inr metadataJSON \<Rightarrow> do {
               rc \<leftarrow> on_world (e_query_string V tx
                      (QCommitAll metadataJSON (meta_Author metadata) (meta_Email metadata) (meta_Date metadata)));
               case scan_string rc of
                 Inl err \<Rightarrow> return (Inl (ErrWrap ''failed to run commit procedure'' err))
               | Inr commitHash \<Rightarrow> tag_commit V tx sg (meta_Author metadata) (meta_Email metadata) '''' commitHash }))"

text \<open>The legacy commit formats the message into the statement without escaping it.\<close>

definition doCommit :: "'w env \<Rightarrow> session \<Rightarrow> string \<Rightarrow> Signer option \<Rightarrow> ('w, 'm, string result) db_prog" where
  "doCommit V tx msg signr =
     (case signr of
        None \<Rightarrow> return (Inl (ErrText ''no signer available''))
      | Some sg \<Rightarrow> do {
          t \<leftarrow> timeNow V;
          rc \<leftarrow> on_world (e_query_string V tx (QCommitAllRaw msg (sgn_GetID sg) (sgn_GetID sg @ ''@doltswarm'') t));
          case scan_string rc of
            Inl err \<Rightarrow> return (Inl (ErrWrap ''failed to run commit procedure'' err))
          | Inr commitHash \<Rightarrow> tag_commit V tx sg (sgn_GetID sg) (sgn_GetID sg @ ''@doltswarm'') '' '' commitHash })"

fun scan_tables :: "string option result list \<Rightarrow> string list result" where
  "scan_tables [] = Inr []"
| "scan_tables (row # rows) =
     (case scan_string row of
        Inl err \<Rightarrow> Inl (ErrWrap ''failed to scan table name'' err)
      | Inr tableName \<Rightarrow>
          (case scan_tables rows of Inl err \<Rightarrow> Inl err | Inr ts \<Rightarrow> Inr (tableName # ts)))"

definition getChangedTables :: "'w env \<Rightarrow> session \<Rightarrow> string \<Rightarrow> string \<Rightarrow> ('w, 'm, string list result) db_prog" where
  "getChangedTables V q frm to = do {
     r \<leftarrow> on_world (e_query_strings V q (QDiffSummary frm to));
     case r of
       Inl err \<Rightarrow> return (Inl (ErrWrap ''failed to query changed tables'' err))
     | Inr rows \<Rightarrow> return (scan_tables rows) }"

text \<open>The end of both operations: commit the transaction, then start the callbacks.\<close>

definition finish_commit :: "'w env \<Rightarrow> session \<Rightarrow> string list \<Rightarrow> string \<Rightarrow> ('w, 'm, string result) db_prog" where
  "finish_commit V tx changedTables commitHash = do {
     rt \<leftarrow> on_world (e_commit_tx V tx);
     case rt of
       Inl err \<Rightarrow> return (Inl (ErrWrap ''failed to commit transaction'' err))
     | Inr _ \<Rightarrow> do {
         _ \<leftarrow> modify (fold (triggerTableChangeCallbacks V) changedTables);
         return (Inr commitHash) } }"

definition commit_body :: "'w env \<Rightarrow> session \<Rightarrow> HLCTimestamp \<Rightarrow> string \<Rightarrow> ('w, 'm, string result) db_prog" where
  "commit_body V tx hlc commitMsg = do {
     sg \<leftarrow> gets signer;
     rm \<leftarrow> CreateCommitMetadata V commitMsg hlc;
     case rm of
       Inl err \<Rightarrow> return (Inl (ErrWrap ''failed to create commit metadata'' err))
     | Inr metadata \<Rightarrow> do {
         rc \<leftarrow> doCommitWithMetadata V tx metadata (Some sg);
         case rc of
           Inl err \<Rightarrow> return (Inl (ErrWrap ''failed to commit'' err))
         | Inr commitHash \<Rightarrow> do {
             rg \<leftarrow> getChangedTables V tx ''HEAD^'' ''HEAD'';
             case rg of
               Inl err \<Rightarrow> return (Inl (ErrWrap ''failed to get changed tables'' err))
             | Inr changedTables \<Rightarrow> finish_commit V tx changedTables commitHash } } }"

text \<open>\<open>defer tx.Rollback()\<close> around the body; both operations take their timestamp first.\<close>

definition with_tx :: "'w env \<Rightarrow> (session \<Rightarrow> ('w, 'm, string result) db_prog) \<Rightarrow> ('w, 'm, string result) db_prog" where
  "with_tx V body = do {
     rt \<leftarrow> on_world (e_begin_tx V);
     case rt of
       Inl err \<Rightarrow> return (Inl (ErrWrap ''failed to start transaction'' err))
     | Inr tx \<Rightarrow> do {
         r \<leftarrow> body tx;
         _ \<leftarrow> modify (\<lambda>s. s\<lparr>world := e_release V tx (world s)\<rparr>);
         return r } }"

definition DB_Commit :: "'w env \<Rightarrow> string \<Rightarrow> ('w, 'm, string result) db_prog" where
  "DB_Commit V commitMsg = do {
     hlc \<leftarrow> hlcNow V;
     with_tx V (\<lambda>tx. commit_body V tx hlc commitMsg) }"

type_synonym 'w ExecFunc = "session \<Rightarrow> 'w \<Rightarrow> unit result \<times> 'w"

definition exec_commit_body ::
  "'w env \<Rightarrow> 'w ExecFunc \<Rightarrow> session \<Rightarrow> HLCTimestamp \<Rightarrow> string \<Rightarrow> ('w, 'm, string result) db_prog" where
  "exec_commit_body V execFunc tx hlc commitMsg = do {
     sg \<leftarrow> gets signer;
     r1 \<leftarrow> exec V tx (DoltCheckout ''main'');
     case r1 of
       Inl err \<Rightarrow> return (Inl (ErrWrap ''failed to checkout main branch'' err))
     | Inr _ \<Rightarrow> do {
     r2 \<leftarrow> on_world (execFunc tx);
     case r2 of
       Inl err \<Rightarrow> return (Inl (ErrWrap ''failed to run exec function'' err))
     | Inr _ \<Rightarrow> do {
     r3 \<leftarrow> getChangedTables V tx ''WORKING'' ''HEAD'';
     case r3 of
       Inl err \<Rightarrow> return (Inl err)
     | Inr changedTables \<Rightarrow> do {
     r4 \<leftarrow> getContentHash V tx;
     case r4 of
       Inl err \<Rightarrow> return (Inl (ErrWrap ''failed to get content hash'' err))
     | Inr contentHash \<Rightarrow> do {
     r5 \<leftarrow> sign_metadata V commitMsg hlc contentHash;
     case r5 of
       Inl err \<Rightarrow> return (Inl err)
     | Inr metadata \<Rightarrow> do {
     r6 \<leftarrow> doCommitWithMetadata V tx metadata (Some sg);
     case r6 of
       Inl err \<Rightarrow> return (Inl (ErrWrap ''failed to commit'' err))
     | Inr commitHash \<Rightarrow> finish_commit V tx changedTables commitHash } } } } } }"

definition DB_ExecAndCommit :: "'w env \<Rightarrow> 'w ExecFunc \<Rightarrow> string \<Rightarrow> ('w, 'm, string result) db_prog" where
  "DB_ExecAndCommit V execFunc commitMsg = do {
     hlc \<leftarrow> hlcNow V;
     with_tx V (\<lambda>tx. exec_commit_body V execFunc tx hlc commitMsg) }"

section \<open>What a commit sends\<close>

text \<open>The signer and the clock of the reconciler stay as they are while the statements run.\<close>

definition fixed_fields :: "Signer \<Rightarrow> HLC \<Rightarrow> ('w, 'm) DB_scheme \<Rightarrow> bool" where
  "fixed_fields sg c s \<longleftrightarrow> signer s = sg \<and> recHLC s = c"

definition signed_metadata :: "Signer \<Rightarrow> string \<Rightarrow> HLCTimestamp \<Rightarrow> CommitMetadata \<Rightarrow> bool" where
  "signed_metadata sg msg hlc m \<longleftrightarrow>
     meta_Kind m = CommitKindUser \<and> meta_Message m = msg \<and> meta_HLC m = hlc \<and> meta_Author m = sgn_GetID sg \<and>
     meta_Email m = sgn_GetID sg @ ''@doltswarm'' \<and> (signer_correct sg \<longrightarrow> Verify m sg (sgn_PublicKey sg) = Inr ())"

text \<open>The engine has executed the commit procedure with the encoded metadata and returned \<open>h\<close>.\<close>

definition committed_as :: "'w env \<Rightarrow> CommitMetadata \<Rightarrow> string \<Rightarrow> bool" where
  "committed_as V m h \<longleftrightarrow> (\<exists>json tx w w'. Marshal m = Inr json \<and>
     e_query_string V tx (QCommitAll json (meta_Author m) (meta_Email m) (meta_Date m)) w = (Inr (Some h), w'))"

lemma keeps_fixed_world [keeps_intros]: "keeps (fixed_fields sg c) (on_world f)"
  by (rule keeps_on_world) (simp add: fixed_fields_def)

lemma fixed_trigger: "fixed_fields sg c s \<Longrightarrow> fixed_fields sg c (fold (triggerTableChangeCallbacks V) ts s)"
  by (induction ts arbitrary: s) (simp_all add: fixed_fields_def triggerTableChangeCallbacks_def)

lemma keeps_fixed_modify [keeps_intros]:
  "keeps (fixed_fields sg c) (modify (fold (triggerTableChangeCallbacks V) ts))"
  "keeps (fixed_fields sg c) (modify (\<lambda>s. s\<lparr>world := g (world s)\<rparr>))"
  "keeps (fixed_fields sg c) (gets f)"
  by (auto intro!: keepsI simp: fixed_trigger) (simp add: fixed_fields_def)

lemma Sign_signed:
  "Sign (NewCommitMetadata msg hlc ch (sgn_GetID sg) (sgn_GetID sg @ ''@doltswarm'') t) sg = Inr m \<Longrightarrow> signed_metadata sg msg hlc m"
  using Sign_Verify [of sg] Sign_fields
  by (fastforce simp: signed_metadata_def NewCommitMetadata_def Sign_def split: sum.splits)

lemma triple_sign_metadata:
  "triple (fixed_fields sg c) (sign_metadata V msg hlc ch)
     (\<lambda>r s. fixed_fields sg c s \<and> (case r of Inl _ \<Rightarrow> True | Inr m \<Rightarrow> signed_metadata sg msg hlc m))"
  by (rule tripleI)
    (auto simp: sign_metadata_def run_state_bind fixed_fields_def Let_def Sign_signed split: prod.splits sum.splits)

lemma triple_doCommitWithMetadata:
  "triple (fixed_fields sg c) (doCommitWithMetadata V tx m sgo)
     (\<lambda>r s. fixed_fields sg c s \<and> (case r of Inl _ \<Rightarrow> True | Inr h \<Rightarrow> committed_as V m h))"
proof (rule tripleI)
  fix s r s'
  assume P: "fixed_fields sg c s" and run: "run_state (doCommitWithMetadata V tx m sgo) s = (r, s')"
  have "keeps (fixed_fields sg c) (doCommitWithMetadata V tx m sgo)"
    unfolding doCommitWithMetadata_def tag_commit_def sign_tag_def by (intro keeps_intros)
  from keepsD [OF this P run] have "fixed_fields sg c s'" .
  moreover have "committed_as V m h" if "r = Inr h" for h
    using run that unfolding committed_as_def
    by (auto simp: doCommitWithMetadata_def tag_commit_def sign_tag_def run_state_bind scan_string_def
        split: sum.splits option.splits prod.splits)
  ultimately show "fixed_fields sg c s' \<and> (case r of Inl _ \<Rightarrow> True | Inr h \<Rightarrow> committed_as V m h)"
    by (simp split: sum.splits)
qed

definition sends_signed :: "'w env \<Rightarrow> Signer \<Rightarrow> string \<Rightarrow> HLCTimestamp \<Rightarrow> string result \<Rightarrow> bool" where
  "sends_signed V sg msg hlc r \<longleftrightarrow>
     (case r of Inl _ \<Rightarrow> True | Inr h \<Rightarrow> \<exists>m. signed_metadata sg msg hlc m \<and> committed_as V m h)"

lemma sends_signed_Inl [simp]: "sends_signed V sg msg hlc (Inl e)"
  by (simp add: sends_signed_def)

lemma triple_fixed_keeps:
  "keeps (fixed_fields sg c) m \<Longrightarrow> triple (\<lambda>s. fixed_fields sg c s \<and> R) m (\<lambda>_ s. fixed_fields sg c s \<and> R)"
  by (auto simp: keeps_def triple_def)

lemma triple_finish_commit:
  assumes "sends_signed V sg msg hlc (Inr h)"
  shows "triple (fixed_fields sg c) (finish_commit V tx ts h) (\<lambda>r s. fixed_fields sg c s \<and> sends_signed V sg msg hlc r)"
proof (rule tripleI)
  fix s r s'
  assume P: "fixed_fields sg c s" and run: "run_state (finish_commit V tx ts h) s = (r, s')"
  have "keeps (fixed_fields sg c) (finish_commit V tx ts h)"
    unfolding finish_commit_def by (intro keeps_intros)
  from keepsD [OF this P run] run assms
  show "fixed_fields sg c s' \<and> sends_signed V sg msg hlc r"
    by (auto simp: finish_commit_def run_state_bind split: prod.splits sum.splits)
qed

lemma fixed_return: "triple (\<lambda>s. fixed_fields sg c s \<and> R) (return (Inl e)) (\<lambda>r s. fixed_fields sg c s \<and> sends_signed V sg msg hlc r)"
  by (rule triple_return) simp

lemma triple_commit_tail:
  assumes "signed_metadata sg msg hlc m"
    and rest: "\<And>h. sends_signed V sg msg hlc (Inr h) \<Longrightarrow>
      triple (fixed_fields sg c) (k h) (\<lambda>r s. fixed_fields sg c s \<and> sends_signed V sg msg hlc r)"
  shows "triple (fixed_fields sg c)
    (do { rc \<leftarrow> doCommitWithMetadata V tx m sgo;
          case rc of Inl err \<Rightarrow> return (Inl (ErrWrap ''failed to commit'' err)) | Inr h \<Rightarrow> k h })
    (\<lambda>r s. fixed_fields sg c s \<and> sends_signed V sg msg hlc r)"
proof (rule triple_bind [OF triple_doCommitWithMetadata], rule triple_sum)
  fix r :: "string result" and e
  show "triple (\<lambda>s. fixed_fields sg c s \<and> (case r of Inl _ \<Rightarrow> True | Inr h \<Rightarrow> committed_as V m h))
      (return (Inl (ErrWrap ''failed to commit'' e))) (\<lambda>r s. fixed_fields sg c s \<and> sends_signed V sg msg hlc r)"
    by (rule fixed_return)
next
  fix r :: "string result" and h
  assume "r = Inr h"
  then have "(case r of Inl _ \<Rightarrow> True | Inr h \<Rightarrow> committed_as V m h) \<Longrightarrow> sends_signed V sg msg hlc (Inr h)"
    using assms(1) by (auto simp: sends_signed_def)
  then show "triple (\<lambda>s. fixed_fields sg c s \<and> (case r of Inl _ \<Rightarrow> True | Inr h \<Rightarrow> committed_as V m h)) (k h)
      (\<lambda>r s. fixed_fields sg c s \<and> sends_signed V sg msg hlc r)"
    using rest [of h] by (auto simp: triple_def)
qed

lemma fixed_bind:
  assumes "keeps (fixed_fields sg c) m" "\<And>x. triple (fixed_fields sg c) (f x) Q"
  shows "triple (fixed_fields sg c) (State_Monad.bind m f) Q"
  using assms by (auto intro: triple_bind [where R = "\<lambda>_. fixed_fields sg c"] simp: keeps_def)

lemma fixed_error: "triple (fixed_fields sg c) (return (Inl e)) (\<lambda>r s. fixed_fields sg c s \<and> sends_signed V sg msg hlc r)"
  by (rule triple_return) simp

lemma triple_CreateCommitMetadata:
  "triple (fixed_fields sg c) (CreateCommitMetadata V msg hlc)
     (\<lambda>r s. fixed_fields sg c s \<and> (case r of Inl _ \<Rightarrow> True | Inr m \<Rightarrow> signed_metadata sg msg hlc m))"
  unfolding CreateCommitMetadata_def getContentHash_def
  by (rule fixed_bind triple_sum triple_sign_metadata keeps_intros triple_return | simp)+

lemma triple_signed_rest:
  fixes p :: "('w, 'm, CommitMetadata result) db_prog"
  assumes sign: "triple (fixed_fields sg c) p
      (\<lambda>r s. fixed_fields sg c s \<and> (case r of Inl _ \<Rightarrow> True | Inr m \<Rightarrow> signed_metadata sg msg hlc m))"
    and rest: "\<And>m. signed_metadata sg msg hlc m \<Longrightarrow>
      triple (fixed_fields sg c) (k m) (\<lambda>r s. fixed_fields sg c s \<and> sends_signed V sg msg hlc r)"
  shows "triple (fixed_fields sg c)
    (do { rm \<leftarrow> p; case rm of Inl err \<Rightarrow> return (Inl (g err)) | Inr m \<Rightarrow> k m })
    (\<lambda>r s. fixed_fields sg c s \<and> sends_signed V sg msg hlc r)"
proof (rule triple_bind [OF sign], rule triple_sum)
  fix r :: "CommitMetadata result" and m
  assume "r = Inr m"
  then show "triple (\<lambda>s. fixed_fields sg c s \<and> (case r of Inl _ \<Rightarrow> True | Inr m \<Rightarrow> signed_metadata sg msg hlc m)) (k m)
      (\<lambda>r s. fixed_fields sg c s \<and> sends_signed V sg msg hlc r)"
    using rest [of m] by (auto simp: triple_def)
qed (rule fixed_return)

lemma keeps_getChangedTables: "keeps (fixed_fields sg c) (getChangedTables V q f t)"
  unfolding getChangedTables_def by (intro keeps_intros)

lemma keeps_getContentHash: "keeps (fixed_fields sg c) (getContentHash V q)"
  unfolding getContentHash_def by (intro keeps_intros)

lemma triple_gets_signer:
  "triple (fixed_fields sg c) (k sg) Q \<Longrightarrow> triple (fixed_fields sg c) (State_Monad.bind (gets signer) k) Q"
  by (auto simp: triple_def run_state_bind fixed_fields_def)

lemma triple_commit_body:
  "triple (fixed_fields sg c) (commit_body V tx hlc msg) (\<lambda>r s. fixed_fields sg c s \<and> sends_signed V sg msg hlc r)"
  unfolding commit_body_def
  by (intro triple_gets_signer triple_signed_rest [OF triple_CreateCommitMetadata] triple_commit_tail
      fixed_bind [OF keeps_getChangedTables] triple_sum fixed_error triple_finish_commit)

lemma triple_exec_commit_body:
  "triple (fixed_fields sg c) (exec_commit_body V f tx hlc msg) (\<lambda>r s. fixed_fields sg c s \<and> sends_signed V sg msg hlc r)"
  unfolding exec_commit_body_def
  by (intro triple_gets_signer fixed_bind [OF keeps_fixed_world] fixed_bind [OF keeps_getContentHash]
      triple_signed_rest [OF triple_sign_metadata] triple_commit_tail
      fixed_bind [OF keeps_getChangedTables] triple_sum fixed_error triple_finish_commit)

lemma triple_with_tx:
  assumes "\<And>tx. triple (fixed_fields sg c) (body tx) (\<lambda>r s. fixed_fields sg c s \<and> sends_signed V sg msg hlc r)"
  shows "triple (fixed_fields sg c) (with_tx V body) (\<lambda>r s. fixed_fields sg c s \<and> sends_signed V sg msg hlc r)"
  unfolding with_tx_def
  by (rule fixed_bind [OF keeps_fixed_world] triple_sum fixed_error triple_bind [OF assms]
      triple_bind [OF triple_fixed_keeps [OF keeps_fixed_modify(2)]] triple_return | assumption)+

text \<open>
  C23: a commit is announced by what it stores. Whatever the engine does, if \<open>Commit\<close> or
  \<open>ExecAndCommit\<close> returns a hash, the engine has returned that hash for the commit procedure,
  executed with the encoding of metadata that has the given message, the timestamp issued by
  the clock and the author of the signer, and that verifies under the key of the signer. The
  clock has advanced by that one timestamp whether or not the commit succeeds.
\<close>

theorem commit_sends_signed_metadata:
  assumes run: "(r, s') \<in> {run_state (DB_Commit V msg) s, run_state (DB_ExecAndCommit V f msg) s}"
    and issued: "Now (recHLC s) (UnixNano (fst (e_time V (world s)))) = (ts, c)"
  shows "recHLC s' = c \<and> signer s' = signer s \<and>
    (\<forall>h. r = Inr h \<longrightarrow> (\<exists>m json tx w w'. Marshal m = Inr json \<and>
       e_query_string V tx (QCommitAll json (meta_Author m) (meta_Email m) (meta_Date m)) w = (Inr (Some h), w') \<and>
       meta_Kind m = CommitKindUser \<and> meta_Message m = msg \<and> meta_HLC m = ts \<and> meta_Author m = sgn_GetID (signer s) \<and>
       (signer_correct (signer s) \<longrightarrow> Verify m (signer s) (sgn_PublicKey (signer s)) = Inr ())))"
proof -
  let ?sg = "signer s"
  obtain t w where t: "e_time V (world s) = (t, w)" by fastforce
  let ?s1 = "s\<lparr>world := w, recHLC := c\<rparr>"
  have P: "fixed_fields ?sg c ?s1" by (simp add: fixed_fields_def)
  have hlc: "run_state (hlcNow V) s = (ts, ?s1)"
    using issued t by (simp add: hlcNow_def run_state_bind)
  have "run_state (with_tx V (\<lambda>tx. commit_body V tx ts msg)) ?s1 = (r, s') \<or>
      run_state (with_tx V (\<lambda>tx. exec_commit_body V f tx ts msg)) ?s1 = (r, s')"
    using run hlc by (auto simp: DB_Commit_def DB_ExecAndCommit_def run_state_bind)
  moreover have t1: "triple (fixed_fields ?sg c) (with_tx V (\<lambda>tx. commit_body V tx ts msg))
      (\<lambda>r s. fixed_fields ?sg c s \<and> sends_signed V ?sg msg ts r)"
    and t2: "triple (fixed_fields ?sg c) (with_tx V (\<lambda>tx. exec_commit_body V f tx ts msg))
      (\<lambda>r s. fixed_fields ?sg c s \<and> sends_signed V ?sg msg ts r)"
    by (intro triple_with_tx triple_commit_body triple_exec_commit_body)+
  ultimately have "fixed_fields ?sg c s' \<and> sends_signed V ?sg msg ts r"
    using tripleD [OF t1 P] tripleD [OF t2 P] by blast
  then show ?thesis
    by (fastforce simp: fixed_fields_def sends_signed_def signed_metadata_def committed_as_def)
qed

lemma sample_signer_correct: "signer_correct sample_signer"
  by (simp add: signer_correct_def sample_signer_def)

lemma Sign_sample:
  "0 \<le> time_year (meta_Date m) \<Longrightarrow> time_year (meta_Date m) \<le> 9999 \<Longrightarrow>
     Sign m sample_signer = Inr (m\<lparr>meta_Signature := ''sig''\<rparr>)"
  using Marshal_total [of "m\<lparr>meta_Signature := ''''\<rparr>"]
  by (auto simp: Sign_def SignableData_Marshal Marshal_def sample_signer_def split: sum.splits)

lemma ref_CreateCommitMetadata:
  assumes "signer s = sample_signer" "0 \<le> time_year (r_clock (world s))" "time_year (r_clock (world s)) \<le> 9999"
  shows "\<exists>m json w. run_state (CreateCommitMetadata reference_engine msg hlc) s = (Inr m, s\<lparr>world := w\<rparr>) \<and> Marshal m = Inr json"
proof -
  let ?m = "NewCommitMetadata msg hlc ''content'' ''p'' ''p@doltswarm'' (r_clock (world s))\<lparr>meta_Signature := ''sig''\<rparr>"
  have "Sign (NewCommitMetadata msg hlc ''content'' ''p'' ''p@doltswarm'' (r_clock (world s))) sample_signer = Inr ?m"
    using assms(2,3) by (intro Sign_sample) (simp_all add: NewCommitMetadata_def)
  moreover have "sgn_GetID sample_signer = ''p''" by (simp add: sample_signer_def)
  moreover obtain json where "Marshal ?m = Inr json"
    using assms(2,3) Marshal_total [of ?m] by (auto simp: NewCommitMetadata_def)
  ultimately show ?thesis
    using assms(1)
    by (simp add: CreateCommitMetadata_def getContentHash_def sign_metadata_def run_state_bind reference_engine_def
        scan_string_def Let_def) blast
qed

lemma ref_doCommitWithMetadata:
  assumes "Marshal m = Inr json"
  shows "\<exists>h w. run_state (doCommitWithMetadata reference_engine tx m (Some sample_signer)) s = (Inr h, s\<lparr>world := w\<rparr>)"
  using assms
  by (simp add: doCommitWithMetadata_def tag_commit_def sign_tag_def run_state_bind reference_engine_def scan_string_def
      sample_signer_def split: prod.splits) blast

lemma ref_commit_body:
  assumes "signer s = sample_signer" "0 \<le> time_year (r_clock (world s))" "time_year (r_clock (world s)) \<le> 9999"
  shows "\<exists>h s'. run_state (commit_body reference_engine tx hlc msg) s = (Inr h, s')"
proof -
  obtain m json w where m: "run_state (CreateCommitMetadata reference_engine msg hlc) s = (Inr m, s\<lparr>world := w\<rparr>)" "Marshal m = Inr json"
    using ref_CreateCommitMetadata [OF assms] by blast
  obtain h w' where "run_state (doCommitWithMetadata reference_engine tx m (Some sample_signer)) (s\<lparr>world := w\<rparr>) = (Inr h, s\<lparr>world := w, world := w'\<rparr>)"
    using ref_doCommitWithMetadata [OF m(2)] by blast
  then show ?thesis
    using m(1) assms(1)
    by (simp add: commit_body_def run_state_bind getChangedTables_def finish_commit_def) (simp add: reference_engine_def)
qed

lemma sample_commit_succeeds:
  "\<exists>h s'. run_state (DB_Commit reference_engine msg) (sample_state sample_world) = (Inr h, s')"
proof -
  let ?ts = "Now (NewHLC ''p'' 0) (UnixNano 0)"
  let ?s = "sample_state (sample_world\<lparr>r_clock := 1, r_next := 1\<rparr>)\<lparr>recHLC := snd ?ts\<rparr>"
  have y: "0 \<le> time_year 1" "time_year 1 \<le> 9999" by code_simp+
  have "\<exists>h s'. run_state (commit_body reference_engine 1 (fst ?ts) msg) ?s = (Inr h, s')"
    by (rule ref_commit_body) (simp_all add: sample_state_def y)
  then show ?thesis
    by (auto simp: DB_Commit_def hlcNow_def with_tx_def run_state_bind case_prod_beta sample_state_def sample_world_def
        reference_engine_def [THEN arg_cong [of _ _ e_time]] reference_engine_def [THEN arg_cong [of _ _ e_begin_tx]])
qed

theorem commit_sends_signed_metadata_witness:
  "\<exists>h s' m json tx w w'. run_state (DB_Commit reference_engine ''add row'') (sample_state sample_world) = (Inr h, s') \<and>
     e_query_string reference_engine tx (QCommitAll json (meta_Author m) (meta_Email m) (meta_Date m)) w = (Inr (Some h), w') \<and>
     Marshal m = Inr json \<and> meta_Message m = ''add row'' \<and> meta_Author m = ''p'' \<and>
     Verify m sample_signer (sgn_PublicKey sample_signer) = Inr ()"
proof -
  let ?run = "run_state (DB_Commit reference_engine ''add row'') (sample_state sample_world)"
  let ?s = "sample_state sample_world"
  obtain r s' where run: "?run = (r, s')" by fastforce
  obtain ts c where issued: "Now (recHLC ?s) (UnixNano (fst (e_time reference_engine (world ?s)))) = (ts, c)" by fastforce
  obtain h where h: "r = Inr h" using run sample_commit_succeeds [of "''add row''"] by auto
  have sg: "signer ?s = sample_signer" "sgn_GetID sample_signer = ''p''" by (simp_all add: sample_state_def sample_signer_def)
  have "(r, s') \<in> {?run, run_state (DB_ExecAndCommit reference_engine (\<lambda>_ w. (Inr (), w)) ''add row'') ?s}" using run by simp
  note sent = commit_sends_signed_metadata [OF this issued, THEN conjunct2, THEN conjunct2, rule_format, OF h, unfolded sg]
  from sent obtain m json tx w w' where "Marshal m = Inr json" "meta_Message m = ''add row''" "meta_Author m = ''p''"
    "e_query_string reference_engine tx (QCommitAll json (meta_Author m) (meta_Email m) (meta_Date m)) w = (Inr (Some h), w')"
    "Verify m sample_signer (sgn_PublicKey sample_signer) = Inr ()"
    using sample_signer_correct by (elim exE conjE) simp
  with run h show ?thesis by blast
qed

section \<open>Opening\<close>



lemma openDB_ok:
  assumes "run_state (openDB V dir sid nm) s = (Inr u, s')"
  shows "dir \<noteq> '''' \<and> sid \<noteq> '''' \<and> (\<exists>w. s' = s\<lparr>world := w\<rparr>)"
  using assms by (auto simp: openDB_def run_state_bind split: if_splits sum.splits prod.splits)

lemma reopen_ok:
  assumes "run_state (reopen V nm) s = (Inr u, s')"
  shows "workingDir s \<noteq> '''' \<and> sgn_GetID (signer s) \<noteq> '''' \<and> (\<exists>w. s' = s\<lparr>world := w, sqldb := True\<rparr>)"
  using assms by (auto simp: reopen_def run_state_bind dest!: openDB_ok split: prod.splits)

lemma open_existing_ok:
  assumes "run_state (open_existing V) s = (Inr u, s')"
  shows "\<exists>w. s' = s\<lparr>initialized := True, sqldb := True, world := w\<rparr>"
  using assms
  by (auto simp: open_existing_def run_state_bind split: if_splits sum.splits prod.splits dest!: reopen_ok)

lemma ensureDir_world:
  assumes "run_state (ensureDir V d) s = (r, s')"
  shows "\<exists>w. s' = s\<lparr>world := w\<rparr>"
  using assms
  by (auto simp: ensureDir_def run_state_bind split: if_splits sum.splits prod.splits mkdir_result.splits)

lemma DatabaseExists_world: "\<exists>w. snd (run_state (DatabaseExists V nm) s) = s\<lparr>world := w\<rparr>"
  by (auto simp: DatabaseExists_def run_state_bind split: prod.splits sum.splits)

lemma open_body_ok:
  assumes run: "run_state (open_body V) s = (Inr u, s')"
  shows "workingDir s \<noteq> '''' \<and> sgn_GetID (signer s) \<noteq> '''' \<and> sqldb s' \<and> (initialized s \<longrightarrow> initialized s') \<and>
    signer s' = signer s \<and> db_name s' = db_name s \<and> workingDir s' = workingDir s \<and> cancelled s' = cancelled s \<and>
    tableChangeCallbacks s' = tableChangeCallbacks s \<and> peerID (recHLC s') = sgn_GetID (signer s)"
proof -
  obtain t w where t: "e_time V (world s) = (t, w)" by fastforce
  let ?s1 = "s\<lparr>world := w, recHLC := NewHLC (sgn_GetID (signer s)) (UnixNano t)\<rparr>"
  obtain s2 where e: "run_state (ensureDir V (workingDir s)) ?s1 = (Inr (), s2)"
    using run t by (auto simp: open_body_def run_state_bind split: sum.splits prod.splits)
  obtain w2 where s2: "s2 = ?s1\<lparr>world := w2\<rparr>" using ensureDir_world [OF e] by blast
  obtain s3 where r: "run_state (reopen V '''') s2 = (Inr (), s3)"
    using run t e by (auto simp: open_body_def run_state_bind split: sum.splits prod.splits)
  obtain w3 where s3: "s3 = s2\<lparr>world := w3, sqldb := True\<rparr>" "workingDir s2 \<noteq> ''''" "sgn_GetID (signer s2) \<noteq> ''''"
    using reopen_ok [OF r] by blast
  obtain fnd err s4 where d: "run_state (DatabaseExists V (db_name s3)) s3 = ((fnd, err), s4)" by (metis surj_pair)
  obtain w4 where s4: "s4 = s3\<lparr>world := w4\<rparr>" using DatabaseExists_world [of V "db_name s3" s3] d by auto
  have "run_state (if err = None \<and> fnd then open_existing V else return (Inr ())) s4 = (Inr u, s')"
    using run t e r d by (simp add: open_body_def run_state_bind)
  then have "s' = s4 \<or> (\<exists>w. s' = s4\<lparr>initialized := True, sqldb := True, world := w\<rparr>)"
    by (cases "err = None \<and> fnd") (use open_existing_ok in auto)
  then show ?thesis using s2 s3 s4 by (auto simp: NewHLC_def)
qed

text \<open>
  C36: \<open>Open\<close> succeeds only with a logger and with a signer that has an identity, and for a
  directory with an absolute path. The handle it returns is connected, carries the given name
  and signer, has a clock that issues timestamps under the identity of the signer, and has no
  callbacks yet.
\<close>

theorem Open_ok:
  assumes "Open V dir nm hasLog sg w = (Inr db, w')"
  shows "hasLog \<and> sg = Some (signer db) \<and> e_abs V dir = (workingDir db, None) \<and> workingDir db \<noteq> '''' \<and>
    sgn_GetID (signer db) \<noteq> '''' \<and> peerID (recHLC db) = sgn_GetID (signer db) \<and> db_name db = nm \<and>
    sqldb db \<and> \<not> cancelled db \<and> tableChangeCallbacks db = [] \<and> world db = w'"
proof -
  obtain signr where sg: "sg = Some signr" and log: hasLog
    using assms by (cases sg) (auto simp: Open_def split: if_splits)
  obtain wdir where abs: "e_abs V dir = (wdir, None)"
    using assms sg log by (auto simp: Open_def split: prod.splits option.splits)
  show ?thesis
    using assms sg log abs by (auto simp: Open_def Let_def split: prod.splits sum.splits dest!: open_body_ok)
qed

theorem Open_ok_witness:
  "\<exists>db w'. Open reference_engine ''/tmp/repo'' ''repo'' True (Some sample_signer) sample_world = (Inr db, w') \<and>
     sqldb db \<and> signer db = sample_signer \<and> peerID (recHLC db) = ''p''"
proof -
  let ?run = "Open reference_engine ''/tmp/repo'' ''repo'' True (Some sample_signer) sample_world"
  obtain r w' where run: "?run = (r, w')" by fastforce
  have "\<not> isl (fst ?run)" by code_simp
  then obtain db where db: "r = Inr db" using run by (cases r) auto
  have id: "sgn_GetID sample_signer = ''p''" by (simp add: sample_signer_def)
  from Open_ok [OF run [unfolded db]] run db id show ?thesis by auto
qed

section \<open>The swarm remote\<close>

text \<open>
  What is documented of remotes, over the URL \<open>R\<close> of the remote \<open>swarm\<close>: the query returns it,
  or \<open>sql.ErrNoRows\<close> when there is none, or some other error; removing fails with ``unknown
  remote'' when there is none; adding fails with ``already exists'' when there is one; an
  operation that fails changes nothing.
\<close>

definition remote_laws :: "'w env \<Rightarrow> ('w \<Rightarrow> string option) \<Rightarrow> bool" where
  "remote_laws V R \<longleftrightarrow>
     (\<forall>w r w'. e_query_string V Pool (QRemoteURL ''swarm'') w = (r, w') \<longrightarrow> R w' = R w \<and>
        (case r of Inl e \<Rightarrow> is_no_rows e \<longrightarrow> R w = None | Inr u \<Rightarrow> R w = u)) \<and>
     (\<forall>w r w'. e_exec V Pool (DoltRemoteRemove ''swarm'') w = (r, w') \<longrightarrow>
        (case r of Inl e \<Rightarrow> R w' = R w \<and> (str_contains (error_text e) ''unknown remote'' \<longrightarrow> R w = None) | Inr _ \<Rightarrow> R w' = None)) \<and>
     (\<forall>url w r w'. e_exec V Pool (DoltRemoteAdd ''swarm'' url) w = (r, w') \<longrightarrow>
        (case r of Inl e \<Rightarrow> R w' = R w \<and> (str_contains (error_text e) ''already exists'' \<longrightarrow> R w \<noteq> None) | Inr _ \<Rightarrow> R w' = Some url))"

lemma remote_lawsD:
  assumes "remote_laws V R"
  shows query_remote: "e_query_string V Pool (QRemoteURL ''swarm'') w = (r, w') \<Longrightarrow> R w' = R w \<and>
      (case r of Inl e \<Rightarrow> is_no_rows e \<longrightarrow> R w = None | Inr u \<Rightarrow> R w = u)"
    and remove_remote: "e_exec V Pool (DoltRemoteRemove ''swarm'') w = (r', w') \<Longrightarrow>
      (case r' of Inl e \<Rightarrow> R w' = R w \<and> (str_contains (error_text e) ''unknown remote'' \<longrightarrow> R w = None) | Inr _ \<Rightarrow> R w' = None)"
    and add_remote_law: "e_exec V Pool (DoltRemoteAdd ''swarm'' url) w = (r', w') \<Longrightarrow>
      (case r' of Inl e \<Rightarrow> R w' = R w \<and> (str_contains (error_text e) ''already exists'' \<longrightarrow> R w \<noteq> None) | Inr _ \<Rightarrow> R w' = Some url)"
  using assms unfolding remote_laws_def by blast+

lemma triple_add_remote:
  assumes "remote_laws V R"
  shows "triple (\<lambda>s. R (world s) = None) (add_remote V url) (\<lambda>r s. r = Inr () \<longrightarrow> R (world s) = Some url)"
  by (rule tripleI)
    (auto simp: add_remote_def run_state_bind split: sum.splits prod.splits if_splits dest!: add_remote_law [OF assms])

text \<open>
  C35: \<open>EnsureSwarmRemote\<close> establishes the remote. If it reports success, the remote \<open>swarm\<close>
  has the URL of the repository, whatever it was before and whether or not the query for the
  current URL worked; when it had that URL already, only the query is executed.
\<close>

theorem EnsureSwarmRemote_establishes:
  assumes "remote_laws V R" and run: "run_state (EnsureSwarmRemote V repo) s = (Inr (), s')"
  shows "R (world s') = Some (swarm_url repo) \<and> RepoName repo \<noteq> '''' \<and>
    (fst (e_query_string V Pool (QRemoteURL ''swarm'') (world s)) = Inr (Some (swarm_url repo)) \<longrightarrow>
       s' = s\<lparr>world := snd (e_query_string V Pool (QRemoteURL ''swarm'') (world s))\<rparr>)"
proof -
  let ?url = "swarm_url repo"
  obtain q w1 where q: "e_query_string V Pool (QRemoteURL ''swarm'') (world s) = (q, w1)" by fastforce
  have name: "RepoName repo \<noteq> ''''" using run by (auto simp: EnsureSwarmRemote_def)
  note qlaw = query_remote [OF assms(1) q]
  have "R (world s') = Some ?url" if neq: "q \<noteq> Inr (Some ?url)"
  proof -
    have "\<exists>s1. R (world s1) = None \<and> run_state (add_remote V ?url) s1 = (Inr (), s')"
    proof (cases "needRewrite q ?url")
      case True
      obtain r w2 where r: "e_exec V Pool (DoltRemoteRemove ''swarm'') w1 = (r, w2)" by fastforce
      show ?thesis
        using run name neq q True r remove_remote [OF assms(1) r] qlaw
        by (auto simp: EnsureSwarmRemote_def run_state_bind Let_def split: sum.splits if_splits)
          (metis DB.select_convs(1) DB.surjective DB.update_convs(1))+
    next
      case False
      then have "R w1 = None" using qlaw neq by (auto simp: needRewrite_def split: sum.splits if_splits)
      then show ?thesis
        using run name neq q False by (auto simp: EnsureSwarmRemote_def run_state_bind Let_def intro!: exI [of _ "s\<lparr>world := w1\<rparr>"])
    qed
    then show ?thesis using tripleD [OF triple_add_remote [OF assms(1)]] by blast
  qed
  moreover have "R (world s') = Some ?url \<and> s' = s\<lparr>world := w1\<rparr>" if "q = Inr (Some ?url)"
    using run name q qlaw that by (auto simp: EnsureSwarmRemote_def run_state_bind Let_def)
  ultimately show ?thesis using name q by auto
qed

lemma reference_remote_laws: "remote_laws reference_engine r_remote"
  by (auto simp: remote_laws_def reference_engine_def r_row_def is_no_rows_def split: option.splits if_splits)

definition sample_repo :: RepoID where
  "sample_repo = \<lparr>Org = ''acme'', RepoName = ''repo''\<rparr>"

theorem EnsureSwarmRemote_establishes_witness:
  "\<exists>s'. run_state (EnsureSwarmRemote reference_engine sample_repo) (sample_state (sample_world\<lparr>r_remote := Some ''swarm://old''\<rparr>)) = (Inr (), s') \<and>
     r_remote (world s') = Some ''swarm://acme/repo''"
proof -
  let ?run = "run_state (EnsureSwarmRemote reference_engine sample_repo) (sample_state (sample_world\<lparr>r_remote := Some ''swarm://old''\<rparr>))"
  obtain s' where run: "?run = (Inr (), s')"
    by (simp add: EnsureSwarmRemote_def sample_repo_def run_state_bind Let_def swarm_url_def SwarmDBFactoryScheme_def
        reference_engine_def sample_state_def r_row_def needRewrite_def add_remote_def)
  from EnsureSwarmRemote_establishes [OF reference_remote_laws run] run show ?thesis
    by (simp add: swarm_url_def sample_repo_def SwarmDBFactoryScheme_def)
qed

section \<open>Callbacks\<close>

definition callbacks_are :: "string list \<Rightarrow> (string \<times> string) list \<Rightarrow> ('w, 'm) DB_scheme \<Rightarrow> bool" where
  "callbacks_are ns cbs s \<longleftrightarrow> notified s = ns \<and> tableChangeCallbacks s = cbs"

definition matching :: "'w env \<Rightarrow> (string \<times> string) list \<Rightarrow> string \<Rightarrow> string list" where
  "matching V cbs tableName = map snd (filter (\<lambda>(table, n). str_contains table tableName) (e_it_callbacks V cbs))"

lemma keeps_callbacks [keeps_intros]:
  "keeps (callbacks_are ns cbs) (on_world f)"
  "keeps (callbacks_are ns cbs) (gets g)"
  "keeps (callbacks_are ns cbs) (modify (\<lambda>s. s\<lparr>world := h (world s)\<rparr>))"
  by (auto intro!: keepsI simp: callbacks_are_def split: prod.splits)

lemma fold_trigger:
  "notified (fold (triggerTableChangeCallbacks V) ts s) = notified s @ concat (map (matching V (tableChangeCallbacks s)) ts)"
  by (induction ts arbitrary: s) (simp_all add: triggerTableChangeCallbacks_def matching_def)

definition notifies :: "'w env \<Rightarrow> string list \<Rightarrow> (string \<times> string) list \<Rightarrow> string \<Rightarrow> string \<Rightarrow> string result \<Rightarrow> ('w, 'm) DB_scheme \<Rightarrow> bool" where
  "notifies V ns cbs frm to r s \<longleftrightarrow>
     (case r of
        Inl _ \<Rightarrow> notified s = ns
      | Inr h \<Rightarrow> \<exists>tx w rows w' ts. e_query_strings V tx (QDiffSummary frm to) w = (Inr rows, w') \<and>
          scan_tables rows = Inr ts \<and> notified s = ns @ concat (map (matching V cbs) ts))"

lemma triple_changed_tables:
  "triple (callbacks_are ns cbs) (getChangedTables V tx frm to)
     (\<lambda>r s. callbacks_are ns cbs s \<and> (case r of Inl _ \<Rightarrow> True | Inr ts \<Rightarrow>
        \<exists>w rows w'. e_query_strings V tx (QDiffSummary frm to) w = (Inr rows, w') \<and> scan_tables rows = Inr ts))"
  by (rule tripleI)
    (auto simp: getChangedTables_def run_state_bind callbacks_are_def split: prod.splits sum.splits)

lemma triple_finish_notifies:
  assumes "e_query_strings V tx (QDiffSummary frm to) w = (Inr rows, w')" "scan_tables rows = Inr ts"
  shows "triple (callbacks_are ns cbs) (finish_commit V tx' ts h) (notifies V ns cbs frm to)"
  by (rule tripleI)
    (use assms in \<open>(auto simp: finish_commit_def run_state_bind callbacks_are_def notifies_def fold_trigger
       split: prod.splits sum.splits; blast)\<close>)

lemma notifies_error: "triple (callbacks_are ns cbs) (return (Inl e)) (notifies V ns cbs frm to)"
  by (rule triple_return) (simp add: notifies_def callbacks_are_def)

lemma callbacks_bind:
  assumes "keeps (callbacks_are ns cbs) m" "\<And>x. triple (callbacks_are ns cbs) (f x) Q"
  shows "triple (callbacks_are ns cbs) (State_Monad.bind m f) Q"
  using assms by (auto intro: triple_bind [where R = "\<lambda>_. callbacks_are ns cbs"] simp: keeps_def)

lemma keeps_callbacks_progs:
  "keeps (callbacks_are ns cbs) (CreateCommitMetadata V msg hlc)"
  "keeps (callbacks_are ns cbs) (doCommitWithMetadata V tx m sgo)"
  "keeps (callbacks_are ns cbs) (getChangedTables V tx frm to)"
  "keeps (callbacks_are ns cbs) (sign_metadata V msg hlc ch)"
  "keeps (callbacks_are ns cbs) (getContentHash V q)"
  unfolding CreateCommitMetadata_def getContentHash_def sign_metadata_def doCommitWithMetadata_def tag_commit_def
    sign_tag_def getChangedTables_def
  by (intro keeps_intros)+

lemma triple_changed_rest:
  assumes "\<And>ts w rows w'. e_query_strings V tx (QDiffSummary frm to) w = (Inr rows, w') \<Longrightarrow> scan_tables rows = Inr ts \<Longrightarrow>
    triple (callbacks_are ns cbs) (k ts) (notifies V ns cbs frm to)"
  shows "triple (callbacks_are ns cbs)
    (do { rg \<leftarrow> getChangedTables V tx frm to; case rg of Inl err \<Rightarrow> return (Inl (g err)) | Inr ts \<Rightarrow> k ts })
    (notifies V ns cbs frm to)"
proof (rule triple_bind [OF triple_changed_tables], rule triple_sum)
  fix r :: "string list result" and ts
  assume r: "r = Inr ts"
  show "triple (\<lambda>s. callbacks_are ns cbs s \<and> (case r of Inl _ \<Rightarrow> True | Inr ts \<Rightarrow>
        \<exists>w rows w'. e_query_strings V tx (QDiffSummary frm to) w = (Inr rows, w') \<and> scan_tables rows = Inr ts))
      (k ts) (notifies V ns cbs frm to)"
    by (rule tripleI) (use assms r tripleD in fastforce)
qed (auto intro!: triple_return simp: notifies_def callbacks_are_def)

lemma triple_commit_notifies:
  "triple (callbacks_are ns cbs) (commit_body V tx hlc msg) (notifies V ns cbs ''HEAD^'' ''HEAD'')"
  unfolding commit_body_def
  by (intro callbacks_bind [OF keeps_callbacks(2)] callbacks_bind [OF keeps_callbacks_progs(1)] callbacks_bind [OF keeps_callbacks_progs(2)]
      triple_changed_rest triple_sum notifies_error triple_finish_notifies)

lemma triple_exec_commit_notifies:
  "triple (callbacks_are ns cbs) (exec_commit_body V f tx hlc msg) (notifies V ns cbs ''WORKING'' ''HEAD'')"
  unfolding exec_commit_body_def
  by (intro callbacks_bind [OF keeps_callbacks(2)] callbacks_bind [OF keeps_callbacks(1)]
      callbacks_bind [OF keeps_callbacks_progs(2)] callbacks_bind [OF keeps_callbacks_progs(4)] callbacks_bind [OF keeps_callbacks_progs(5)]
      triple_changed_rest [where g = "\<lambda>e. e"] triple_sum notifies_error triple_finish_notifies)

lemma triple_tx_notifies:
  assumes "\<And>tx. triple (callbacks_are ns cbs) (body tx) (notifies V ns cbs frm to)"
  shows "triple (callbacks_are ns cbs) (with_tx V body) (notifies V ns cbs frm to)"
proof -
  have release: "triple (notifies V ns cbs frm to r) (modify (\<lambda>s. s\<lparr>world := e_release V tx (world s)\<rparr>))
      (\<lambda>_. notifies V ns cbs frm to r)" for tx r
    by (auto simp: triple_def notifies_def split: sum.splits)
  show ?thesis
    unfolding with_tx_def
    by (rule callbacks_bind [OF keeps_callbacks(1)] triple_sum notifies_error triple_bind [OF assms]
        triple_bind [OF release] triple_return | assumption)+
qed

text \<open>
  C37: the callbacks of a commit. A commit that fails starts none. One that succeeds starts,
  for each table that the engine reports as changed, the notifiers whose registered name
  contains the name of that table, and no others.
\<close>

theorem commit_notifies:
  assumes run: "(frm, r, s') \<in> {(''HEAD^'', run_state (DB_Commit V msg) s), (''WORKING'', run_state (DB_ExecAndCommit V f msg) s)}"
  shows "case r of
      Inl _ \<Rightarrow> notified s' = notified s
    | Inr h \<Rightarrow> \<exists>tx w rows w' ts. e_query_strings V tx (QDiffSummary frm ''HEAD'') w = (Inr rows, w') \<and>
        scan_tables rows = Inr ts \<and>
        notified s' = notified s @ concat (map (\<lambda>t. map snd (filter (\<lambda>(table, n). str_contains table t)
          (e_it_callbacks V (tableChangeCallbacks s)))) ts)"
proof -
  obtain ts s1 where hlc: "run_state (hlcNow V) s = (ts, s1)" by fastforce
  then have P: "callbacks_are (notified s) (tableChangeCallbacks s) s1"
    by (auto simp: hlcNow_def run_state_bind callbacks_are_def split: prod.splits)
  have "frm = ''HEAD^'' \<and> run_state (with_tx V (\<lambda>tx. commit_body V tx ts msg)) s1 = (r, s') \<or>
      frm = ''WORKING'' \<and> run_state (with_tx V (\<lambda>tx. exec_commit_body V f tx ts msg)) s1 = (r, s')"
    using run hlc by (auto simp: DB_Commit_def DB_ExecAndCommit_def run_state_bind)
  then have "notifies V (notified s) (tableChangeCallbacks s) frm ''HEAD'' r s'"
    using tripleD [OF triple_tx_notifies [OF triple_commit_notifies, of _ _ V "\<lambda>tx. tx" "\<lambda>_. ts" "\<lambda>_. msg"] P]
      tripleD [OF triple_tx_notifies [OF triple_exec_commit_notifies, of _ _ V "\<lambda>_. f" "\<lambda>tx. tx" "\<lambda>_. ts" "\<lambda>_. msg"] P] by blast
  then show ?thesis unfolding notifies_def matching_def [abs_def] .
qed

theorem commit_notifies_witness:
  "\<exists>h s'. run_state (DB_Commit reference_engine ''add row'') (sample_state sample_world) = (Inr h, s') \<and> notified s' = []"
proof -
  obtain h s' where run: "run_state (DB_Commit reference_engine ''add row'') (sample_state sample_world) = (Inr h, s')"
    using sample_commit_succeeds by blast
  have "(''HEAD^'', Inr h, s') \<in> {(''HEAD^'', run_state (DB_Commit reference_engine ''add row'') (sample_state sample_world)),
      (''WORKING'', run_state (DB_ExecAndCommit reference_engine (\<lambda>_ w. (Inr (), w)) ''add row'') (sample_state sample_world))}"
    using run by simp
  from commit_notifies [OF this] run show ?thesis by (auto simp: sample_state_def reference_engine_def)
qed

text \<open>
  A notifier is started for more than its table. A notifier registered for a table is
  started by a change of every table whose name occurs in the name it was registered under.
\<close>

theorem callback_matches_substring:
  assumes "env_ok V" "str_contains tableName changed"
    and "run_state (RegisterTableChangeCallback V tableName n) s = ((), s')"
  shows "n \<in> set (notified (triggerTableChangeCallbacks V changed s'))"
proof -
  obtain guid where "(tableName @ ''_'' @ guid, n) \<in> set (tableChangeCallbacks s')"
    using assms(3)
    by (auto simp: RegisterTableChangeCallback_def run_state_bind Let_def split: prod.splits)
      (metis map_of_SomeD map_of_update fun_upd_same)
  then have "(tableName @ ''_'' @ guid, n) \<in> set (filter (\<lambda>(table, n). str_contains table changed)
      (e_it_callbacks V (tableChangeCallbacks s')))"
    using assms(1,2) by (simp add: env_ok_def range_ok_set str_contains_append1)
  then show ?thesis by (force simp: triggerTableChangeCallbacks_def)
qed

theorem callback_matches_substring_witness:
  "\<exists>s'. run_state (RegisterTableChangeCallback reference_engine ''orders'' ''n'') (sample_state sample_world) = ((), s') \<and>
     ''n'' \<in> set (notified (triggerTableChangeCallbacks reference_engine ''order'' s'))"
proof -
  obtain s' where run: "run_state (RegisterTableChangeCallback reference_engine ''orders'' ''n'') (sample_state sample_world) = ((), s')"
    by (metis old.unit.exhaust surj_pair)
  have "str_contains ''orders'' ''order''" by code_simp
  from callback_matches_substring [OF reference_env_ok this run] run show ?thesis by blast
qed

section \<open>Quoting\<close>

text \<open>
  How MySQL reads the body of a quoted string: a doubled quote is a quote, a backslash
  followed by a character without a special meaning is that character, and every other
  character stands for itself. The reader \<open>lit\<close> is the engine's.
\<close>

definition mysql_literals :: "(string \<Rightarrow> string) \<Rightarrow> bool" where
  "mysql_literals lit \<longleftrightarrow>
     lit [] = [] \<and>
     (\<forall>c s. c \<noteq> CHR 0x27 \<and> c \<noteq> CHR 0x5C \<longrightarrow> lit (c # s) = c # lit s) \<and>
     (\<forall>s. lit (CHR 0x27 # CHR 0x27 # s) = CHR 0x27 # lit s) \<and>
     (\<forall>c s. c \<notin> set ''0bnrtZ%_'' \<longrightarrow> lit (CHR 0x5C # c # s) = c # lit s)"

lemma escapeSQL_simps [simp]:
  "escapeSQL [] = []"
  "escapeSQL (c # s) = (if c = CHR 0x27 then [CHR 0x27, CHR 0x27] else [c]) @ escapeSQL s"
  by (simp_all add: escapeSQL_def)

text \<open>
  A text without backslashes that is quoted by \<open>escapeSQL\<close> is read back unchanged, so that
  it cannot end the literal early.
\<close>

theorem escapeSQL_literal:
  assumes lit: "mysql_literals lit" and "CHR 0x5C \<notin> set s"
  shows "lit (escapeSQL s) = s"
  using assms(2)
proof (induction s)
  case Nil
  then show ?case using lit by (simp add: mysql_literals_def)
next
  case (Cons c s)
  then have "c \<noteq> CHR 0x5C" by auto
  with Cons show ?case using lit by (cases "c = CHR 0x27") (simp_all add: mysql_literals_def)
qed

fun mysql_body :: "string \<Rightarrow> string" where
  "mysql_body [] = []"
| "mysql_body [c] = [c]"
| "mysql_body (c # d # s) =
     (if c = CHR 0x27 \<and> d = CHR 0x27 then CHR 0x27 # mysql_body s
      else if c = CHR 0x5C then d # mysql_body s
      else c # mysql_body (d # s))"

lemma mysql_literals_body: "mysql_literals mysql_body"
proof -
  have "c \<noteq> CHR 0x27 \<Longrightarrow> c \<noteq> CHR 0x5C \<Longrightarrow> mysql_body (c # s) = c # mysql_body s" for c s
    by (cases s) simp_all
  then show ?thesis by (auto simp: mysql_literals_def)
qed

theorem escapeSQL_literal_witness: "mysql_body (escapeSQL ''it's'') = ''it's''"
  by (rule escapeSQL_literal [OF mysql_literals_body]) code_simp

lemma escapeSQL_plain: "CHR 0x27 \<notin> set p \<Longrightarrow> escapeSQL (p @ s) = p @ escapeSQL s"
  by (induction p) auto

lemma literal_plain:
  assumes lit: "mysql_literals lit"
  shows "CHR 0x27 \<notin> set p \<Longrightarrow> CHR 0x5C \<notin> set p \<Longrightarrow> lit (p @ s) = p @ lit s"
proof (induction p)
  case (Cons c p)
  then have "c \<noteq> CHR 0x27" "c \<noteq> CHR 0x5C" by auto
  then have "lit (c # p @ s) = c # lit (p @ s)" using lit unfolding mysql_literals_def by blast
  then show ?case using Cons by simp
qed simp

lemma backslash_lost:
  assumes "mysql_literals lit" "CHR 0x27 \<notin> set p" "CHR 0x5C \<notin> set p"
  shows "lit (escapeSQL (p @ CHR 0x5C # CHR ''u'' # s)) \<noteq> p @ CHR 0x5C # CHR ''u'' # s"
proof -
  have "lit (CHR 0x5C # CHR ''u'' # escapeSQL s) = CHR ''u'' # lit (escapeSQL s)"
    using assms(1) by (simp add: mysql_literals_def)
  then show ?thesis using assms by (simp add: escapeSQL_plain literal_plain)
qed

text \<open>
  The encoded metadata is not read back unchanged. The encoding of the message \<open>a<b\<close>
  contains an escape with a backslash, which \<open>escapeSQL\<close> leaves as it is: what the engine
  stores is another text.
\<close>

theorem commit_message_damaged:
  assumes lit: "mysql_literals lit" and "Marshal (sample_metadata\<lparr>meta_Message := ''a<b''\<rparr>) = Inr json"
  shows "lit (escapeSQL json) \<noteq> json"
proof -
  have esc: "json_escape ''user'' = ''user''" "json_escape ''a<b'' = ''a'' @ CHR 0x5C # ''u003cb''" by code_simp+
  let ?p = "''{\"kind\":\"user\",\"msg\":\"a''"
  have "\<exists>s. json = ?p @ CHR 0x5C # CHR ''u'' # s"
    using assms(2) sample_metadata_ok(2)
    by (auto simp: Marshal_def json_Marshal_def metadata_json_def json_string_def CommitKindUser_def esc quoted_def
        split: sum.splits)
  then show ?thesis using backslash_lost [OF lit, of ?p] by auto
qed

theorem commit_message_damaged_witness:
  "\<exists>json. Marshal (sample_metadata\<lparr>meta_Message := ''a<b''\<rparr>) = Inr json \<and> mysql_body (escapeSQL json) \<noteq> json"
proof -
  obtain json where "Marshal (sample_metadata\<lparr>meta_Message := ''a<b''\<rparr>) = Inr json"
    using Marshal_total [of "sample_metadata\<lparr>meta_Message := ''a<b''\<rparr>"] sample_metadata_ok(3,4) by auto
  with commit_message_damaged [OF mysql_literals_body] show ?thesis by blast
qed

end
