(* ===== verification/Swarm.thy ===== *)
theory Swarm
  imports Database
begin

text \<open>
  The registry of provider pickers (\<open>core/swarm_registry.go\<close>) and the resolution of \<open>swarm://\<close>
  URLs (\<open>core/swarm_dbfactory.go\<close>, whose factory is in \<open>Chunk_Store\<close>). A provider picker is represented by a number; the global map
  is a value that the operations take and return, each under the lock of the source.

  The lemmas show that the URL which the database handle stores for its remote leads back to
  the repository, and so to the picker that was registered for it.
\<close>

section \<open>The registry\<close>

type_synonym picker = nat

type_synonym registry = "(RepoID \<times> picker) list"

definition RegisterSwarmProviders :: "RepoID \<Rightarrow> picker option \<Rightarrow> registry \<Rightarrow> registry" where
  "RegisterSwarmProviders repo p reg =
     (case p of None \<Rightarrow> reg | Some pk \<Rightarrow> AList.update repo pk reg)"

definition UnregisterSwarmProviders :: "RepoID \<Rightarrow> registry \<Rightarrow> registry" where
  "UnregisterSwarmProviders repo reg = AList.delete repo reg"

definition getSwarmProviderPicker :: "registry \<Rightarrow> RepoID \<Rightarrow> picker option" where
  "getSwarmProviderPicker reg repo = map_of reg repo"

lemma getSwarmProviderPicker_Register:
  "getSwarmProviderPicker (RegisterSwarmProviders repo (Some p) reg) r =
     (if r = repo then Some p else getSwarmProviderPicker reg r)"
  by (simp add: getSwarmProviderPicker_def RegisterSwarmProviders_def)

lemma getSwarmProviderPicker_Unregister:
  "getSwarmProviderPicker (UnregisterSwarmProviders repo reg) r =
     (if r = repo then None else getSwarmProviderPicker reg r)"
  by (simp add: getSwarmProviderPicker_def UnregisterSwarmProviders_def delete_conv')

section \<open>URLs\<close>

record URL =
  url_Host :: string
  url_Path :: string

text \<open>\<open>strings.Trim(s, "/")\<close>\<close>

definition trim_slashes :: "string \<Rightarrow> string" where
  "trim_slashes s = rev (dropWhile (\<lambda>c. c = CHR ''/'') (rev (dropWhile (\<lambda>c. c = CHR ''/'') s)))"

definition parseSwarmRepoID :: "URL \<Rightarrow> RepoID" where
  "parseSwarmRepoID urlObj =
     (let path = trim_slashes (url_Path urlObj) in
      if url_Host urlObj \<noteq> '''' \<and> path \<noteq> '''' then \<lparr>Org = url_Host urlObj, RepoName = path\<rparr>
      else if path \<noteq> '''' then \<lparr>Org = '''', RepoName = path\<rparr>
      else \<lparr>Org = '''', RepoName = url_Host urlObj\<rparr>)"

text \<open>
  \<open>net/url.Parse\<close> on the texts of the form \<open>scheme://host/path\<close> that consist of unreserved
  characters: none of them is escaped, and there is no user, port, query or fragment. \<open>None\<close>
  stands for the texts outside this form.
\<close>

definition url_safe :: "char \<Rightarrow> bool" where
  "url_safe c \<longleftrightarrow> c \<in> set ''abcdefghijklmnopqrstuvwxyzABCDEFGHIJKLMNOPQRSTUVWXYZ0123456789-._~''"

definition url_Parse :: "string \<Rightarrow> string \<Rightarrow> URL option" where
  "url_Parse scheme s =
     (let pre = scheme @ ''://''; rest = drop (length pre) s in
      if take (length pre) s = pre \<and> list_all (\<lambda>c. url_safe c \<or> c = CHR ''/'') rest
      then Some \<lparr>url_Host = takeWhile (\<lambda>c. c \<noteq> CHR ''/'') rest, url_Path = dropWhile (\<lambda>c. c \<noteq> CHR ''/'') rest\<rparr>
      else None)"

lemma slash_not_safe: "\<not> url_safe (CHR ''/'')"
  by (simp add: url_safe_def)

lemma safe_not_slash: "list_all url_safe s \<Longrightarrow> c \<in> set s \<Longrightarrow> c \<noteq> CHR ''/''"
  using slash_not_safe by (auto simp: list_all_iff)

lemma trim_safe: "list_all url_safe s \<Longrightarrow> trim_slashes s = s \<and> trim_slashes (CHR ''/'' # s) = s"
proof -
  assume "list_all url_safe s"
  then have no: "\<forall>c \<in> set s. c \<noteq> CHR ''/''" using safe_not_slash by blast
  then have "dropWhile (\<lambda>c. c = CHR ''/'') s = s" "dropWhile (\<lambda>c. c = CHR ''/'') (rev s) = rev s"
    by (cases s rule: list.exhaust, simp_all) (cases s rule: rev_cases, simp_all)
  then show ?thesis by (simp add: trim_slashes_def)
qed

lemma split_safe:
  assumes "list_all url_safe h"
  shows "takeWhile (\<lambda>c. c \<noteq> CHR ''/'') (h @ CHR ''/'' # p) = h"
    and "dropWhile (\<lambda>c. c \<noteq> CHR ''/'') (h @ CHR ''/'' # p) = CHR ''/'' # p"
    and "takeWhile (\<lambda>c. c \<noteq> CHR ''/'') h = h" and "dropWhile (\<lambda>c. c \<noteq> CHR ''/'') h = []"
  using safe_not_slash [OF assms] by (auto simp: takeWhile_append dropWhile_append)

text \<open>
  C34: the URL of the remote leads back to the repository. For an organisation and a name of
  unreserved characters, the URL that \<open>EnsureSwarmRemote\<close> stores is parsed by the factory as
  that repository, so that the lookup finds the picker registered for it.
\<close>

theorem swarm_url_resolves:
  assumes "list_all url_safe (Org repo)" "list_all url_safe (RepoName repo)" "RepoName repo \<noteq> ''''"
  shows "\<exists>u. url_Parse SwarmDBFactoryScheme (swarm_url repo) = Some u \<and> parseSwarmRepoID u = repo \<and>
    getSwarmProviderPicker (RegisterSwarmProviders repo (Some p) reg) (parseSwarmRepoID u) = Some p"
proof -
  let ?u = "if Org repo = '''' then \<lparr>url_Host = RepoName repo, url_Path = ''''\<rparr>
    else \<lparr>url_Host = Org repo, url_Path = CHR ''/'' # RepoName repo\<rparr>"
  have safe: "list_all (\<lambda>c. url_safe c \<or> c = CHR ''/'') (RepoName repo)" "list_all (\<lambda>c. url_safe c \<or> c = CHR ''/'') (Org repo)"
    using assms by (auto simp: list_all_iff)
  have u: "url_Parse SwarmDBFactoryScheme (swarm_url repo) = Some ?u"
    using safe split_safe [OF assms(1)] split_safe [OF assms(2)]
    by (simp add: url_Parse_def swarm_url_def SwarmDBFactoryScheme_def Let_def)
  moreover have "parseSwarmRepoID ?u = repo"
    using assms(3) trim_safe [OF assms(2)] trim_safe [of "[]"] by (cases repo) (simp add: parseSwarmRepoID_def Let_def)
  ultimately show ?thesis by (simp add: getSwarmProviderPicker_Register)
qed

theorem swarm_url_resolves_witness:
  "\<exists>u. url_Parse SwarmDBFactoryScheme (swarm_url sample_repo) = Some u \<and> parseSwarmRepoID u = sample_repo \<and>
    getSwarmProviderPicker (RegisterSwarmProviders sample_repo (Some 7) []) (parseSwarmRepoID u) = Some 7"
  by (rule swarm_url_resolves) code_simp+

end
