(* ===== verification/Node.thy ===== *)
theory Node
  imports Swarm
begin

text \<open>
  The node of \<open>core/node.go\<close>: configuration and opening, local commits and their adverts, the
  handlers of adverts and heartbeats, finalization, the index of commits and its rebuilding,
  and the synchronization pass. The loop that runs them is in \<open>Run_Loop\<close>.

  The state of a node extends that of the database handle. The transport and the identity
  resolver are fields of the configuration: functions on the world, since they are given by
  the integration. The mutexes make each operation atomic.
\<close>

section \<open>Configuration and state\<close>

record 'w Gossip =
  PublishCommitAd :: "CommitAdV1 \<Rightarrow> 'w \<Rightarrow> unit result \<times> 'w"
  PublishHeartbeat :: "HeartbeatV1 \<Rightarrow> 'w \<Rightarrow> unit result \<times> 'w"
  Subscribe :: "'w \<Rightarrow> unit result \<times> 'w"

record 'w Transport =
  tr_Gossip :: "'w Gossip option"
  tr_Providers :: "picker option"

type_synonym 'w IdentityResolver = "string \<Rightarrow> 'w \<Rightarrow> string result \<times> 'w"

record 'w NodeConfig =
  cfg_Dir :: string
  cfg_Repo :: RepoID
  cfg_Signer :: "Signer option"
  cfg_Transport :: "'w Transport option"
  cfg_Log :: bool
  cfg_DB :: "'w DB option"
  cfg_MaxClockSkew :: int64
  cfg_RepairInterval :: int64
  cfg_Identity :: "'w IdentityResolver option"
  cfg_HeartbeatInterval :: int64

text \<open>
  \<open>hookInstalled\<close> says whether the internal hook of the reconciler is set; \<open>swarmProviders\<close> is
  the process-global registry.
\<close>

record 'w Node = "'w DB" +
  cfg :: "'w NodeConfig"
  idx :: MemoryCommitIndex
  ownsDB :: bool
  peerHLC :: "(string \<times> HLCTimestamp) list"
  hookInstalled :: bool
  swarmProviders :: registry

type_synonym ('w, 'm, 'a) node_prog = "(('w, 'm) Node_scheme, 'a) state"

definition node_gossip :: "('w, 'm) Node_scheme \<Rightarrow> 'w Gossip option" where
  "node_gossip n = (case cfg_Transport (cfg n) of None \<Rightarrow> None | Some tr \<Rightarrow> tr_Gossip tr)"

section \<open>Opening and closing\<close>

text \<open>Durations are nanoseconds in an \<open>int64\<close>.\<close>

definition node_defaults :: "'w NodeConfig \<Rightarrow> 'w NodeConfig" where
  "node_defaults c =
     c\<lparr>cfg_Log := True,
       cfg_MaxClockSkew := (if cfg_MaxClockSkew c = 0 then MaxClockSkew else cfg_MaxClockSkew c),
       cfg_RepairInterval := (if cfg_RepairInterval c = 0 then 30 * 1000000000 else cfg_RepairInterval c),
       cfg_HeartbeatInterval := (if cfg_HeartbeatInterval c = 0 then 5 * 1000000000 else cfg_HeartbeatInterval c)\<rparr>"

definition installReconcilerHooks :: "('w, 'm) Node_scheme \<Rightarrow> ('w, 'm) Node_scheme" where
  "installReconcilerHooks n = n\<lparr>hookInstalled := True\<rparr>"

definition new_node :: "'w NodeConfig \<Rightarrow> 'w DB \<Rightarrow> bool \<Rightarrow> registry \<Rightarrow> 'w Node" where
  "new_node c db owns reg =
     DB.extend db \<lparr>cfg = c, idx = NewMemoryCommitIndex, ownsDB = owns, peerHLC = [], hookInstalled = False,
       swarmProviders = reg\<rparr>"

text \<open>
  A handle given in the configuration lives in the current world \<open>w\<close>. The error of
  \<open>EnsureSwarmRemote\<close> is dropped.
\<close>

definition OpenNode :: "'w env \<Rightarrow> 'w NodeConfig \<Rightarrow> registry \<Rightarrow> 'w \<Rightarrow> 'w Node result \<times> registry \<times> 'w" where
  "OpenNode V config reg w =
     (if RepoName (cfg_Repo config) = '''' then (Inl (ErrText ''Repo is required''), reg, w)
      else if cfg_Signer config = None then (Inl (ErrText ''Signer is required''), reg, w)
      else case cfg_Transport config of
        None \<Rightarrow> (Inl (ErrText ''Transport is required''), reg, w)
      | Some tr \<Rightarrow>
          if tr_Providers tr = None then (Inl (ErrText ''Transport.Providers is required''), reg, w)
          else
            (let c = node_defaults config;
                 opened = (case cfg_DB c of
                     Some db \<Rightarrow> (Inr (db\<lparr>world := w\<rparr>, False), w)
                   | None \<Rightarrow>
                       if cfg_Dir c = '''' then (Inl (ErrText ''Dir is required''), w)
                       else case Open V (cfg_Dir c) (RepoName (cfg_Repo c)) (cfg_Log c) (cfg_Signer c) w of
                         (Inl err, w') \<Rightarrow> (Inl err, w')
                       | (Inr db, w') \<Rightarrow> (Inr (db, True), w'))
             in case opened of
                  (Inl err, w') \<Rightarrow> (Inl err, reg, w')
                | (Inr (db, owns), w') \<Rightarrow>
                    (let reg' = RegisterSwarmProviders (cfg_Repo c) (tr_Providers tr) reg;
                         db' = snd (run_state (EnsureSwarmRemote V (cfg_Repo c)) db)
                     in (Inr (installReconcilerHooks (new_node c db' owns reg')), reg', world db'))))"

definition Node_Close :: "'w env \<Rightarrow> ('w, 'm, unit result) node_prog" where
  "Node_Close V = do {
     c \<leftarrow> gets cfg;
     _ \<leftarrow> modify (\<lambda>s. s\<lparr>swarmProviders := UnregisterSwarmProviders (cfg_Repo c) (swarmProviders s)\<rparr>);
     owns \<leftarrow> gets ownsDB;
     if \<not> owns then return (Inr ()) else DB_Close V }"

section \<open>Writing the index\<close>

text \<open>\<open>n.idx.Upsert\<close>; the index reads the clock only for an entry without an update time.\<close>

definition idxPut :: "'w env \<Rightarrow> CommitIndexEntry \<Rightarrow> ('w, 'm, unit) node_prog" where
  "idxPut V e = do {
     t \<leftarrow> (if Time_IsZero (entry_UpdatedAt e) then timeNow V else return (entry_UpdatedAt e));
     modify (\<lambda>s. s\<lparr>idx := Upsert (idx s) e t\<rparr>) }"

definition idxUpsert :: "'w env \<Rightarrow> HLCTimestamp \<Rightarrow> string \<Rightarrow> CommitStatus \<Rightarrow> ('w, 'm, unit) node_prog" where
  "idxUpsert V h hash st = do {
     t \<leftarrow> timeNow V;
     idxPut V (mkEntry h hash st t) }"

text \<open>The hook that \<open>installReconcilerHooks\<close> sets, and the hooks of the node's reconciler.\<close>

definition node_hook :: "'w env \<Rightarrow> ('w, 'm) Node_scheme CommitRejectedCallback" where
  "node_hook V ad reason =
     (if HLC_IsZero (cad_HLC ad) then return ()
      else idxUpsert V (cad_HLC ad) (cad_CommitHash ad) CommitStatusRejected)"

definition node_hooks ::
  "'w env \<Rightarrow> ('w, 'm) Node_scheme CommitRejectedCallback option \<Rightarrow> bool \<Rightarrow> ('w, 'm) Node_scheme hooks" where
  "node_hooks V cb installed =
     \<lparr>onCommitRejectedInternal = (if installed then Some (node_hook V) else None), onCommitRejected = cb\<rparr>"

section \<open>Local commits\<close>

text \<open>
  \<open>publishLocalCommitAd\<close>: the model returns the advert that is handed to the transport, if
  there is one. An error of the transport is only logged.
\<close>

definition publishLocalCommitAd :: "'w env \<Rightarrow> string \<Rightarrow> ('w, 'm, CommitAdV1 option) node_prog" where
  "publishLocalCommitAd V commitHash = do {
     g \<leftarrow> gets node_gossip;
     case g of
       None \<Rightarrow> return None
     | Some gossip \<Rightarrow> do {
         r \<leftarrow> GetLastUserCommit V ''main'';
         case r of
           Inl err \<Rightarrow> return None
         | Inr (head, meta) \<Rightarrow>
             if commit_Hash head \<noteq> commitHash then return None
             else if meta_Kind meta \<noteq> CommitKindUser then return None
             else do {
               _ \<leftarrow> idxUpsert V (meta_HLC meta) (commit_Hash head) CommitStatusApplied;
               c \<leftarrow> gets cfg;
               t \<leftarrow> timeNow V;
               let ad = \<lparr>ad_Repo = cfg_Repo c, ad_HLC = meta_HLC meta, ad_MetadataJSON = commit_Message head,
                         ad_MetadataSig = meta_Signature meta, ad_ObservedAt = t\<rparr>;
               _ \<leftarrow> on_world (PublishCommitAd gossip ad);
               return (Some ad) } } }"

definition Node_Commit :: "'w env \<Rightarrow> string \<Rightarrow> ('w, 'm, string result) node_prog" where
  "Node_Commit V msg = do {
     r \<leftarrow> DB_Commit V msg;
     case r of
       Inl err \<Rightarrow> return (Inl err)
     | Inr commitHash \<Rightarrow> do {
         _ \<leftarrow> publishLocalCommitAd V commitHash;
         return (Inr commitHash) } }"

definition Node_ExecAndCommit :: "'w env \<Rightarrow> 'w ExecFunc \<Rightarrow> string \<Rightarrow> ('w, 'm, string result) node_prog" where
  "Node_ExecAndCommit V execFunc msg = do {
     r \<leftarrow> DB_ExecAndCommit V execFunc msg;
     case r of
       Inl err \<Rightarrow> return (Inl err)
     | Inr commitHash \<Rightarrow> do {
         _ \<leftarrow> publishLocalCommitAd V commitHash;
         return (Inr commitHash) } }"

section \<open>Heartbeats\<close>

definition publishHeartbeat :: "'w env \<Rightarrow> ('w, 'm, HeartbeatV1 option) node_prog" where
  "publishHeartbeat V = do {
     g \<leftarrow> gets node_gossip;
     case g of
       None \<Rightarrow> return None
     | Some gossip \<Rightarrow> do {
         c \<leftarrow> gets cfg;
         ts \<leftarrow> hlcNow V;
         case cfg_Signer c of
           None \<Rightarrow> return None
         | Some sg \<Rightarrow> do {
             let hb = \<lparr>hb_Repo = cfg_Repo c, hb_HLC = ts, hb_PeerID = sgn_GetID sg\<rparr>;
             _ \<leftarrow> on_world (PublishHeartbeat gossip hb);
             return (Some hb) } } }"

definition own_peer :: "'w NodeConfig \<Rightarrow> string \<Rightarrow> bool" where
  "own_peer c p \<longleftrightarrow> (case cfg_Signer c of None \<Rightarrow> False | Some sg \<Rightarrow> p = sgn_GetID sg)"

definition observe_peer :: "HeartbeatV1 \<Rightarrow> (string \<times> HLCTimestamp) list \<Rightarrow> (string \<times> HLCTimestamp) list" where
  "observe_peer hb peers =
     (case map_of peers (hb_PeerID hb) of
        None \<Rightarrow> AList.update (hb_PeerID hb) (hb_HLC hb) peers
      | Some cur \<Rightarrow>
          if Less cur (hb_HLC hb) then AList.update (hb_PeerID hb) (hb_HLC hb) peers else peers)"

definition onHeartbeat :: "'w env \<Rightarrow> string \<Rightarrow> HeartbeatV1 \<Rightarrow> ('w, 'm, unit) node_prog" where
  "onHeartbeat V frm hb = do {
     c \<leftarrow> gets cfg;
     if hb_Repo hb \<noteq> cfg_Repo c then return ()
     else if own_peer c (hb_PeerID hb) then return ()
     else do {
       _ \<leftarrow> modify (\<lambda>s. s\<lparr>peerHLC := observe_peer hb (peerHLC s)\<rparr>);
       hlcUpdate V (hb_HLC hb) } }"

section \<open>Finalization\<close>

text \<open>The loop \<open>for _, hlc := range n.peerHLC\<close>: \<open>None\<close> is \<open>first\<close>.\<close>

definition min_step :: "HLCTimestamp option \<Rightarrow> HLCTimestamp \<Rightarrow> HLCTimestamp option" where
  "min_step acc hlc = (case acc of None \<Rightarrow> Some hlc | Some m \<Rightarrow> if Less hlc m then Some hlc else Some m)"

definition stable_hlc :: "'w env \<Rightarrow> (string \<times> HLCTimestamp) list \<Rightarrow> HLCTimestamp option" where
  "stable_hlc V peers = foldl min_step None (map snd (e_it_peers V peers))"

definition candidate :: "HLCTimestamp \<Rightarrow> FinalizedBase option \<Rightarrow> CommitIndexEntry \<Rightarrow> bool" where
  "candidate stableHLC fb e \<longleftrightarrow>
     entry_Status e = CommitStatusApplied \<and> Less (entry_HLC e) stableHLC \<and>
     (case fb of None \<Rightarrow> True | Some b \<Rightarrow> Less (fb_HLC b) (entry_HLC e))"

definition best_step ::
  "HLCTimestamp \<Rightarrow> FinalizedBase option \<Rightarrow> CommitIndexEntry option \<Rightarrow> CommitIndexEntry \<Rightarrow> CommitIndexEntry option" where
  "best_step stableHLC fb best e =
     (if \<not> candidate stableHLC fb e then best
      else case best of
        None \<Rightarrow> Some e
      | Some b \<Rightarrow> if Less (entry_HLC b) (entry_HLC e) then Some e else Some b)"

definition tryFinalize :: "'w env \<Rightarrow> ('w, 'm, unit) node_prog" where
  "tryFinalize V = do {
     peers \<leftarrow> gets peerHLC;
     case stable_hlc V peers of
       None \<Rightarrow> return ()
     | Some stableHLC \<Rightarrow>
         if HLC_IsZero stableHLC then return ()
         else do {
           i \<leftarrow> gets idx;
           let es = ListAfter (e_it_entries V) i zeroHLC 0;
           case foldl (best_step stableHLC (finalizedBase i)) None es of
             None \<Rightarrow> return ()
           | Some best \<Rightarrow> do {
               t \<leftarrow> timeNow V;
               t' \<leftarrow> (if Time_IsZero t then timeNow V else return t);
               modify (\<lambda>s. s\<lparr>idx := SetFinalizedBase (idx s)
                 \<lparr>fb_HLC = entry_HLC best, fb_CommitHash = entry_CommitHash best, fb_UpdatedAt = t\<rparr> t'\<rparr>) } } }"

section \<open>Adverts\<close>

definition decided :: "MemoryCommitIndex \<Rightarrow> HLCTimestamp \<Rightarrow> bool" where
  "decided i h \<longleftrightarrow> (case Get i h of
       None \<Rightarrow> False
     | Some e \<Rightarrow> entry_Status e = CommitStatusApplied \<or> entry_Status e = CommitStatusRejected)"

definition skewed :: "'w NodeConfig \<Rightarrow> int64 \<Rightarrow> HLCTimestamp \<Rightarrow> bool" where
  "skewed c now h \<longleftrightarrow>
     sint (cfg_MaxClockSkew c) > 0 \<and> sint (Wall h) > sint (now + cfg_MaxClockSkew c)"

definition reject_ad :: "'w env \<Rightarrow> HLCTimestamp \<Rightarrow> ('w, 'm, bool) node_prog" where
  "reject_ad V h = do {
     _ \<leftarrow> idxUpsert V h '''' CommitStatusRejected;
     return False }"

text \<open>The check of the signature, when an identity resolver is configured.\<close>

definition verify_identity ::
  "'w env \<Rightarrow> 'w NodeConfig \<Rightarrow> HLCTimestamp \<Rightarrow> CommitMetadata \<Rightarrow> ('w, 'm, bool) node_prog" where
  "verify_identity V c h meta =
     (case cfg_Identity c of
        None \<Rightarrow> return True
      | Some resolver \<Rightarrow> do {
          r \<leftarrow> on_world (resolver (PeerID h));
          case r of
            Inl err \<Rightarrow> return False
          | Inr pub \<Rightarrow>
              if pub = '''' then return False
              else (case cfg_Signer c of
                      None \<Rightarrow> return False
                    | Some sg \<Rightarrow> return (Verify meta sg pub = Inr ())) })"

text \<open>The result says whether \<open>requestSync\<close> is called.\<close>

definition onCommitAd :: "'w env \<Rightarrow> string \<Rightarrow> CommitAdV1 \<Rightarrow> ('w, 'm, bool) node_prog" where
  "onCommitAd V frm ad = do {
     c \<leftarrow> gets cfg;
     i \<leftarrow> gets idx;
     if ad_Repo ad \<noteq> cfg_Repo c then return False
     else if decided i (ad_HLC ad) then return False
     else if own_peer c (PeerID (ad_HLC ad)) then return False
     else do {
       t \<leftarrow> timeNow V;
       if skewed c (UnixNano t) (ad_HLC ad) then reject_ad V (ad_HLC ad)
       else case ParseCommitMetadata (ad_MetadataJSON ad) of
         Inl err \<Rightarrow> return False
       | Inr meta \<Rightarrow>
           if meta_Kind meta \<noteq> CommitKindUser then return False
           else if \<not> Equal (meta_HLC meta) (ad_HLC ad) then reject_ad V (ad_HLC ad)
           else if ad_MetadataSig ad \<noteq> '''' \<and> meta_Signature meta \<noteq> ad_MetadataSig ad then reject_ad V (ad_HLC ad)
           else do {
             ok \<leftarrow> verify_identity V c (ad_HLC ad) meta;
             if \<not> ok then reject_ad V (ad_HLC ad)
             else do {
               _ \<leftarrow> hlcUpdate V (ad_HLC ad);
               _ \<leftarrow> idxUpsert V (ad_HLC ad) '''' CommitStatusPending;
               return True } } } }"

section \<open>Rebuilding the index\<close>

definition preserved_entries :: "'w env \<Rightarrow> MemoryCommitIndex \<Rightarrow> CommitIndexEntry list" where
  "preserved_entries V i =
     filter (\<lambda>e. entry_Status e \<noteq> CommitStatusApplied \<and> entry_Status e \<noteq> CommitStatusUnknown)
       (ListAfter (e_it_entries V) i zeroHLC 0)"

fun index_commits :: "'w env \<Rightarrow> Commit list \<Rightarrow> ('w, 'm, unit) node_prog" where
  "index_commits V [] = return ()"
| "index_commits V (c # commits) =
     (case ParseCommitMetadata (commit_Message c) of
        Inl err \<Rightarrow> index_commits V commits
      | Inr meta \<Rightarrow>
          if meta_Kind meta \<noteq> CommitKindUser then index_commits V commits
          else do {
            _ \<leftarrow> idxUpsert V (meta_HLC meta) (commit_Hash c) CommitStatusApplied;
            index_commits V commits })"

fun restore_entries :: "'w env \<Rightarrow> CommitIndexEntry list \<Rightarrow> ('w, 'm, unit) node_prog" where
  "restore_entries V [] = return ()"
| "restore_entries V (e # es) = do {
     i \<leftarrow> gets idx;
     _ \<leftarrow> (case Get i (entry_HLC e) of
            Some cur \<Rightarrow> if entry_Status cur = CommitStatusApplied then return () else idxPut V e
          | None \<Rightarrow> idxPut V e);
     restore_entries V es }"

definition initIndexFromDB :: "'w env \<Rightarrow> ('w, 'm, unit result) node_prog" where
  "initIndexFromDB V = do {
     i \<leftarrow> gets idx;
     let preserved = preserved_entries V i;
     _ \<leftarrow> modify (\<lambda>s. s\<lparr>idx := resetForRebuild (idx s)\<rparr>);
     r \<leftarrow> GetAllCommits V;
     case r of
       Inl err \<Rightarrow> return (Inl err)
     | Inr commits \<Rightarrow> do {
         _ \<leftarrow> index_commits V commits;
         _ \<leftarrow> restore_entries V preserved;
         return (Inr ()) } }"

section \<open>Synchronization\<close>

text \<open>The clean-up deferred by both functions below: back to \<open>main\<close>, and delete the branch.\<close>

definition drop_branch :: "'w env \<Rightarrow> session \<Rightarrow> string \<Rightarrow> ('w, 'm, unit) db_prog" where
  "drop_branch V conn tmp = do {
     _ \<leftarrow> exec V conn (DoltCheckout ''main'');
     _ \<leftarrow> exec V conn (DoltBranchDelete tmp);
     return () }"

definition ff_body :: "'w env \<Rightarrow> session \<Rightarrow> string \<Rightarrow> string \<Rightarrow> ('w, 'm, bool result) db_prog" where
  "ff_body V conn tmp targetHash = do {
     r1 \<leftarrow> exec V conn (DoltCheckout ''main'');
     case r1 of
       Inl err \<Rightarrow> return (Inl err)
     | Inr _ \<Rightarrow> do {
         r2 \<leftarrow> exec V conn (DoltBranchForce tmp targetHash);
         case r2 of
           Inl err \<Rightarrow> return (Inl err)
         | Inr _ \<Rightarrow> do {
             r3 \<leftarrow> exec V conn (DoltMergeFFOnly tmp);
             _ \<leftarrow> drop_branch V conn tmp;
             case r3 of
               Inl err \<Rightarrow> return (Inl err)
             | Inr _ \<Rightarrow> return (Inr True) } } }"

definition tryFastForward :: "'w env \<Rightarrow> string \<Rightarrow> ('w, 'm, bool result) db_prog" where
  "tryFastForward V targetHash = do {
     rc \<leftarrow> on_world (e_conn V);
     case rc of
       Inl err \<Rightarrow> return (Inl err)
     | Inr conn \<Rightarrow> do {
         t \<leftarrow> timeNow V;
         r \<leftarrow> ff_body V conn (''swarm_ff_'' @ show_int (sint (UnixNano t))) targetHash;
         _ \<leftarrow> modify (\<lambda>s. s\<lparr>world := e_release V conn (world s)\<rparr>);
         return r } }"

definition bootstrap_body :: "'w env \<Rightarrow> session \<Rightarrow> string \<Rightarrow> string \<Rightarrow> ('w, 'm, unit result) db_prog" where
  "bootstrap_body V conn tmp targetHash = do {
     r1 \<leftarrow> exec V conn (DoltBranchForce tmp targetHash);
     case r1 of
       Inl err \<Rightarrow> return (Inl err)
     | Inr _ \<Rightarrow> do {
         r2 \<leftarrow> exec V conn (DoltCheckout ''main'');
         r \<leftarrow> (case r2 of
                Inl err \<Rightarrow> return (Inl err)
              | Inr _ \<Rightarrow> exec V conn (DoltResetHard tmp));
         _ \<leftarrow> drop_branch V conn tmp;
         return r } }"

definition forceResetMainTo :: "'w env \<Rightarrow> string \<Rightarrow> ('w, 'm, unit result) db_prog" where
  "forceResetMainTo V targetHash = do {
     rc \<leftarrow> on_world (e_conn V);
     case rc of
       Inl err \<Rightarrow> return (Inl err)
     | Inr conn \<Rightarrow> do {
         t \<leftarrow> timeNow V;
         r \<leftarrow> bootstrap_body V conn (''swarm_bootstrap_'' @ show_int (sint (UnixNano t))) targetHash;
         _ \<leftarrow> modify (\<lambda>s. s\<lparr>world := e_release V conn (world s)\<rparr>);
         return r } }"

text \<open>From the imported commits to the end of the pass.\<close>

definition apply_imported ::
  "'w env \<Rightarrow> ('w, 'm) Node_scheme CommitRejectedCallback option \<Rightarrow> string \<Rightarrow> string \<Rightarrow> Commit list \<Rightarrow>
   ('w, 'm, bool result) node_prog" where
  "apply_imported V cb remoteHead mergeBase imported = do {
     fb \<leftarrow> gets (\<lambda>s. finalizedBase (idx s));
     installed \<leftarrow> gets hookInstalled;
     rf \<leftarrow> tryFastForward V remoteHead;
     if rf = Inr True
     then do {
       _ \<leftarrow> initIndexFromDB V;
       return (Inr True) }
     else do {
       rr \<leftarrow> ReplayImportedCommits V (node_hooks V cb installed) mergeBase imported fb;
       case rr of
         Inl err \<Rightarrow> return (Inl err)
       | Inr mergeCount \<Rightarrow> do {
           _ \<leftarrow> initIndexFromDB V;
           return (Inr True) } } }"

definition sync_fetched ::
  "'w env \<Rightarrow> ('w, 'm) Node_scheme CommitRejectedCallback option \<Rightarrow> ('w, 'm, bool result) node_prog" where
  "sync_fetched V cb = do {
     rb \<leftarrow> GetBranchHead V ''remotes/swarm/main'';
     case rb of
       Inl err \<Rightarrow> return (Inl err)
     | Inr (remoteHead, ok) \<Rightarrow>
         if \<not> ok then return (Inr False)
         else do {
           rm \<leftarrow> MergeBase V ''main'' ''remotes/swarm/main'';
           case rm of
             Inl err \<Rightarrow> return (Inl err)
           | Inr mergeBase \<Rightarrow>
               if mergeBase = ''''
               then do {
                 rr \<leftarrow> forceResetMainTo V remoteHead;
                 case rr of
                   Inl err \<Rightarrow> return (Inl err)
                 | Inr _ \<Rightarrow> do {
                     _ \<leftarrow> initIndexFromDB V;
                     return (Inr True) } }
               else do {
                 ri \<leftarrow> getCommitsSince V Pool ''remotes/swarm/main'' mergeBase;
                 case ri of
                   Inl err \<Rightarrow> return (Inl err)
                 | Inr imported \<Rightarrow>
                     if imported = [] then return (Inr False)
                     else apply_imported V cb remoteHead mergeBase imported } } }"

definition syncOnce ::
  "'w env \<Rightarrow> ('w, 'm) Node_scheme CommitRejectedCallback option \<Rightarrow> ('w, 'm, bool result) node_prog" where
  "syncOnce V cb = do {
     c \<leftarrow> gets cfg;
     r1 \<leftarrow> EnsureSwarmRemote V (cfg_Repo c);
     case r1 of
       Inl err \<Rightarrow> return (Inl err)
     | Inr _ \<Rightarrow> do {
         r2 \<leftarrow> FetchSwarm V;
         case r2 of
           Inl err \<Rightarrow> return (Inl err)
         | Inr _ \<Rightarrow> sync_fetched V cb } }"

definition SyncHint ::
  "'w env \<Rightarrow> ('w, 'm) Node_scheme CommitRejectedCallback option \<Rightarrow> HLCTimestamp \<Rightarrow> ('w, 'm, bool result) node_prog" where
  "SyncHint V cb hint = do {
     rb \<leftarrow> GetLastUserCommit V ''main'';
     let before = (case rb of Inl _ \<Rightarrow> '''' | Inr (c, _) \<Rightarrow> commit_Hash c);
     rs \<leftarrow> syncOnce V cb;
     case rs of
       Inl err \<Rightarrow> return (Inl err)
     | Inr _ \<Rightarrow> do {
         ra \<leftarrow> GetLastUserCommit V ''main'';
         case ra of
           Inl _ \<Rightarrow> return (Inr False)
         | Inr (c, _) \<Rightarrow> return (Inr (before \<noteq> '''' \<and> before \<noteq> commit_Hash c)) } }"

definition Node_Sync ::
  "'w env \<Rightarrow> ('w, 'm) Node_scheme CommitRejectedCallback option \<Rightarrow> ('w, 'm, bool result) node_prog" where
  "Node_Sync V cb = SyncHint V cb zeroHLC"

end
