(* ===== verification/Node_Index.thy ===== *)
theory Node_Index
  imports Node
begin

text \<open>
  What the handlers of the node do to its index: adverts are refused or accepted according to
  a verdict that is a pure function of the advert, the configuration and the index; a decided
  timestamp stays decided; finalization picks the latest applied commit that every peer has
  passed; and a rebuilt index holds exactly the commits of the database and what was undecided
  or rejected before.
\<close>

section \<open>Effects of the index operations\<close>

lemma idxPut_effect:
  assumes "run_state (idxPut V e) s = (u, s')"
  shows "\<exists>w t. s' = s\<lparr>world := w, idx := Upsert (idx s) e t\<rparr>"
proof (cases "Time_IsZero (entry_UpdatedAt e)")
  case True
  then show ?thesis using assms by (auto simp: idxPut_def run_state_bind split: prod.splits) blast
next
  case False
  then have "s' = s\<lparr>world := world s, idx := Upsert (idx s) e (entry_UpdatedAt e)\<rparr>"
    using assms by (simp add: idxPut_def run_state_bind)
  then show ?thesis by blast
qed

lemma idxUpsert_effect:
  assumes "run_state (idxUpsert V h hash st) s = (u, s')"
  shows "\<exists>w t t'. s' = s\<lparr>world := w, idx := Upsert (idx s) (mkEntry h hash st t) t'\<rparr>"
proof -
  obtain t w where "e_time V (world s) = (t, w)" by fastforce
  then have "run_state (idxPut V (mkEntry h hash st t)) (s\<lparr>world := w\<rparr>) = (u, s')"
    using assms by (simp add: idxUpsert_def run_state_bind)
  from idxPut_effect [OF this] show ?thesis by auto
qed

lemma hlcUpdate_effect:
  assumes "run_state (hlcUpdate V h) s = (u, s')"
  shows "\<exists>w c. s' = s\<lparr>world := w, recHLC := c\<rparr>"
  using assms by (auto simp: hlcUpdate_def run_state_bind split: prod.splits)

section \<open>The verdict on an advert\<close>

datatype verdict = Ignored | Refused | Accepted

text \<open>\<open>verified\<close> says whether the identity check succeeds for the metadata.\<close>

definition ad_verdict ::
  "'w NodeConfig \<Rightarrow> MemoryCommitIndex \<Rightarrow> int64 \<Rightarrow> (CommitMetadata \<Rightarrow> bool) \<Rightarrow> CommitAdV1 \<Rightarrow> verdict" where
  "ad_verdict c i now verified ad =
     (if ad_Repo ad \<noteq> cfg_Repo c \<or> decided i (ad_HLC ad) \<or> own_peer c (PeerID (ad_HLC ad)) then Ignored
      else if skewed c now (ad_HLC ad) then Refused
      else case ParseCommitMetadata (ad_MetadataJSON ad) of
        Inl _ \<Rightarrow> Ignored
      | Inr m \<Rightarrow>
          if meta_HLC m = ad_HLC ad \<and> (ad_MetadataSig ad = '''' \<or> ad_MetadataSig ad = meta_Signature m) \<and> verified m
          then Accepted else Refused)"

definition identity_verified :: "'w NodeConfig \<Rightarrow> HLCTimestamp \<Rightarrow> 'w \<Rightarrow> CommitMetadata \<Rightarrow> bool" where
  "identity_verified c h w m \<longleftrightarrow>
     (case cfg_Identity c of
        None \<Rightarrow> True
      | Some resolver \<Rightarrow>
          (case fst (resolver (PeerID h) w) of
             Inl _ \<Rightarrow> False
           | Inr pub \<Rightarrow> pub \<noteq> '''' \<and> (\<exists>sg. cfg_Signer c = Some sg \<and> Verify m sg pub = Inr ())))"

lemma verify_identity_effect:
  "\<exists>w. run_state (verify_identity V c h m) s = (identity_verified c h (world s) m, s\<lparr>world := w\<rparr>)"
  by (cases "cfg_Identity c")
    (auto simp: verify_identity_def identity_verified_def run_state_bind intro: exI [of _ "world s"]
       split: prod.splits sum.splits option.splits)

text \<open>The state after an advert: only the world, the clock and the entry of its timestamp change.\<close>

definition ad_effect :: "('w, 'm) Node_scheme \<Rightarrow> HLCTimestamp \<Rightarrow> verdict \<Rightarrow> ('w, 'm) Node_scheme \<Rightarrow> bool" where
  "ad_effect s h v s' \<longleftrightarrow>
     (\<exists>w c t t'. s' = s\<lparr>world := w, recHLC := c, idx :=
        (case v of
           Ignored \<Rightarrow> idx s
         | Refused \<Rightarrow> Upsert (idx s) (mkEntry h '''' CommitStatusRejected t) t'
         | Accepted \<Rightarrow> Upsert (idx s) (mkEntry h '''' CommitStatusPending t) t')\<rparr> \<and>
      (v \<noteq> Accepted \<longrightarrow> c = recHLC s))"

lemma ad_effect_Ignored: "ad_effect s h Ignored (s\<lparr>world := w\<rparr>)"
  unfolding ad_effect_def by (intro exI [of _ w] exI [of _ "recHLC s"]) simp

lemma reject_ad_effect:
  assumes "run_state (reject_ad V h) (s\<lparr>world := w\<rparr>) = (b, s')"
  shows "\<not> b \<and> ad_effect s h Refused s'"
proof -
  obtain w' t t' where s': "s' = s\<lparr>world := w', idx := Upsert (idx s) (mkEntry h '''' CommitStatusRejected t) t'\<rparr>" "\<not> b"
    using assms by (auto simp: reject_ad_def run_state_bind split: prod.splits dest!: idxUpsert_effect)
  show ?thesis
    unfolding ad_effect_def s'(1) by (intro conjI s'(2) exI [of _ w'] exI [of _ "recHLC s"] exI [of _ t] exI [of _ t']) simp_all
qed

lemma onCommitAd_effect:
  assumes run: "run_state (onCommitAd V frm ad) s = (b, s')" and t: "e_time V (world s) = (t, w)"
  defines "v \<equiv> ad_verdict (cfg s) (idx s) (UnixNano t) (identity_verified (cfg s) (ad_HLC ad) w) ad"
  shows "(b \<longleftrightarrow> v = Accepted) \<and> ad_effect s (ad_HLC ad) v s'"
proof -
  consider (ignored) "ad_Repo ad \<noteq> cfg_Repo (cfg s) \<or> decided (idx s) (ad_HLC ad) \<or> own_peer (cfg s) (PeerID (ad_HLC ad))"
    | (skew) "\<not> (ad_Repo ad \<noteq> cfg_Repo (cfg s) \<or> decided (idx s) (ad_HLC ad) \<or> own_peer (cfg s) (PeerID (ad_HLC ad)))"
        "skewed (cfg s) (UnixNano t) (ad_HLC ad)"
    | (rest) "\<not> (ad_Repo ad \<noteq> cfg_Repo (cfg s) \<or> decided (idx s) (ad_HLC ad) \<or> own_peer (cfg s) (PeerID (ad_HLC ad)))"
        "\<not> skewed (cfg s) (UnixNano t) (ad_HLC ad)" by blast
  then show ?thesis
  proof cases
    case ignored
    then have "v = Ignored" "b = False" "s' = s"
      using run by (auto simp: v_def ad_verdict_def onCommitAd_def run_state_bind split: if_splits)
    then show ?thesis using ad_effect_Ignored [of s "ad_HLC ad" "world s"] by simp
  next
    case skew
    then have v: "v = Refused" and r: "run_state (reject_ad V (ad_HLC ad)) (s\<lparr>world := w\<rparr>) = (b, s')"
      using run t by (auto simp: v_def ad_verdict_def onCommitAd_def run_state_bind)
    show ?thesis using reject_ad_effect [OF r] v by simp
  next
    case rest
    show ?thesis
    proof (cases "ParseCommitMetadata (ad_MetadataJSON ad)")
      case (Inl e)
      then have "v = Ignored" "b = False" "s' = s\<lparr>world := w\<rparr>"
        using run t rest by (auto simp: v_def ad_verdict_def onCommitAd_def run_state_bind)
      then show ?thesis using ad_effect_Ignored [of s "ad_HLC ad" w] by simp
    next
      case (Inr m)
      note kind = ParseCommitMetadata_kind [OF Inr]
      show ?thesis
      proof (cases "meta_HLC m = ad_HLC ad \<and> (ad_MetadataSig ad = '''' \<or> ad_MetadataSig ad = meta_Signature m)")
        case False
        then have v: "v = Refused" and r: "run_state (reject_ad V (ad_HLC ad)) (s\<lparr>world := w\<rparr>) = (b, s')"
          using run t rest Inr kind by (auto simp: v_def ad_verdict_def onCommitAd_def run_state_bind split: if_splits)
        show ?thesis using reject_ad_effect [OF r] v by simp
      next
        case True
        obtain w2 where id: "run_state (verify_identity V (cfg s) (ad_HLC ad) m) (s\<lparr>world := w\<rparr>) =
            (identity_verified (cfg s) (ad_HLC ad) w m, s\<lparr>world := w2\<rparr>)"
          using verify_identity_effect [of V "cfg s" "ad_HLC ad" m "s\<lparr>world := w\<rparr>"] by auto
        show ?thesis
        proof (cases "identity_verified (cfg s) (ad_HLC ad) w m")
          case False
          then have v: "v = Refused" and r: "run_state (reject_ad V (ad_HLC ad)) (s\<lparr>world := w2\<rparr>) = (b, s')"
            using run t rest Inr kind True id by (auto simp: v_def ad_verdict_def onCommitAd_def run_state_bind)
          show ?thesis using reject_ad_effect [OF r] v by simp
        next
          case ok: True
          obtain s3 where u: "run_state (hlcUpdate V (ad_HLC ad)) (s\<lparr>world := w2\<rparr>) = ((), s3)"
            "run_state (idxUpsert V (ad_HLC ad) '''' CommitStatusPending) s3 = ((), s')" and b
            using run t rest Inr kind True id ok by (auto simp: onCommitAd_def run_state_bind split: prod.splits)
          obtain w3 c where "s3 = s\<lparr>world := w3, recHLC := c\<rparr>" using hlcUpdate_effect [OF u(1)] by auto
          moreover have "v = Accepted" using rest Inr True ok by (simp add: v_def ad_verdict_def)
          moreover obtain w4 x y where
            "s' = s3\<lparr>world := w4, idx := Upsert (idx s3) (mkEntry (ad_HLC ad) '''' CommitStatusPending x) y\<rparr>"
            using idxUpsert_effect [OF u(2)] by blast
          ultimately show ?thesis
            using \<open>b\<close> unfolding ad_effect_def
            by (intro conjI exI [of _ w4] exI [of _ c] exI [of _ x] exI [of _ y]) simp_all
        qed
      qed
    qed
  qed
qed


definition sample_gossip :: "rworld Gossip" where
  "sample_gossip = \<lparr>PublishCommitAd = \<lambda>ad w. (Inr (), w), PublishHeartbeat = \<lambda>hb w. (Inr (), w), Subscribe = \<lambda>w. (Inr (), w)\<rparr>"

text \<open>A configuration for the peer \<open>q\<close>, with a resolver that knows one key.\<close>

definition sample_config :: "rworld NodeConfig" where
  "sample_config = \<lparr>cfg_Dir = ''/tmp'', cfg_Repo = sample_repo, cfg_Signer = Some (sample_signer\<lparr>sgn_GetID := ''q''\<rparr>),
     cfg_Transport = Some \<lparr>tr_Gossip = Some sample_gossip, tr_Providers = Some 0\<rparr>, cfg_Log = True, cfg_DB = None,
     cfg_MaxClockSkew = 0, cfg_RepairInterval = 0, cfg_Identity = Some (\<lambda>p w. (Inr ''key'', w)), cfg_HeartbeatInterval = 0\<rparr>"

definition sample_node :: "rworld Node" where
  "sample_node = new_node sample_config (sample_state sample_world) True []"

definition sample_ad :: "HLCTimestamp \<Rightarrow> string \<Rightarrow> CommitAdV1" where
  "sample_ad h sig = \<lparr>ad_Repo = sample_repo, ad_HLC = h, ad_MetadataJSON = sample_message, ad_MetadataSig = sig, ad_ObservedAt = 0\<rparr>"

lemma sample_node_sel [simp]:
  "cfg sample_node = sample_config" "idx sample_node = NewMemoryCommitIndex" "peerHLC sample_node = []"
  "world sample_node = sample_world"
  by (simp_all add: sample_node_def new_node_def DB.defs sample_state_def)

lemma sample_time: "e_time reference_engine sample_world = (0, sample_world\<lparr>r_clock := 1\<rparr>)"
  by (simp add: reference_engine_def sample_world_def)

lemma sample_verdict:
  assumes "PeerID h \<noteq> ''q''"
  shows "ad_verdict sample_config NewMemoryCommitIndex now f (sample_ad h '''') =
    (if meta_HLC sample_metadata = h \<and> f sample_metadata then Accepted else Refused)"
  using assms
  by (simp add: ad_verdict_def sample_ad_def sample_config_def decided_def own_peer_def skewed_def Parse_sample_message)


text \<open>
  C4: with an identity resolver, only authentic adverts are accepted. An advert that leads to
  a synchronization is for the repository of the node and from another peer, its metadata
  carries its timestamp, and the metadata verifies under the non-empty key that the resolver
  returned for the peer named in the timestamp.
\<close>

theorem accepted_ad_authentic:
  assumes "run_state (onCommitAd V frm ad) s = (True, s')" "cfg_Identity (cfg s) = Some resolver"
  shows "\<exists>m pub sg w w'. ParseCommitMetadata (ad_MetadataJSON ad) = Inr m \<and> meta_HLC m = ad_HLC ad \<and>
    resolver (PeerID (ad_HLC ad)) w = (Inr pub, w') \<and> pub \<noteq> '''' \<and> cfg_Signer (cfg s) = Some sg \<and> Verify m sg pub = Inr () \<and>
    ad_Repo ad = cfg_Repo (cfg s) \<and> PeerID (ad_HLC ad) \<noteq> sgn_GetID sg"
proof -
  obtain t w where t: "e_time V (world s) = (t, w)" by fastforce
  let ?f = "identity_verified (cfg s) (ad_HLC ad) w"
  have "ad_verdict (cfg s) (idx s) (UnixNano t) ?f ad = Accepted"
    using onCommitAd_effect [OF assms(1) t] by simp
  then obtain m where m: "ParseCommitMetadata (ad_MetadataJSON ad) = Inr m" "meta_HLC m = ad_HLC ad" "?f m"
    and own: "\<not> own_peer (cfg s) (PeerID (ad_HLC ad))" "ad_Repo ad = cfg_Repo (cfg s)"
    by (auto simp: ad_verdict_def split: if_splits sum.splits)
  obtain pub w' where p: "resolver (PeerID (ad_HLC ad)) w = (Inr pub, w')" "pub \<noteq> ''''"
    and "\<exists>sg. cfg_Signer (cfg s) = Some sg \<and> Verify m sg pub = Inr ()"
    using m(3) assms(2) by (cases "resolver (PeerID (ad_HLC ad)) w") (auto simp: identity_verified_def split: sum.splits)
  then show ?thesis using m(1,2) own by (auto simp: own_peer_def) blast
qed

definition signed_sample :: CommitMetadata where
  "signed_sample = sample_metadata\<lparr>meta_Signature := ''sig''\<rparr>"

definition signed_message :: string where
  "signed_message = (case Marshal signed_sample of Inl _ \<Rightarrow> '''' | Inr s \<Rightarrow> s)"

lemma Parse_signed_message: "ParseCommitMetadata signed_message = Inr signed_sample"
proof -
  have utf8: "metadata_utf8 signed_sample"
    unfolding signed_sample_def by (rule metadata_utf8_signature [OF sample_metadata_ok(1)]) code_simp
  obtain s where "Marshal signed_sample = Inr s"
    using Marshal_total [of signed_sample] sample_metadata_ok(3,4) by (auto simp: signed_sample_def)
  with Marshal_Parse [OF utf8 this] sample_metadata_ok(2) show ?thesis
    by (simp add: signed_message_def signed_sample_def)
qed

definition genuine_ad :: CommitAdV1 where
  "genuine_ad = \<lparr>ad_Repo = sample_repo, ad_HLC = meta_HLC signed_sample, ad_MetadataJSON = signed_message,
     ad_MetadataSig = ''sig'', ad_ObservedAt = 0\<rparr>"

lemma Verify_signed_sample: "Verify signed_sample (sample_signer\<lparr>sgn_GetID := ''q''\<rparr>) ''key'' = Inr ()"
proof -
  obtain d where "SignableData signed_sample = Inr d"
    using Marshal_total [of "signed_sample\<lparr>meta_Signature := ''''\<rparr>"] sample_metadata_ok(3,4)
    by (auto simp: SignableData_Marshal Marshal_def signed_sample_def split: sum.splits)
  then show ?thesis by (simp add: Verify_def signed_sample_def sample_signer_def)
qed

lemma genuine_ad_accepted:
  "\<exists>s'. run_state (onCommitAd reference_engine ''p'' genuine_ad) sample_node = (True, s')"
proof -
  obtain b s' where run: "run_state (onCommitAd reference_engine ''p'' genuine_ad) sample_node = (b, s')" by fastforce
  have "identity_verified sample_config (ad_HLC genuine_ad) w signed_sample" for w
    using Verify_signed_sample by (simp add: identity_verified_def sample_config_def)
  moreover have "meta_Signature signed_sample = ''sig''" "PeerID (meta_HLC signed_sample) = ''p''"
    by (simp_all add: signed_sample_def sample_metadata_def NewCommitMetadata_def)
  ultimately have "ad_verdict sample_config NewMemoryCommitIndex (UnixNano 0)
      (identity_verified sample_config (ad_HLC genuine_ad) (sample_world\<lparr>r_clock := 1\<rparr>)) genuine_ad = Accepted"
    by (simp add: ad_verdict_def decided_def own_peer_def skewed_def Parse_signed_message sample_config_def genuine_ad_def
        sample_signer_def)
  with onCommitAd_effect [OF run] sample_time have b by simp
  with run show ?thesis by auto
qed

theorem accepted_ad_authentic_witness:
  "\<exists>s' m pub sg. run_state (onCommitAd reference_engine ''p'' genuine_ad) sample_node = (True, s') \<and>
     ParseCommitMetadata (ad_MetadataJSON genuine_ad) = Inr m \<and> meta_HLC m = ad_HLC genuine_ad \<and> Verify m sg pub = Inr ()"
proof -
  obtain s' where run: "run_state (onCommitAd reference_engine ''p'' genuine_ad) sample_node = (True, s')"
    using genuine_ad_accepted by blast
  have "cfg_Identity (cfg sample_node) = Some (\<lambda>p w. (Inr ''key'', w))" by (simp add: sample_config_def)
  from accepted_ad_authentic [OF run this] run show ?thesis by blast
qed



section \<open>Finalization\<close>

lemma foldl_min_step:
  "\<exists>m'. foldl min_step (Some m) hs = Some m' \<and> m' \<in> insert m (set hs) \<and> (\<forall>h \<in> insert m (set hs). m' \<le> h)"
proof (induction hs arbitrary: m)
  case (Cons h hs)
  let ?k = "if Less h m then h else m"
  obtain m' where "foldl min_step (Some ?k) hs = Some m'" "m' \<in> insert ?k (set hs)" "\<forall>x \<in> insert ?k (set hs). m' \<le> x"
    using Cons by blast
  moreover have "min_step (Some m) h = Some ?k" by (simp add: min_step_def)
  moreover have "?k \<le> m" "?k \<le> h" by (auto simp: Less_less)
  ultimately show ?case by (intro exI [of _ m']) (auto split: if_splits)
qed simp

lemma stable_hlc_min:
  assumes "env_ok V" "peers \<noteq> []"
  shows "\<exists>m. stable_hlc V peers = Some m \<and> m \<in> snd ` set peers \<and> (\<forall>h \<in> snd ` set peers. m \<le> h)"
proof -
  have set: "set (e_it_peers V peers) = set peers" using assms(1) by (simp add: env_ok_def range_ok_set)
  then obtain h hs where h: "map snd (e_it_peers V peers) = h # hs"
    using assms(2) by (cases "e_it_peers V peers") auto
  then have "insert h (set hs) = snd ` set peers" using set by (metis list.simps(15) set_map)
  then show ?thesis using foldl_min_step [of h hs] h by (simp add: stable_hlc_def min_step_def)
qed

lemma foldl_best_step:
  "case foldl (best_step st fb) None es of
     None \<Rightarrow> \<forall>e \<in> set es. \<not> candidate st fb e
   | Some b \<Rightarrow> b \<in> set es \<and> candidate st fb b \<and> (\<forall>e \<in> set es. candidate st fb e \<longrightarrow> entry_HLC e \<le> entry_HLC b)"
proof (induction es rule: rev_induct)
  case (snoc e es)
  then show ?case
    by (auto simp: best_step_def Less_less split: option.splits if_splits intro: less_imp_le order_trans)
qed simp

text \<open>What may be finalized: applied, before what every peer has reported, after the base.\<close>

definition finalizable :: "('w, 'm) Node_scheme \<Rightarrow> CommitIndexEntry \<Rightarrow> bool" where
  "finalizable s e \<longleftrightarrow> Get (idx s) (entry_HLC e) = Some e \<and> entry_Status e = CommitStatusApplied \<and>
     Less zeroHLC (entry_HLC e) \<and> (\<forall>(p, h) \<in> set (peerHLC s). Less (entry_HLC e) h) \<and>
     (case finalizedBase (idx s) of None \<Rightarrow> True | Some b \<Rightarrow> Less (fb_HLC b) (entry_HLC e))"

lemma candidates_finalizable:
  assumes "env_ok V" "idx_wf (idx s)" "stable_hlc V (peerHLC s) = Some st" "peerHLC s \<noteq> []"
  shows "e \<in> set (ListAfter (e_it_entries V) (idx s) zeroHLC 0) \<and> candidate st (finalizedBase (idx s)) e \<longleftrightarrow> finalizable s e"
proof -
  have "range_ok (e_it_entries V)" using assms(1) by (simp add: env_ok_def)
  then have "e \<in> set (ListAfter (e_it_entries V) (idx s) zeroHLC 0) \<longleftrightarrow>
      Get (idx s) (entry_HLC e) = Some e \<and> Less zeroHLC (entry_HLC e)"
    using ListAfter_it [OF _ assms(2)] mem.list_after_mem [OF assms(2)] by simp
  moreover have "Less (entry_HLC e) st \<longleftrightarrow> (\<forall>(p, h) \<in> set (peerHLC s). Less (entry_HLC e) h)"
    using stable_hlc_min [OF assms(1,4)] assms(3) by (force simp: Less_less intro: less_le_trans)
  ultimately show ?thesis by (auto simp: candidate_def finalizable_def split: option.splits)
qed

text \<open>
  C11: finalization is exact. If some applied commit lies before the timestamps of all known
  peers and after the finalized base, the base moves to the latest such commit; otherwise
  nothing changes. The entries of the index stay as they are.
\<close>

theorem tryFinalize_exact:
  assumes env: "env_ok V" and wf: "idx_wf (idx s)" and run: "run_state (tryFinalize V) s = ((), s')"
  shows "if peerHLC s \<noteq> [] \<and> (\<exists>e. finalizable s e)
    then Get (idx s') = Get (idx s) \<and>
      (\<exists>e fb. finalizable s e \<and> (\<forall>e'. finalizable s e' \<longrightarrow> \<not> Less (entry_HLC e) (entry_HLC e')) \<and>
         finalizedBase (idx s') = Some fb \<and> fb_HLC fb = entry_HLC e \<and> fb_CommitHash fb = entry_CommitHash e)
    else s' = s"
proof (cases "peerHLC s = []")
  case True
  have "e_it_peers V [] = []" using env range_ok_set [of "e_it_peers V" "[]"] by (auto simp: env_ok_def)
  then show ?thesis using run True by (simp add: tryFinalize_def run_state_bind stable_hlc_def)
next
  case False
  then obtain st where st: "stable_hlc V (peerHLC s) = Some st" "st \<in> snd ` set (peerHLC s)"
    using stable_hlc_min [OF env] by blast
  note fin = candidates_finalizable [OF env wf st(1) False]
  let ?es = "ListAfter (e_it_entries V) (idx s) zeroHLC 0"
  let ?best = "foldl (best_step st (finalizedBase (idx s))) None ?es"
  show ?thesis
  proof (cases "HLC_IsZero st")
    case True
    then have "\<not> finalizable s e" for e
      using st(2) by (force simp: finalizable_def HLC_IsZero_eq Less_less)
    moreover have "s' = s" using run st(1) True by (simp add: tryFinalize_def run_state_bind)
    ultimately show ?thesis by simp
  next
    case nz: False
    show ?thesis
    proof (cases ?best)
      case None
      then have "\<not> finalizable s e" for e using foldl_best_step [where st = st and fb = "finalizedBase (idx s)" and es = ?es] fin by auto
      moreover have "s' = s" using run st(1) nz None by (simp add: tryFinalize_def run_state_bind)
      ultimately show ?thesis by simp
    next
      case (Some b)
      then have b: "finalizable s b" "\<forall>e'. finalizable s e' \<longrightarrow> entry_HLC e' \<le> entry_HLC b"
        using foldl_best_step [where st = st and fb = "finalizedBase (idx s)" and es = ?es] fin by auto
      obtain t t' where i: "idx s' = SetFinalizedBase (idx s)
          \<lparr>fb_HLC = entry_HLC b, fb_CommitHash = entry_CommitHash b, fb_UpdatedAt = t\<rparr> t'"
        using run st(1) nz Some by (auto simp: tryFinalize_def run_state_bind split: prod.splits if_splits)
      have "\<exists>fb. finalizedBase (idx s') = Some fb \<and> fb_HLC fb = entry_HLC b \<and> fb_CommitHash fb = entry_CommitHash b"
        using b(1) by (auto simp: i mem.base_set_base finalizable_def split: option.splits)
      then show ?thesis using b False i by (auto simp: Less_less leD)
    qed
  qed
qed

definition fin_node :: "rworld Node" where
  "fin_node = sample_node\<lparr>idx := Upsert NewMemoryCommitIndex (mkEntry \<lparr>Wall = 7, Logical = 1, PeerID = ''p''\<rparr> ''h1'' CommitStatusApplied 1) 1,
     peerHLC := [(''a'', \<lparr>Wall = 9, Logical = 0, PeerID = ''a''\<rparr>)]\<rparr>"

lemma finalizable_fin_node:
  "finalizable fin_node e \<longleftrightarrow> e = mkEntry \<lparr>Wall = 7, Logical = 1, PeerID = ''p''\<rparr> ''h1'' CommitStatusApplied 1"
proof -
  let ?h = "\<lparr>Wall = 7, Logical = 1, PeerID = ''p''\<rparr> :: HLCTimestamp"
  let ?e = "mkEntry ?h ''h1'' CommitStatusApplied 1"
  have g: "Get (idx fin_node) h = (if h = ?h then Some ?e else None)" for h
    by (simp add: fin_node_def mem.lookup_upsert [OF idx_wf_New] stamped_def Time_IsZero_def)
  have f: "finalizedBase (idx fin_node) = None" "peerHLC fin_node = [(''a'', \<lparr>Wall = 9, Logical = 0, PeerID = ''a''\<rparr>)]"
    by (simp_all add: fin_node_def NewMemoryCommitIndex_def Upsert_stamped)
  have l: "Less zeroHLC ?h" "Less ?h \<lparr>Wall = 9, Logical = 0, PeerID = ''a''\<rparr>" by (simp_all add: Less_def zeroHLC_def)
  show ?thesis by (auto simp: finalizable_def g f l)
qed

theorem tryFinalize_exact_witness:
  "\<exists>s' fb. run_state (tryFinalize reference_engine) fin_node = ((), s') \<and> finalizedBase (idx s') = Some fb \<and> fb_CommitHash fb = ''h1''"
proof -
  obtain s' where run: "run_state (tryFinalize reference_engine) fin_node = ((), s')" by (metis old.unit.exhaust surj_pair)
  have "idx_wf (idx fin_node)" "peerHLC fin_node \<noteq> []" by (simp_all add: fin_node_def)
  with tryFinalize_exact [OF reference_env_ok _ run] run show ?thesis by (auto simp: finalizable_fin_node)
qed

section \<open>Rebuilding the index\<close>


text \<open>A program over the database that only executes calls on the world keeps what they keep.\<close>

definition frame :: "('w, 'm) Node_scheme \<Rightarrow> ('w, 'm) Node_scheme \<Rightarrow> bool" where
  "frame s0 s \<longleftrightarrow> (\<exists>w. s = s0\<lparr>world := w\<rparr>)"

lemma keeps_frame [keeps_intros]: "keeps (frame s0) (on_world f)" "keeps (frame s0) (gets g)"
  by (auto intro!: keepsI simp: frame_def split: prod.splits) blast

lemma frame_refl [simp]: "frame s s"
  unfolding frame_def by (rule exI [of _ "world s"]) simp

lemma keeps_frame_loop [keeps_intros]: "keeps (frame s0) (commits_since_loop n V q base seen queue commits)"
proof (induction n arbitrary: seen queue commits)
  case 0
  then show ?case by (cases queue) (auto intro: keeps_intros)
next
  case (Suc n)
  then show ?case
  proof (cases queue)
    case (Cons hash rest)
    then show ?thesis
      unfolding commits_since_loop.simps getCommitByHash_def getParentHashes_def Let_def Cons
      by (intro keeps_intros Suc)
  qed (auto intro: keeps_intros)
qed

lemma keeps_frame_GetAllCommits: "keeps (frame s0) (GetAllCommits V)"
  unfolding GetAllCommits_def getCommitsSince_def getBranchHeadHash_def by (intro keeps_intros)

definition index_frame :: "('w, 'm) Node_scheme \<Rightarrow> ('w, 'm) Node_scheme \<Rightarrow> bool" where
  "index_frame s s' \<longleftrightarrow> idx_wf (idx s') \<and> finalizedBase (idx s') = finalizedBase (idx s) \<and> peerHLC s' = peerHLC s \<and> cfg s' = cfg s"

lemma index_commits_effect:
  assumes "idx_wf (idx s)" "run_state (index_commits V cs) s = (u, s')"
  shows "index_frame s s' \<and> (\<forall>h. if Some h \<in> user_hlc ` set cs
      then \<exists>c \<in> set cs. user_hlc c = Some h \<and> (\<exists>e. Get (idx s') h = Some e \<and> entry_Status e = CommitStatusApplied \<and> entry_CommitHash e = commit_Hash c)
      else Get (idx s') h = Get (idx s) h)"
  using assms
proof (induction cs arbitrary: s)
  case Nil
  then show ?case by (simp add: index_frame_def)
next
  case (Cons c cs)
  show ?case
  proof (cases "ParseCommitMetadata (commit_Message c)")
    case (Inl e)
    then have "user_hlc c = None" by (simp add: user_hlc_def)
    moreover have "run_state (index_commits V cs) s = (u, s')" using Cons.prems Inl by simp
    ultimately show ?thesis using Cons.IH [OF Cons.prems(1)] by (auto split: if_splits)
  next
    case (Inr m)
    note kind = ParseCommitMetadata_kind [OF Inr]
    have hlc: "user_hlc c = Some (meta_HLC m)" using Inr by (simp add: user_hlc_def)
    obtain s1 where s1: "run_state (idxUpsert V (meta_HLC m) (commit_Hash c) CommitStatusApplied) s = ((), s1)"
      and rest: "run_state (index_commits V cs) s1 = (u, s')"
      using Cons.prems(2) Inr kind by (auto simp: run_state_bind split: prod.splits)
    obtain w t t' where e: "s1 = s\<lparr>world := w, idx := Upsert (idx s) (mkEntry (meta_HLC m) (commit_Hash c) CommitStatusApplied t) t'\<rparr>"
      using idxUpsert_effect [OF s1] by blast
    then have "idx_wf (idx s1)" using Cons.prems(1) by simp
    from Cons.IH [OF this rest] show ?thesis
      using hlc Cons.prems(1) by (auto simp: e index_frame_def split: if_splits)
  qed
qed

text \<open>An entry is restored unless its timestamp has become applied.\<close>

lemma restore_entries_effect:
  assumes "idx_wf (idx s)" "run_state (restore_entries V es) s = (u, s')"
  shows "index_frame s s' \<and> (\<forall>h. if (\<exists>e. Get (idx s) h = Some e \<and> entry_Status e = CommitStatusApplied) \<or> h \<notin> entry_HLC ` set es
      then Get (idx s') h = Get (idx s) h
      else \<exists>e \<in> set es. entry_HLC e = h \<and> (\<exists>t. Get (idx s') h = Some (stamped e t)))"
  using assms
proof (induction es arbitrary: s)
  case Nil
  then show ?case by (simp add: index_frame_def)
next
  case (Cons e es)
  show ?case
  proof (cases "\<exists>cur. Get (idx s) (entry_HLC e) = Some cur \<and> entry_Status cur = CommitStatusApplied")
    case True
    then have "run_state (restore_entries V es) s = (u, s')" using Cons.prems(2) by (auto simp: run_state_bind)
    from Cons.IH [OF Cons.prems(1) this] show ?thesis using True by (auto split: if_splits)
  next
    case False
    obtain s1 where s1: "run_state (idxPut V e) s = ((), s1)" and rest: "run_state (restore_entries V es) s1 = (u, s')"
      using Cons.prems(2) False by (auto simp: run_state_bind split: option.splits if_splits prod.splits)
    obtain w t where e: "s1 = s\<lparr>world := w, idx := Upsert (idx s) e t\<rparr>" using idxPut_effect [OF s1] by blast
    then have "idx_wf (idx s1)" using Cons.prems(1) by simp
    note IH = Cons.IH [OF this rest]
    have get: "Get (idx s1) h = (if h = entry_HLC e then Some (stamped e t) else Get (idx s) h)" for h
      using Cons.prems(1) by (simp add: e)
    show ?thesis
    proof (intro conjI allI)
      show "index_frame s s'" using IH by (simp add: index_frame_def e)
      fix h
      from IH [THEN conjunct2, rule_format, of h]
      show "if (\<exists>e. Get (idx s) h = Some e \<and> entry_Status e = CommitStatusApplied) \<or> h \<notin> entry_HLC ` set (e # es)
        then Get (idx s') h = Get (idx s) h
        else \<exists>e' \<in> set (e # es). entry_HLC e' = h \<and> (\<exists>t. Get (idx s') h = Some (stamped e' t))"
        using False by (cases "h = entry_HLC e") (auto simp: get split: if_splits)
    qed
  qed
qed

lemma preserved_mem:
  assumes "env_ok V" "idx_wf i"
  shows "e \<in> set (preserved_entries V i) \<longleftrightarrow> Get i (entry_HLC e) = Some e \<and> Less zeroHLC (entry_HLC e) \<and>
    entry_Status e \<in> {CommitStatusPending, CommitStatusRejected}"
proof -
  have "range_ok (e_it_entries V)" using assms(1) by (simp add: env_ok_def)
  then have "ListAfter (e_it_entries V) i zeroHLC 0 = ListAfter (\<lambda>xs. xs) i zeroHLC 0" using ListAfter_it assms(2) by blast
  then show ?thesis
    using mem.list_after_mem [OF assms(2)] by (cases "entry_Status e") (auto simp: preserved_entries_def)
qed

text \<open>
  C18: a rebuilt index is exact. After a successful rebuild, a timestamp that a user commit of
  the database carries is applied, with the hash of such a commit; any other timestamp has
  the entry it had, if that was pending or rejected and its timestamp is after the zero
  timestamp, and otherwise none. The finalized base is kept.
\<close>

theorem initIndexFromDB_exact:
  assumes env: "env_ok V" and wf: "idx_wf (idx s)"
    and run: "run_state (initIndexFromDB V) s = (Inr (), s')"
    and all: "run_state (GetAllCommits V) (s\<lparr>idx := resetForRebuild (idx s)\<rparr>) = (Inr commits, s1)"
  shows "finalizedBase (idx s') = finalizedBase (idx s) \<and> (\<forall>h.
    if Some h \<in> user_hlc ` set commits
    then \<exists>c \<in> set commits. user_hlc c = Some h \<and>
      (\<exists>e. Get (idx s') h = Some e \<and> entry_Status e = CommitStatusApplied \<and> entry_CommitHash e = commit_Hash c)
    else case Get (idx s) h of
        None \<Rightarrow> Get (idx s') h = None
      | Some e \<Rightarrow> if Less zeroHLC h \<and> entry_Status e \<in> {CommitStatusPending, CommitStatusRejected}
          then \<exists>t. Get (idx s') h = Some (stamped e t) else Get (idx s') h = None)"
proof -
  let ?s0 = "s\<lparr>idx := resetForRebuild (idx s)\<rparr>"
  have "frame ?s0 s1" by (rule keepsD [OF keeps_frame_GetAllCommits _ all]) simp
  then obtain w where s1: "s1 = ?s0\<lparr>world := w\<rparr>" by (auto simp: frame_def)
  obtain s2 where c: "run_state (index_commits V commits) s1 = ((), s2)"
    and r: "run_state (restore_entries V (preserved_entries V (idx s))) s2 = ((), s')"
    using run all by (auto simp: initIndexFromDB_def run_state_bind Let_def split: prod.splits)
  note ce = index_commits_effect [OF _ c]
  have "idx_wf (idx s1)" "\<And>h. Get (idx s1) h = None" by (simp_all add: s1)
  with ce have f2: "index_frame s1 s2" and g2: "\<And>h. if Some h \<in> user_hlc ` set commits
      then \<exists>c \<in> set commits. user_hlc c = Some h \<and> (\<exists>e. Get (idx s2) h = Some e \<and> entry_Status e = CommitStatusApplied \<and> entry_CommitHash e = commit_Hash c)
      else Get (idx s2) h = None" by auto
  from f2 have "idx_wf (idx s2)" by (simp add: index_frame_def)
  note re = restore_entries_effect [OF this r]
  have keep: "e \<in> set (preserved_entries V (idx s)) \<longleftrightarrow> Get (idx s) (entry_HLC e) = Some e \<and> Less zeroHLC (entry_HLC e) \<and>
    entry_Status e \<in> {CommitStatusPending, CommitStatusRejected}" for e by (rule preserved_mem [OF env wf])
  have fb: "finalizedBase (idx s') = finalizedBase (idx s)" using re f2 by (simp add: index_frame_def s1)
  show ?thesis
  proof (intro conjI fb allI)
    fix h
    have hlc: "Get (idx s) h = Some e \<Longrightarrow> entry_HLC e = h" for e using wf by (rule Get_entry_HLC)
    have r': "if (\<exists>e. Get (idx s2) h = Some e \<and> entry_Status e = CommitStatusApplied) \<or> h \<notin> entry_HLC ` set (preserved_entries V (idx s))
      then Get (idx s') h = Get (idx s2) h
      else \<exists>e \<in> set (preserved_entries V (idx s)). entry_HLC e = h \<and> (\<exists>t. Get (idx s') h = Some (stamped e t))"
      using re by blast
    show "if Some h \<in> user_hlc ` set commits
      then \<exists>c \<in> set commits. user_hlc c = Some h \<and>
        (\<exists>e. Get (idx s') h = Some e \<and> entry_Status e = CommitStatusApplied \<and> entry_CommitHash e = commit_Hash c)
      else case Get (idx s) h of
          None \<Rightarrow> Get (idx s') h = None
        | Some e \<Rightarrow> if Less zeroHLC h \<and> entry_Status e \<in> {CommitStatusPending, CommitStatusRejected}
            then \<exists>t. Get (idx s') h = Some (stamped e t) else Get (idx s') h = None"
    proof (cases "Some h \<in> user_hlc ` set commits")
      case True
      then show ?thesis using g2 [of h] r' by (auto split: if_splits)
    next
      case False
      then have none: "Get (idx s2) h = None" using g2 [of h] by simp
      show ?thesis
      proof (cases "h \<in> entry_HLC ` set (preserved_entries V (idx s))")
        case True
        then show ?thesis using False none r' keep by auto
      next
        case no: False
        then have "Get (idx s') h = None" using none r' by auto
        moreover have "\<not> (Less zeroHLC h \<and> entry_Status e \<in> {CommitStatusPending, CommitStatusRejected})"
          if "Get (idx s) h = Some e" for e
          using no keep [of e] hlc [OF that] that by blast
        ultimately show ?thesis using False by (auto split: option.splits)
      qed
    qed
  qed
qed

lemma initIndexFromDB_succeeds:
  "run_state (GetAllCommits V) (s\<lparr>idx := resetForRebuild (idx s)\<rparr>) = (Inr commits, s1) \<Longrightarrow>
     \<exists>s'. run_state (initIndexFromDB V) s = (Inr (), s')"
  by (simp add: initIndexFromDB_def run_state_bind Let_def split: prod.splits)

text \<open>A node with one pending entry, on the sample database, which has no user commits.\<close>

definition pending_node :: "rworld Node" where
  "pending_node = sample_node\<lparr>idx := Upsert NewMemoryCommitIndex (mkEntry \<lparr>Wall = 7, Logical = 1, PeerID = ''p''\<rparr> '''' CommitStatusPending 1) 1\<rparr>"

theorem initIndexFromDB_exact_witness:
  "\<exists>s' t. run_state (initIndexFromDB reference_engine) pending_node = (Inr (), s') \<and>
     Get (idx s') \<lparr>Wall = 7, Logical = 1, PeerID = ''p''\<rparr> =
       Some (stamped (mkEntry \<lparr>Wall = 7, Logical = 1, PeerID = ''p''\<rparr> '''' CommitStatusPending 1) t)"
proof -
  let ?h = "\<lparr>Wall = 7, Logical = 1, PeerID = ''p''\<rparr> :: HLCTimestamp"
  let ?r0 = "run_state (GetAllCommits reference_engine) (pending_node\<lparr>idx := resetForRebuild (idx pending_node)\<rparr>)"
  have "fst ?r0 = Inr [ref_commit ''local001'' ''local'', ref_commit ''base0000'' ''init'']" by code_simp
  then obtain s1 where all: "?r0 = (Inr [ref_commit ''local001'' ''local'', ref_commit ''base0000'' ''init''], s1)"
    by (metis prod.collapse)
  then obtain s' where run: "run_state (initIndexFromDB reference_engine) pending_node = (Inr (), s')"
    using initIndexFromDB_succeeds by blast
  have wf: "idx_wf (idx pending_node)" by (simp add: pending_node_def)
  have no: "user_hlc (ref_commit ''local001'' ''local'') = None" "user_hlc (ref_commit ''base0000'' ''init'') = None" by code_simp+
  have get: "Get (idx pending_node) ?h = Some (mkEntry ?h '''' CommitStatusPending 1)"
    by (simp add: pending_node_def mem.lookup_upsert [OF idx_wf_New] stamped_def Time_IsZero_def)
  have "Less zeroHLC ?h" by (simp add: Less_def zeroHLC_def)
  with initIndexFromDB_exact [OF reference_env_ok wf run all, THEN conjunct2, rule_format, of ?h] run no get
  show ?thesis by auto
qed

text \<open>
  A rebuild that cannot read the commits loses the undecided entries. When reading the
  commits fails, the index is left empty: what was pending or rejected is forgotten.
\<close>

theorem failed_rebuild_empties_index:
  assumes "run_state (initIndexFromDB V) s = (Inl err, s')"
  shows "Get (idx s') h = None \<and> finalizedBase (idx s') = finalizedBase (idx s)"
proof -
  let ?s0 = "s\<lparr>idx := resetForRebuild (idx s)\<rparr>"
  have "run_state (GetAllCommits V) ?s0 = (Inl err, s')"
    using assms by (auto simp: initIndexFromDB_def run_state_bind Let_def split: prod.splits sum.splits)
  then have "frame ?s0 s'" using keepsD [OF keeps_frame_GetAllCommits] frame_refl by blast
  then show ?thesis by (auto simp: frame_def)
qed

definition failing_engine :: "rworld env" where
  "failing_engine = reference_engine\<lparr>e_query_string := \<lambda>c q w. (Inl (ErrText ''timeout''), w),
     e_fetch_all := \<lambda>q w. (Inl (ErrText ''timeout''), w)\<rparr>"

theorem failed_rebuild_empties_index_witness:
  "\<exists>err s'. run_state (initIndexFromDB failing_engine) pending_node = (Inl err, s') \<and>
     Get (idx pending_node) \<lparr>Wall = 7, Logical = 1, PeerID = ''p''\<rparr> \<noteq> None \<and>
     Get (idx s') \<lparr>Wall = 7, Logical = 1, PeerID = ''p''\<rparr> = None"
proof -
  let ?run = "run_state (initIndexFromDB failing_engine) pending_node"
  have "isl (fst ?run)" by code_simp
  then obtain err s' where run: "?run = (Inl err, s')" by (metis isl_def prod.collapse)
  have "Get (idx pending_node) \<lparr>Wall = 7, Logical = 1, PeerID = ''p''\<rparr> \<noteq> None"
    by (simp add: pending_node_def mem.lookup_upsert [OF idx_wf_New])
  with failed_rebuild_empties_index [OF run] run show ?thesis by blast
qed

end
