(* ===== verification/Sync_Safety.thy ===== *)
theory Sync_Safety
  imports Node_Index
begin

text \<open>
  What a synchronization pass does to the branches, what opening a node establishes, and that
  the adverts which a node publishes are accepted by the others.
\<close>

section \<open>Opening a node\<close>

lemma OpenNode_cases:
  assumes "OpenNode V config reg w = (Inr n, reg', w')"
  obtains tr p db owns where "RepoName (cfg_Repo config) \<noteq> ''''" "cfg_Signer config \<noteq> None"
    "cfg_Transport config = Some tr" "tr_Providers tr = Some p"
    "owns \<longleftrightarrow> cfg_DB config = None" "cfg_DB config = None \<longrightarrow> cfg_Dir config \<noteq> ''''"
    "n = installReconcilerHooks (new_node (node_defaults config) db owns reg')" "world db = w'"
    "reg' = RegisterSwarmProviders (cfg_Repo config) (Some p) reg"
proof -
  have sel: "cfg_Repo (node_defaults config) = cfg_Repo config" "cfg_DB (node_defaults config) = cfg_DB config"
    "cfg_Dir (node_defaults config) = cfg_Dir config"
    by (simp_all add: node_defaults_def)
  obtain tr where tr: "cfg_Transport config = Some tr" "tr_Providers tr \<noteq> None"
    and ok: "RepoName (cfg_Repo config) \<noteq> ''''" "cfg_Signer config \<noteq> None"
    using assms by (auto simp: OpenNode_def split: if_split_asm option.split_asm)
  obtain p where p: "tr_Providers tr = Some p" using tr by blast
  note run = assms [unfolded OpenNode_def Let_def sel, simplified tr p ok]
  show thesis
  proof (cases "cfg_DB config")
    case (Some db)
    then show thesis using run by (intro that [OF ok tr(1) p, where owns = False]) (auto simp: ok p)
  next
    case None
    obtain ro w1 where o: "Open V (cfg_Dir config) (RepoName (cfg_Repo config)) (cfg_Log (node_defaults config))
        (cfg_Signer (node_defaults config)) w = (ro, w1)" by fastforce
    have dir: "cfg_Dir config \<noteq> ''''" using run None ok p by auto
    obtain db0 where "ro = Inr db0" using run None ok p o dir by (cases ro) auto
    with run None ok p o dir show thesis
      by (intro that [OF ok tr(1) p, where owns = True and db = "snd (run_state (EnsureSwarmRemote V (cfg_Repo config)) db0)"]) auto
  qed
qed

text \<open>
  C33: \<open>OpenNode\<close> validates its configuration. It succeeds only for a named repository, with a
  signer and with a transport that has providers; the node it returns has intervals and a
  skew bound that are not zero, an empty index, no known peers, the hook of its reconciler
  installed, and its provider picker registered for the repository.
\<close>

theorem OpenNode_ok:
  assumes "OpenNode V config reg w = (Inr n, reg', w')"
  shows "RepoName (cfg_Repo config) \<noteq> '''' \<and> cfg_Signer config \<noteq> None \<and> cfg_Repo (cfg n) = cfg_Repo config \<and>
    (\<exists>tr p. cfg_Transport config = Some tr \<and> tr_Providers tr = Some p \<and>
       getSwarmProviderPicker (swarmProviders n) (cfg_Repo config) = Some p) \<and>
    swarmProviders n = reg' \<and> cfg_MaxClockSkew (cfg n) \<noteq> 0 \<and> cfg_RepairInterval (cfg n) \<noteq> 0 \<and> cfg_HeartbeatInterval (cfg n) \<noteq> 0 \<and>
    idx n = NewMemoryCommitIndex \<and> peerHLC n = [] \<and> hookInstalled n \<and>
    (ownsDB n \<longleftrightarrow> cfg_DB config = None) \<and> (cfg_DB config = None \<longrightarrow> cfg_Dir config \<noteq> '''') \<and> world n = w'"
  using assms
  by (elim OpenNode_cases)
    (simp add: installReconcilerHooks_def new_node_def node_defaults_def DB.defs MaxClockSkew_def getSwarmProviderPicker_Register)

theorem OpenNode_ok_witness:
  "\<exists>n reg' w'. OpenNode reference_engine (sample_config\<lparr>cfg_DB := Some (sample_state sample_world)\<rparr>) [] sample_world = (Inr n, reg', w') \<and>
     hookInstalled n \<and> \<not> ownsDB n \<and> getSwarmProviderPicker reg' sample_repo = Some 0"
proof -
  let ?run = "OpenNode reference_engine (sample_config\<lparr>cfg_DB := Some (sample_state sample_world)\<rparr>) [] sample_world"
  have "\<exists>n reg' w'. ?run = (Inr n, reg', w')"
    by (simp add: OpenNode_def sample_config_def sample_repo_def node_defaults_def Let_def)
  then obtain n reg' w' where run: "?run = (Inr n, reg', w')" by blast
  from OpenNode_ok [OF run] run show ?thesis by (auto simp: sample_config_def)
qed

section \<open>Published adverts are accepted\<close>

lemma first_user_commit_meta:
  "first_user_commit rows = Inr (c, m) \<Longrightarrow> ParseCommitMetadata (commit_Message c) = Inr m \<and> meta_Kind m = CommitKindUser"
  by (induction rows rule: first_user_commit.induct) (auto split: sum.splits if_splits)

lemma publishLocalCommitAd_ad:
  assumes "run_state (publishLocalCommitAd V h) s = (Some ad, s')"
  shows "ad_Repo ad = cfg_Repo (cfg s) \<and> (\<exists>m. ParseCommitMetadata (ad_MetadataJSON ad) = Inr m \<and> meta_HLC m = ad_HLC ad \<and>
    ad_MetadataSig ad = meta_Signature m)"
proof -
  obtain g where g: "node_gossip s = Some g"
    using assms by (cases "node_gossip s") (auto simp: publishLocalCommitAd_def run_state_bind)
  obtain c m s1 where u: "run_state (GetLastUserCommit V ''main'') s = (Inr (c, m), s1)"
    using assms g by (auto simp: publishLocalCommitAd_def run_state_bind split: prod.splits sum.splits)
  then have m: "ParseCommitMetadata (commit_Message c) = Inr m" and s1: "\<exists>w. s1 = s\<lparr>world := w\<rparr>"
    by (auto simp: GetLastUserCommit_def run_state_bind split: prod.splits sum.splits dest!: first_user_commit_meta)
  have "\<exists>s2 t. run_state (idxUpsert V (meta_HLC m) (commit_Hash c) CommitStatusApplied) s1 = ((), s2) \<and>
      ad = \<lparr>ad_Repo = cfg_Repo (cfg s2), ad_HLC = meta_HLC m, ad_MetadataJSON = commit_Message c,
        ad_MetadataSig = meta_Signature m, ad_ObservedAt = t\<rparr>"
    using assms g u by (auto simp: publishLocalCommitAd_def run_state_bind Let_def split: prod.splits if_splits)
  then obtain s2 t where s2: "run_state (idxUpsert V (meta_HLC m) (commit_Hash c) CommitStatusApplied) s1 = ((), s2)"
      "ad = \<lparr>ad_Repo = cfg_Repo (cfg s2), ad_HLC = meta_HLC m, ad_MetadataJSON = commit_Message c,
        ad_MetadataSig = meta_Signature m, ad_ObservedAt = t\<rparr>" by blast
  have "cfg s2 = cfg s" using idxUpsert_effect [OF s2(1)] s1 by auto
  then show ?thesis using s2(2) m by auto
qed

text \<open>
  What a node publishes, another node accepts. An advert that \<open>publishLocalCommitAd\<close> hands
  to the transport is accepted by every node of the repository that has not yet decided on
  its timestamp, is not the author, finds the timestamp within its skew bound, and whose
  resolver returns a key under which the metadata verifies.
\<close>

lemma published_ad_accepted:
  assumes "run_state (publishLocalCommitAd V h) s = (Some ad, s')"
    and "cfg_Repo (cfg r) = cfg_Repo (cfg s)" "\<not> decided (idx r) (ad_HLC ad)" "\<not> own_peer (cfg r) (PeerID (ad_HLC ad))"
    and t: "e_time V' (world r) = (t, w)" and "\<not> skewed (cfg r) (UnixNano t) (ad_HLC ad)"
    and "\<forall>m. ParseCommitMetadata (ad_MetadataJSON ad) = Inr m \<longrightarrow> identity_verified (cfg r) (ad_HLC ad) w m"
  shows "\<exists>r'. run_state (onCommitAd V' frm ad) r = (True, r')"
proof -
  obtain b r' where run: "run_state (onCommitAd V' frm ad) r = (b, r')" by fastforce
  have "ad_verdict (cfg r) (idx r) (UnixNano t) (identity_verified (cfg r) (ad_HLC ad) w) ad = Accepted"
    using publishLocalCommitAd_ad [OF assms(1)] assms by (auto simp: ad_verdict_def)
  with onCommitAd_effect [OF run t] run show ?thesis by simp
qed

text \<open>The same node with a signed commit on \<open>main\<close>, which it publishes with any configuration that has a gossip.\<close>

definition author_node :: "rworld Node" where
  "author_node = sample_node\<lparr>world := sample_world\<lparr>r_commits :=
     [(''local001'', ref_commit ''local001'' signed_message, [])]\<rparr>\<rparr>"

lemma author_publishes:
  assumes gossip: "node_gossip (author_node\<lparr>cfg := c\<rparr>) = Some g"
  shows "\<exists>ad s'. run_state (publishLocalCommitAd reference_engine ''local001'') (author_node\<lparr>cfg := c\<rparr>) = (Some ad, s') \<and>
     ad_HLC ad = meta_HLC signed_sample \<and> ad_MetadataJSON ad = signed_message"
proof -
  let ?c = "ref_commit ''local001'' signed_message" and ?n = "author_node\<lparr>cfg := c\<rparr>"
  obtain hs where "r_history (world ?n) ''local001'' = ''local001'' # hs" using r_history_head by blast
  then have "\<exists>rows. e_query_commits reference_engine Pool (QLog ''main'') (world ?n) = (Inr (Inr ?c # rows), world ?n)"
    by (simp add: reference_engine_def r_log_def r_resolve_def r_branch_def r_commit_row_def author_node_def sample_world_def ref_commit_def)
  then obtain rows where rows: "e_query_commits reference_engine Pool (QLog ''main'') (world ?n) = (Inr (Inr ?c # rows), world ?n)"
    by blast
  have sel: "meta_Kind signed_sample = CommitKindUser" "commit_Message ?c = signed_message" "commit_Hash ?c = ''local001''"
    by (simp_all add: signed_sample_def sample_metadata_def NewCommitMetadata_def ref_commit_def)
  have get: "run_state (GetLastUserCommit reference_engine ''main'') ?n = (Inr (?c, signed_sample), ?n)"
    using rows by (simp add: GetLastUserCommit_def run_state_bind Parse_signed_message sel)
  obtain u s2 where up: "run_state (idxUpsert reference_engine (meta_HLC signed_sample) ''local001'' CommitStatusApplied) ?n = (u, s2)"
    by (rule prod.exhaust)
  obtain t w where t: "e_time reference_engine (world s2) = (t, w)" by (rule prod.exhaust)
  show ?thesis
    using get gossip up by (auto simp: publishLocalCommitAd_def run_state_bind Let_def t sel on_world_def split: prod.splits)
qed

section \<open>A synchronization pass and the branches\<close>

text \<open>
  The further laws: reading and the statements about remotes change no branch (a fetch changes
  the remote-tracking branches only), and a fast-forward merge that is refused changes nothing.
\<close>

fun writes_commit :: "query \<Rightarrow> bool" where
  "writes_commit (QCommitAll m a e d) = True"
| "writes_commit (QCommitAllRaw m a e d) = True"
| "writes_commit q = False"

fun about_remotes :: "stmt \<Rightarrow> bool" where
  "about_remotes (DoltFetch r) = True"
| "about_remotes (DoltRemoteAdd r u) = True"
| "about_remotes (DoltRemoteRemove r) = True"
| "about_remotes st = False"

definition sync_laws ::
  "'w env \<Rightarrow> ('w \<Rightarrow> string \<Rightarrow> string option) \<Rightarrow> (session \<Rightarrow> 'w \<Rightarrow> string) \<Rightarrow> bool" where
  "sync_laws V B C \<longleftrightarrow> branch_laws V B C \<and> read_laws V B C \<and>
     (\<forall>c q w. \<not> writes_commit q \<longrightarrow> B (snd (e_query_string V c q w)) = B w) \<and>
     (\<forall>c q w. B (snd (e_query_commits V c q w)) = B w) \<and>
     (\<forall>c st w. about_remotes st \<longrightarrow> B (snd (e_exec V c st w)) = B w) \<and>
     (\<forall>c b w e w'. e_exec V c (DoltMergeFFOnly b) w = (Inl e, w') \<longrightarrow> B w' = B w)"

definition seen :: "('w \<Rightarrow> string \<Rightarrow> string option) \<Rightarrow> ((string \<Rightarrow> string option) \<Rightarrow> bool) \<Rightarrow> ('w, 'm) DB_scheme \<Rightarrow> bool" where
  "seen B Q s \<longleftrightarrow> Q (B (world s))"

lemma keeps_seen:
  assumes "sync_laws V B C"
  shows "\<not> writes_commit q \<Longrightarrow> keeps (seen B Q) (on_world (e_query_string V c q))"
    and "keeps (seen B Q) (on_world (e_query_strings V c q))"
    and "keeps (seen B Q) (on_world (e_query_commits V c q))"
    and "keeps (seen B Q) (on_world (e_fetch_all V q))"
    and "keeps (seen B Q) (on_world (e_conn V))"
    and "keeps (seen B Q) (timeNow V)"
    and "keeps (seen B Q) (gets f)"
    and "about_remotes st \<Longrightarrow> keeps (seen B Q) (exec V c st)"
    and "keeps (seen B Q) (exec V c (DoltCheckout b))"
    and "keeps (seen B Q) (modify (\<lambda>s. s\<lparr>world := e_release V c (world s)\<rparr>))"
proof -
  have laws: "branch_laws V B C" "read_laws V B C" using assms by (simp_all add: sync_laws_def)
  note checkout = checkout_law [OF laws(1) prod.collapse [symmetric], THEN conjunct1]
  show "keeps (seen B Q) (exec V c (DoltCheckout b))" by (intro keeps_on_world) (simp add: seen_def checkout)
  show "keeps (seen B Q) (modify (\<lambda>s. s\<lparr>world := e_release V c (world s)\<rparr>))" "keeps (seen B Q) (gets f)"
    using laws(2) by (intro keepsI; simp add: seen_def read_laws_def)+
qed (use assms in \<open>intro keeps_on_world; simp add: sync_laws_def read_laws_def seen_def\<close>)+

lemma keeps_seen_idx: "keeps (seen B Q) (modify (\<lambda>s. s\<lparr>idx := f s\<rparr>))"
  by (intro keepsI) (simp add: seen_def)

lemma keeps_seen_loop:
  assumes "sync_laws V B C"
  shows "keeps (seen B Q) (commits_since_loop n V q base seen' queue commits)"
proof (induction n arbitrary: seen' queue commits)
  case 0
  then show ?case by (cases queue) (auto intro: keeps_intros)
next
  case (Suc n)
  then show ?case
    by (cases queue) (auto simp: Let_def getCommitByHash_def getParentHashes_def intro!: keeps_intros keeps_seen [OF assms])
qed

lemma keeps_seen_idxPut:
  assumes "sync_laws V B C"
  shows "keeps (seen B Q) (idxPut V e)" "keeps (seen B Q) (idxUpsert V h hash st)"
  unfolding idxUpsert_def idxPut_def by (intro keeps_intros keeps_seen [OF assms] keeps_seen_idx)+

lemma keeps_seen_index_commits:
  assumes "sync_laws V B C"
  shows "keeps (seen B Q) (index_commits V cs)"
  by (induction cs) (auto intro!: keeps_intros keeps_seen_idxPut [OF assms] split: sum.splits)

lemma keeps_seen_restore_entries:
  assumes "sync_laws V B C"
  shows "keeps (seen B Q) (restore_entries V es)"
  by (induction es) (auto intro!: keeps_intros keeps_seen_idxPut [OF assms] keeps_seen(7) [OF assms])

lemma keeps_seen_getCommitsSince:
  assumes "sync_laws V B C"
  shows "keeps (seen B Q) (getCommitsSince V q branch base)"
  unfolding getCommitsSince_def getBranchHeadHash_def
  by (intro keeps_intros keeps_seen [OF assms] keeps_seen_loop [OF assms]) simp_all

lemma keeps_seen_initIndexFromDB:
  assumes "sync_laws V B C"
  shows "keeps (seen B Q) (initIndexFromDB V)"
  unfolding initIndexFromDB_def GetAllCommits_def
  by (intro keeps_intros keeps_seen [OF assms] keeps_seen_idx keeps_seen_index_commits [OF assms]
      keeps_seen_restore_entries [OF assms] keeps_seen_getCommitsSince [OF assms])

lemma keeps_seen_heads:
  assumes "sync_laws V B C"
  shows "keeps (seen B Q) (EnsureSwarmRemote V repo)" "keeps (seen B Q) (FetchSwarm V)"
    "keeps (seen B Q) (GetBranchHead V ref)" "keeps (seen B Q) (MergeBase V l r)" "keeps (seen B Q) (GetLastCommit V b)"
  unfolding EnsureSwarmRemote_def add_remote_def FetchSwarm_def GetBranchHead_def MergeBase_def GetLastCommit_def Let_def
  by (intro keeps_intros keeps_seen [OF assms]; simp)+

text \<open>
  The branches that a pass may create and delete; and what it guarantees of the others: only
  \<open>main\<close> may move, and only if the pass reports that something was applied.
\<close>

definition temporary :: "string \<Rightarrow> bool" where
  "temporary b \<longleftrightarrow> b = ''replay_tmp'' \<or> prefix ''swarm_ff_'' b \<or> prefix ''swarm_bootstrap_'' b"

definition same_heads :: "bool \<Rightarrow> (string \<Rightarrow> string option) \<Rightarrow> (string \<Rightarrow> string option) \<Rightarrow> bool" where
  "same_heads moved b0 b \<longleftrightarrow> (\<forall>x. \<not> temporary x \<and> (moved \<longrightarrow> x \<noteq> ''main'') \<longrightarrow> b x = b0 x)"

lemma not_temporary_main [simp]: "\<not> temporary ''main''"
  by (simp add: temporary_def)

lemma temporary_names [simp]:
  "temporary ''replay_tmp''" "temporary (''swarm_ff_'' @ n)" "temporary (''swarm_bootstrap_'' @ n)"
  by (simp_all add: temporary_def)

lemma same_heads_mono: "same_heads m b0 b \<Longrightarrow> m \<longrightarrow> m' \<Longrightarrow> same_heads m' b0 b"
  by (auto simp: same_heads_def)

abbreviation quiet where
  "quiet B b0 m \<equiv> seen B (same_heads m b0)"

lemma keeps_drop_branch:
  assumes "sync_laws V B C" "temporary tmp"
  shows "keeps (quiet B b0 m) (drop_branch V conn tmp)"
proof -
  have laws: "branch_laws V B C" using assms by (simp add: sync_laws_def)
  note delete = delete_law [OF laws prod.collapse [symmetric], THEN conjunct2, rule_format]
  have del: "keeps (quiet B b0 m) (exec V conn (DoltBranchDelete tmp))"
  proof (rule keeps_on_world)
    fix s assume "quiet B b0 m s"
    moreover have "B (snd (e_exec V conn (DoltBranchDelete tmp) (world s))) x = B (world s) x" if "\<not> temporary x" for x
      by (rule delete) (use that assms(2) in auto)
    ultimately show "quiet B b0 m (s\<lparr>world := snd (e_exec V conn (DoltBranchDelete tmp) (world s))\<rparr>)"
      by (simp add: seen_def same_heads_def)
  qed
  show ?thesis
    unfolding drop_branch_def by (intro keeps_intros keeps_seen(9) [OF assms(1)] del)
qed

text \<open>The two ways in which a statement leaves the heads alone, or moves \<open>main\<close> only.\<close>

definition passed :: "('w \<Rightarrow> string \<Rightarrow> string option) \<Rightarrow> (string \<Rightarrow> string option) \<Rightarrow> 'a result \<Rightarrow> ('w, 'm) DB_scheme \<Rightarrow> bool" where
  "passed B b0 r = quiet B b0 (\<not> isl r)"

lemma triple_force_tmp:
  assumes "sync_laws V B C" "temporary tmp"
  shows "triple (\<lambda>s. quiet B b0 False s \<and> P (C conn (world s))) (exec V conn (DoltBranchForce tmp h))
    (\<lambda>_ s. quiet B b0 False s \<and> P (C conn (world s)))"
  using assms force_law [of V B C]
  by (intro triple_exec) (auto simp: seen_def same_heads_def sync_laws_def, metis+)

lemma triple_checkout_main:
  assumes "sync_laws V B C"
  shows "triple (quiet B b0 False) (exec V conn (DoltCheckout ''main''))
    (\<lambda>r s. quiet B b0 False s \<and> (isl r \<or> C conn (world s) = ''main''))"
  using assms checkout_law [of V B C]
  by (intro triple_exec) (auto simp: seen_def sync_laws_def split: sum.splits)

lemma triple_move_main_only:
  assumes "sync_laws V B C" "st = DoltMergeFFOnly tmp \<or> st = DoltResetHard tmp"
  shows "triple (\<lambda>s. quiet B b0 False s \<and> C conn (world s) = ''main'') (exec V conn st) (passed B b0)"
proof (rule triple_exec)
  fix s r w'
  assume P: "quiet B b0 False s \<and> C conn (world s) = ''main''" and e: "e_exec V conn st (world s) = (r, w')"
  have "\<forall>x. x \<noteq> ''main'' \<longrightarrow> B w' x = B (world s) x"
    using move_law [of V B C, OF _ _ e] assms P by (auto simp: sync_laws_def)
  moreover have "B w' = B (world s)" if "isl r"
    using that assms e reset_law [of V B C conn tmp "world s"] by (cases r) (fastforce simp: sync_laws_def)+
  ultimately show "passed B b0 r (s\<lparr>world := w'\<rparr>)"
    using P by (cases "isl r") (auto simp: passed_def seen_def same_heads_def)
qed

lemma triple_passed_drop:
  assumes "sync_laws V B C" "temporary tmp" "isl r \<longleftrightarrow> isl r'"
  shows "triple (passed B b0 r) (do { _ \<leftarrow> drop_branch V conn tmp; return r' }) (passed B b0)"
  using keeps_drop_branch [OF assms(1,2)] assms(3)
  by (intro triple_bind [where R = "\<lambda>_. passed B b0 r"] triple_return) (simp_all add: passed_def keeps_def)

lemma triple_ff_body:
  assumes laws: "sync_laws V B C" and tmp: "temporary tmp"
  shows "triple (quiet B b0 False) (ff_body V conn tmp h) (passed B b0)"
proof -
  have err: "triple (\<lambda>s. quiet B b0 False s \<and> R s) (return (Inl e :: bool result)) (passed B b0)" for e R
    by (rule triple_return) (simp add: passed_def)
  have merge: "triple (\<lambda>s. quiet B b0 False s \<and> (isl (Inr x :: unit result) \<or> C conn (world s) = ''main''))
    (do {
       r2 \<leftarrow> exec V conn (DoltBranchForce tmp h);
       case r2 of
         Inl err \<Rightarrow> return (Inl err)
       | Inr _ \<Rightarrow> do {
           r3 \<leftarrow> exec V conn (DoltMergeFFOnly tmp);
           _ \<leftarrow> drop_branch V conn tmp;
           case r3 of Inl err \<Rightarrow> return (Inl err) | Inr _ \<Rightarrow> return (Inr True) } }) (passed B b0)" for x
  proof (rule triple_bind [OF triple_force_tmp [OF laws tmp]], rule triple_sum)
    show "triple (\<lambda>s. quiet B b0 False s \<and> (isl (Inr x :: unit result) \<or> C conn (world s) = ''main'')) (do {
        r3 \<leftarrow> exec V conn (DoltMergeFFOnly tmp);
        _ \<leftarrow> drop_branch V conn tmp;
        case r3 of Inl err \<Rightarrow> return (Inl err) | Inr _ \<Rightarrow> return (Inr True) }) (passed B b0)"
    proof (rule triple_bind [where R = "passed B b0"])
      fix r3 :: "unit result"
      show "triple (passed B b0 r3) (do { _ \<leftarrow> drop_branch V conn tmp;
          case r3 of Inl err \<Rightarrow> return (Inl err) | Inr _ \<Rightarrow> return (Inr True) }) (passed B b0)"
        using triple_passed_drop [OF laws tmp, of r3 "map_sum id (\<lambda>_. True) r3" b0 conn] by (cases r3) auto
    qed (use triple_move_main_only [OF laws, of "DoltMergeFFOnly tmp" tmp b0 conn] in simp)
  qed (rule err)
  show ?thesis
    unfolding ff_body_def
    by (rule triple_bind [OF triple_checkout_main [OF laws]], rule triple_sum)
      (use err [of "\<lambda>_. True"] merge in simp_all)
qed

lemma triple_bootstrap_body:
  assumes laws: "sync_laws V B C" and tmp: "temporary tmp"
  shows "triple (quiet B b0 False) (bootstrap_body V conn tmp h) (passed B b0)"
proof -
  have err: "triple (quiet B b0 False) (return (Inl e :: unit result)) (passed B b0)" for e
    by (rule triple_return) (simp add: passed_def)
  have reset: "triple (\<lambda>s. quiet B b0 False s \<and> (isl r2 \<or> C conn (world s) = ''main''))
      (case r2 of Inl err \<Rightarrow> return (Inl err) | Inr _ \<Rightarrow> exec V conn (DoltResetHard tmp)) (passed B b0)" for r2 :: "unit result"
    using triple_move_main_only [OF laws] err by (cases r2) auto
  have "triple (\<lambda>s. quiet B b0 False s \<and> True) (exec V conn (DoltBranchForce tmp h)) (\<lambda>_ s. quiet B b0 False s \<and> True)"
    using triple_force_tmp [OF laws tmp, where P = "\<lambda>_. True"] .
  then show ?thesis
    unfolding bootstrap_body_def
    by (intro triple_bind [where R = "\<lambda>_. quiet B b0 False"] triple_sum triple_bind [OF triple_checkout_main [OF laws]]
        triple_bind [OF reset] triple_passed_drop [OF laws tmp]) (use err in simp_all)
qed

lemma triple_conn:
  assumes laws: "sync_laws V B C"
    and body: "\<And>conn t. triple (quiet B b0 False) (body conn t) (passed B b0)"
  shows "triple (quiet B b0 False) (do {
      rc \<leftarrow> on_world (e_conn V);
      case rc of
        Inl err \<Rightarrow> return (Inl err)
      | Inr conn \<Rightarrow> do {
          t \<leftarrow> timeNow V;
          r \<leftarrow> body conn t;
          _ \<leftarrow> modify (\<lambda>s. s\<lparr>world := e_release V conn (world s)\<rparr>);
          return r } }) (passed B b0)"
proof -
  have release: "triple (passed B b0 r) (modify (\<lambda>s. s\<lparr>world := e_release V conn (world s)\<rparr>)) (\<lambda>_. passed B b0 r)" for r conn
    unfolding passed_def by (intro triple_keeps keeps_seen(10) [OF laws])
  show ?thesis
    by (intro triple_bind [OF triple_keeps [OF keeps_seen(5) [OF laws]]] triple_bind [OF triple_keeps [OF keeps_seen(6) [OF laws]]]
        triple_sum triple_bind [OF body] triple_bind [OF release] triple_return) (simp_all add: passed_def)
qed

lemma triple_tryFastForward:
  assumes "sync_laws V B C"
  shows "triple (quiet B b0 False) (tryFastForward V h) (passed B b0)"
    and "triple (quiet B b0 False) (forceResetMainTo V h) (passed B b0)"
  unfolding tryFastForward_def forceResetMainTo_def
  by (rule triple_conn [OF assms], rule triple_ff_body [OF assms], rule temporary_names)
    (rule triple_conn [OF assms], rule triple_bootstrap_body [OF assms], rule temporary_names)

lemma hooks_ok_node:
  fixes cb :: "('w, 'm) Node_scheme CommitRejectedCallback option"
  assumes "sync_laws V B C" "hook_ok B C cb"
  shows "hooks_ok B C (node_hooks V cb installed)"
proof -
  have "B (snd (e_time V w)) = B w" "C c (snd (e_time V w)) = C c w" for w c
    using assms(1) by (simp_all add: sync_laws_def read_laws_def)
  then have "hook_ok B C (Some (node_hook V :: ('w, 'm) Node_scheme CommitRejectedCallback))"
    by (auto simp: hook_ok_def node_hook_def idxUpsert_def idxPut_def run_state_bind Let_def split: prod.splits) (metis snd_conv)+
  then show ?thesis using assms(2) by (simp add: hooks_ok_def node_hooks_def hook_ok_def)
qed

lemma triple_ReplayImportedCommits:
  assumes laws: "sync_laws V B C" "hooks_ok B C H"
  shows "triple (quiet B b0 False) (ReplayImportedCommits V H base imported fb) (passed B b0)"
proof -
  have replay: "triple (quiet B b0 False) (replayToTempBranchThenUpdateMain V H b m cwms) (passed B b0)" for b m cwms
  proof (rule tripleI)
    fix s r s'
    assume P: "quiet B b0 False s" and run: "run_state (replayToTempBranchThenUpdateMain V H b m cwms) s = (r, s')"
    have "replayed B (B (world s)) m r s'"
      using tripleD [OF triple_replay [where B = B and C = C and ?b0.0 = "B (world s)"] refl run] laws by (simp add: sync_laws_def)
    moreover have "x \<noteq> ''replay_tmp''" if "\<not> temporary x" for x using that temporary_names(1) by blast
    ultimately show "passed B b0 r s'"
      using P by (cases r) (simp_all add: passed_def seen_def same_heads_def replayed_def, metis)
  qed
  have ret: "triple (quiet B b0 False) (return r) (passed B b0)" for r :: "nat result"
    by (rule triple_return) (auto simp: passed_def seen_def elim: same_heads_mono)
  show ?thesis
    unfolding ReplayImportedCommits_def Let_def
    by (intro triple_bind [OF triple_keeps [OF keeps_seen_heads(5) [OF laws(1)]]] triple_sum ret
        triple_bind [OF triple_keeps [OF keeps_seen_getCommitsSince [OF laws(1)]]] triple_if replay)
qed

lemma tryFastForward_True: "run_state (tryFastForward V h) s = (r, s') \<Longrightarrow> r \<noteq> Inr False"
  by (auto simp: tryFastForward_def ff_body_def run_state_bind split: prod.splits sum.splits)

lemma triple_fast_forward:
  assumes "sync_laws V B C"
  shows "triple (quiet B b0 False) (tryFastForward V h) (\<lambda>r. quiet B b0 (r = Inr True))"
proof (rule tripleI)
  fix s r s'
  assume P: "quiet B b0 False s" and run: "run_state (tryFastForward V h) s = (r, s')"
  have "r = Inr True \<longleftrightarrow> \<not> isl r" using tryFastForward_True [OF run] by (cases r) auto
  then show "quiet B b0 (r = Inr True) s'"
    using tripleD [OF triple_tryFastForward(1) [OF assms] P run] by (simp add: passed_def)
qed

lemma triple_syncOnce:
  assumes laws: "sync_laws V B C" "hook_ok B C cb"
  shows "triple (quiet B b0 False) (syncOnce V cb) (\<lambda>r. quiet B b0 (r = Inr True))"
proof -
  note keep = triple_bind [OF triple_keeps]
  have ret: "triple (quiet B b0 False) (return r) (\<lambda>r. quiet B b0 (r = Inr True))" for r :: "bool result"
    by (rule triple_return) (auto simp: seen_def elim: same_heads_mono)
  have rebuild: "triple (quiet B b0 m) (do { _ \<leftarrow> initIndexFromDB V; return (Inr True) }) (\<lambda>r. quiet B b0 (r = Inr True))" for m
    by (rule keep [OF keeps_seen_initIndexFromDB [OF laws(1)]], rule triple_return) (auto simp: seen_def elim: same_heads_mono)
  have import: "triple (quiet B b0 False) (apply_imported V cb h mb imported) (\<lambda>r. quiet B b0 (r = Inr True))" for h mb imported
  proof -
    have replay: "triple (quiet B b0 False) (do {
        rr \<leftarrow> ReplayImportedCommits V (node_hooks V cb installed) mb imported fb;
        case rr of Inl err \<Rightarrow> return (Inl err) | Inr _ \<Rightarrow> do { _ \<leftarrow> initIndexFromDB V; return (Inr True) } })
      (\<lambda>r. quiet B b0 (r = Inr True))" for installed fb
      by (intro triple_bind [OF triple_ReplayImportedCommits [where ?b0.0 = b0, OF laws(1) hooks_ok_node [OF laws]]] triple_sum)
        (use ret rebuild in \<open>simp_all add: passed_def\<close>)
    show ?thesis
      unfolding apply_imported_def
      by (intro keep [OF keeps_seen(7) [OF laws(1)]] triple_bind [OF triple_fast_forward [OF laws(1)]] triple_if)
        (use replay rebuild in simp_all)
  qed
  have bootstrap: "triple (quiet B b0 False) (do {
      rr \<leftarrow> forceResetMainTo V h;
      case rr of Inl err \<Rightarrow> return (Inl err) | Inr _ \<Rightarrow> do { _ \<leftarrow> initIndexFromDB V; return (Inr True) } })
      (\<lambda>r. quiet B b0 (r = Inr True))" for h
    by (intro triple_bind [OF triple_tryFastForward(2) [OF laws(1)]] triple_sum) (use ret rebuild in \<open>simp_all add: passed_def\<close>)
  show ?thesis
    unfolding syncOnce_def sync_fetched_def
    by (intro keep [OF keeps_seen(7) [OF laws(1)]] keep [OF keeps_seen_heads(1) [OF laws(1)]] keep [OF keeps_seen_heads(2) [OF laws(1)]]
        keep [OF keeps_seen_heads(3) [OF laws(1)]] keep [OF keeps_seen_heads(4) [OF laws(1)]]
        keep [OF keeps_seen_getCommitsSince [OF laws(1)]] triple_sum triple_prod triple_if ret import bootstrap)
qed

text \<open>
  C2: a synchronization pass moves nothing but \<open>main\<close>, and \<open>main\<close> only when it reports success.
  If \<open>syncOnce\<close> returns an error, or reports that there was nothing to apply, every branch that
  is not one of its temporary branches has the head it had before, whatever statement failed.
\<close>

theorem syncOnce_moves_only_main:
  assumes "sync_laws V B C" "hook_ok B C cb"
    and "run_state (syncOnce V cb) s = (r, s')"
  shows "(\<forall>b. \<not> temporary b \<and> b \<noteq> ''main'' \<longrightarrow> B (world s') b = B (world s) b) \<and>
    (r \<noteq> Inr True \<longrightarrow> B (world s') ''main'' = B (world s) ''main'')"
  using tripleD [OF triple_syncOnce [where B = B and ?b0.0 = "B (world s)", OF assms(1,2)] _ assms(3)]
  by (auto simp: seen_def same_heads_def)

lemma reference_sync_laws: "sync_laws reference_engine r_branch r_session"
proof -
  have "r_branch (snd (r_query_string c q w)) = r_branch w" if "\<not> writes_commit q" for c q w
    using that by (cases q) simp_all
  moreover have "snd (r_query_commits c q w) = w" for c q w by (cases q) simp_all
  moreover have "r_branch (snd (r_exec c st w)) = r_branch w" if "about_remotes st" for c st w
    using that by (cases st) (simp_all add: r_branch_def [abs_def])
  moreover have "r_branch w' = r_branch w" if "r_exec c (DoltMergeFFOnly b) w = (Inl e, w')" for c b w e w'
    using that by (auto simp: r_merge_ff_def split: option.splits list.splits if_splits)
  ultimately show ?thesis
    using reference_branch_laws reference_read_laws by (simp add: sync_laws_def reference_engine_def)
qed

text \<open>Nothing has been fetched: the pass adds the remote, finds no remote branch, and leaves \<open>main\<close>.\<close>

definition lonely_node :: "rworld Node" where
  "lonely_node = sample_node\<lparr>world := sample_world\<lparr>r_remote_branches := []\<rparr>\<rparr>"

lemma lonely_sync: "\<exists>s'. run_state (syncOnce reference_engine None) lonely_node = (Inr False, s')"
  by (simp add: lonely_node_def syncOnce_def sync_fetched_def EnsureSwarmRemote_def add_remote_def needRewrite_def is_no_rows_def
      FetchSwarm_def GetBranchHead_def run_state_bind Let_def reference_engine_def sample_world_def sample_config_def sample_repo_def
      r_row_def r_branch_def)

theorem syncOnce_moves_only_main_witness:
  "\<exists>s'. run_state (syncOnce reference_engine None) lonely_node = (Inr False, s') \<and>
     r_branch (world s') ''main'' = Some ''local001''"
proof -
  obtain s' where run: "run_state (syncOnce reference_engine None) lonely_node = (Inr False, s')"
    using lonely_sync by blast
  have main: "r_branch (world lonely_node) ''main'' = Some ''local001''"
    by (simp add: r_branch_def lonely_node_def sample_world_def)
  from syncOnce_moves_only_main [OF reference_sync_laws _ run] main run show ?thesis
    by (simp add: hook_ok_def)
qed

end
