(* ===== verification/Run_Loop.thy ===== *)
theory Run_Loop
  imports Sync_Safety
begin

text \<open>
  The loop \<open>Run\<close> of \<open>core/node.go\<close>. Three goroutines share the node: the main loop, the reader of
  the gossip subscription and the synchronizer. They communicate over the channels \<open>trigger\<close>
  (one place), \<open>events\<close> (256 places), \<open>subErr\<close> and \<open>syncLoopErr\<close>. A state of the system is a record,
  and each communication or handler of the source is one rule of a step relation; the choice
  of \<open>select\<close> among the ready cases is the choice among the rules. A pass of \<open>syncOnce\<close> takes
  effect at once when it ends, but the main loop may run between its start and its end.
\<close>

section \<open>The state and the steps\<close>

record GossipEvent =
  evt_From :: string
  evt_CommitAd :: "CommitAdV1 option"
  evt_Heartbeat :: "HeartbeatV1 option"

datatype synchronizer = Waiting | Syncing | Stopped

text \<open>
  \<open>lp_done\<close> is \<open>ctx.Err()\<close>; \<open>lp_result\<close> is what \<open>Run\<close> has returned; \<open>lp_reader\<close> says whether the
  reader goroutine still runs; the two tickers have a channel with one place each.
\<close>

record 'w loop =
  lp_node :: "'w Node"
  lp_trigger :: bool
  lp_events :: "GossipEvent list"
  lp_heartbeat :: bool
  lp_repair :: bool
  lp_reader :: bool
  lp_subErr :: "go_error option"
  lp_sync :: synchronizer
  lp_syncErr :: "go_error option"
  lp_done :: "go_error option"
  lp_result :: "go_error option"

definition events_capacity :: nat where
  "events_capacity = 256"

text \<open>From the call of \<open>Run\<close> to the start of the goroutines.\<close>

definition Run_start :: "'w env \<Rightarrow> 'w Node \<Rightarrow> 'w loop result \<times> 'w Node" where
  "Run_start V n =
     (case cfg_Transport (cfg n) of
        None \<Rightarrow> (Inl (ErrText ''transport gossip and providers are required''), n)
      | Some tr \<Rightarrow>
          (case tr_Gossip tr of
             None \<Rightarrow> (Inl (ErrText ''transport gossip and providers are required''), n)
           | Some gossip \<Rightarrow>
               if tr_Providers tr = None then (Inl (ErrText ''transport gossip and providers are required''), n)
               else case Subscribe gossip (world n) of
                   (Inl err, w) \<Rightarrow> (Inl err, n\<lparr>world := w\<rparr>)
                 | (Inr _, w) \<Rightarrow>
                     (let n' = snd (run_state (initIndexFromDB V) (n\<lparr>world := w\<rparr>))
                      in (Inr \<lparr>lp_node = n', lp_trigger = False, lp_events = [], lp_heartbeat = False, lp_repair = False,
                            lp_reader = True, lp_subErr = None, lp_sync = Waiting, lp_syncErr = None,
                            lp_done = None, lp_result = None\<rparr>, n'))))"

text \<open>\<open>requestSync\<close>: a send that is dropped if the channel is full.\<close>

definition requestSync :: "bool \<Rightarrow> 'w loop \<Rightarrow> 'w loop" where
  "requestSync wanted l = l\<lparr>lp_trigger := lp_trigger l \<or> wanted\<rparr>"

definition enqueue :: "GossipEvent \<Rightarrow> GossipEvent list \<Rightarrow> GossipEvent list" where
  "enqueue evt evts = (if length evts < events_capacity then evts @ [evt] else evts)"

definition on_tick :: "'w env \<Rightarrow> ('w, 'm, unit) node_prog" where
  "on_tick V = do {
     _ \<leftarrow> publishHeartbeat V;
     tryFinalize V }"

definition on_event :: "'w env \<Rightarrow> GossipEvent \<Rightarrow> ('w, 'm, bool) node_prog" where
  "on_event V evt = do {
     wanted \<leftarrow> (case evt_CommitAd evt of None \<Rightarrow> return False | Some ad \<Rightarrow> onCommitAd V (evt_From evt) ad);
     _ \<leftarrow> (case evt_Heartbeat evt of None \<Rightarrow> return () | Some hb \<Rightarrow> onHeartbeat V (evt_From evt) hb);
     return wanted }"

datatype act =
    Cancel | Deliver GossipEvent | SubFail | Tick | RepairTick
  | SyncStart | SyncEnd | SyncStop
  | Handle GossipEvent | Heartbeat | Repair | Return

inductive loop_step ::
  "'w env \<Rightarrow> 'w Node CommitRejectedCallback option \<Rightarrow> 'w loop \<Rightarrow> act \<Rightarrow> 'w loop \<Rightarrow> bool"
  for V cb where
  cancel: "lp_done l = None \<Longrightarrow> loop_step V cb l Cancel (l\<lparr>lp_done := Some e\<rparr>)"
| deliver: "lp_reader l \<Longrightarrow> loop_step V cb l (Deliver evt) (l\<lparr>lp_events := enqueue evt (lp_events l)\<rparr>)"
| sub_fail: "lp_reader l \<Longrightarrow> loop_step V cb l SubFail (l\<lparr>lp_reader := False, lp_subErr := Some e\<rparr>)"
| tick: "loop_step V cb l Tick (l\<lparr>lp_heartbeat := True\<rparr>)"
| repair_tick: "loop_step V cb l RepairTick (l\<lparr>lp_repair := True\<rparr>)"
| sync_start: "lp_sync l = Waiting \<Longrightarrow> lp_trigger l \<Longrightarrow>
    loop_step V cb l SyncStart (l\<lparr>lp_trigger := False, lp_sync := Syncing\<rparr>)"
| sync_end: "lp_sync l = Syncing \<Longrightarrow> run_state (syncOnce V cb) (lp_node l) = (r, n) \<Longrightarrow>
    loop_step V cb l SyncEnd (l\<lparr>lp_node := n, lp_sync := Waiting\<rparr>)"
| sync_stop: "lp_sync l = Waiting \<Longrightarrow> lp_done l = Some e \<Longrightarrow>
    loop_step V cb l SyncStop (l\<lparr>lp_sync := Stopped, lp_syncErr := Some e\<rparr>)"
| handle: "lp_result l = None \<Longrightarrow> lp_events l = evt # evts \<Longrightarrow> run_state (on_event V evt) (lp_node l) = (wanted, n) \<Longrightarrow>
    loop_step V cb l (Handle evt) (requestSync wanted (l\<lparr>lp_node := n, lp_events := evts\<rparr>))"
| heartbeat: "lp_result l = None \<Longrightarrow> lp_heartbeat l \<Longrightarrow> run_state (on_tick V) (lp_node l) = (u, n) \<Longrightarrow>
    loop_step V cb l Heartbeat (l\<lparr>lp_node := n, lp_heartbeat := False\<rparr>)"
| repair: "lp_result l = None \<Longrightarrow> lp_repair l \<Longrightarrow>
    loop_step V cb l Repair (requestSync True (l\<lparr>lp_repair := False\<rparr>))"
| return_done: "lp_result l = None \<Longrightarrow> lp_done l = Some e \<Longrightarrow> loop_step V cb l Return (l\<lparr>lp_result := Some e\<rparr>)"
| return_sub: "lp_result l = None \<Longrightarrow> lp_subErr l = Some e \<Longrightarrow>
    loop_step V cb l Return (l\<lparr>lp_subErr := None, lp_result := Some e\<rparr>)"
| return_sync: "lp_result l = None \<Longrightarrow> lp_syncErr l = Some e \<Longrightarrow>
    loop_step V cb l Return (l\<lparr>lp_syncErr := None, lp_result := Some e\<rparr>)"

inductive loop_run ::
  "'w env \<Rightarrow> 'w Node CommitRejectedCallback option \<Rightarrow> 'w loop \<Rightarrow> act list \<Rightarrow> 'w loop \<Rightarrow> bool"
  for V cb where
  loop_refl: "loop_run V cb l [] l"
| loop_more: "loop_step V cb l a l' \<Longrightarrow> loop_run V cb l' as l'' \<Longrightarrow> loop_run V cb l (a # as) l''"

section \<open>What every step of the node keeps\<close>

text \<open>The finalized base and the timestamps of the peers do not move back.\<close>

definition base_le :: "FinalizedBase option \<Rightarrow> FinalizedBase option \<Rightarrow> bool" where
  "base_le b b' \<longleftrightarrow> (\<forall>x. b = Some x \<longrightarrow> (\<exists>y. b' = Some y \<and> fb_HLC x \<le> fb_HLC y))"

definition peers_le :: "(string \<times> HLCTimestamp) list \<Rightarrow> (string \<times> HLCTimestamp) list \<Rightarrow> bool" where
  "peers_le ps qs \<longleftrightarrow> (\<forall>p h. map_of ps p = Some h \<longrightarrow> (\<exists>h'. map_of qs p = Some h' \<and> h \<le> h'))"

definition grown :: "('w, 'm) Node_scheme \<Rightarrow> ('w, 'm) Node_scheme \<Rightarrow> bool" where
  "grown s0 s \<longleftrightarrow> idx_wf (idx s) \<and> base_le (finalizedBase (idx s0)) (finalizedBase (idx s)) \<and> peers_le (peerHLC s0) (peerHLC s) \<and> cfg s = cfg s0"

definition callback_quiet :: "('w, 'm) Node_scheme CommitRejectedCallback option \<Rightarrow> bool" where
  "callback_quiet cb \<longleftrightarrow> (\<forall>f ad reason s. cb = Some f \<longrightarrow>
     idx (snd (run_state (f ad reason) s)) = idx s \<and> peerHLC (snd (run_state (f ad reason) s)) = peerHLC s \<and>
     cfg (snd (run_state (f ad reason) s)) = cfg s)"

lemma base_le_refl [simp]: "base_le b b" and peers_le_refl [simp]: "peers_le ps ps"
  by (simp_all add: base_le_def peers_le_def)

lemma base_le_trans: "base_le a b \<Longrightarrow> base_le b c \<Longrightarrow> base_le a c"
  unfolding base_le_def by (metis order_trans)

lemma peers_le_trans: "peers_le a b \<Longrightarrow> peers_le b c \<Longrightarrow> peers_le a c"
  unfolding peers_le_def by (meson order_trans)

lemma grown_trans: "grown a b \<Longrightarrow> grown b c \<Longrightarrow> grown a c"
  unfolding grown_def using base_le_trans peers_le_trans by metis

lemma base_le_set: "base_le b (finalizedBase i) \<Longrightarrow> base_le b (finalizedBase (SetFinalizedBase i fb t))"
  using mem.base_monotone unfolding base_le_def by (metis order_trans)

lemma peers_le_observe: "peers_le ps qs \<Longrightarrow> peers_le ps (observe_peer hb qs)"
  unfolding peers_le_def observe_peer_def
  by (fastforce simp: update_conv Less_less split: option.splits)

lemma keeps_grown [keeps_intros]:
  "keeps (grown s0) (on_world f)"
  "keeps (grown s0) (gets g)"
  "keeps (grown s0) (modify (\<lambda>s. s\<lparr>world := w' s\<rparr>))"
  "keeps (grown s0) (modify (\<lambda>s. s\<lparr>recHLC := h' s\<rparr>))"
  "keeps (grown s0) (modify (\<lambda>s. s\<lparr>idx := Upsert (idx s) e t\<rparr>))"
  "keeps (grown s0) (modify (\<lambda>s. s\<lparr>idx := resetForRebuild (idx s)\<rparr>))"
  "keeps (grown s0) (modify (\<lambda>s. s\<lparr>idx := SetFinalizedBase (idx s) fb t\<rparr>))"
  "keeps (grown s0) (modify (\<lambda>s. s\<lparr>peerHLC := observe_peer hb (peerHLC s)\<rparr>))"
  by (rule keepsI; auto simp: grown_def mem.wf_upsert mem.base_upsert mem.wf_set_base base_le_set peers_le_observe split: prod.splits)+

lemma keeps_grown_idx [keeps_intros]:
  "keeps (grown s0) (idxPut V e)" "keeps (grown s0) (idxUpsert V h hash st)"
  unfolding idxUpsert_def idxPut_def by (intro keeps_intros)+

lemma keeps_grown_clock [keeps_intros]: "keeps (grown s0) (hlcNow V)" "keeps (grown s0) (hlcUpdate V h)"
  unfolding hlcNow_def hlcUpdate_def by (intro keeps_intros)+

lemma keeps_grown_handlers:
  "keeps (grown s0) (on_event V evt)" "keeps (grown s0) (on_tick V)"
proof -
  have "keeps (grown s0) (onCommitAd V frm ad)" for frm ad
    unfolding onCommitAd_def reject_ad_def verify_identity_def by (intro keeps_intros)
  moreover have "keeps (grown s0) (onHeartbeat V frm hb)" for frm hb
    unfolding onHeartbeat_def by (intro keeps_intros)
  ultimately show "keeps (grown s0) (on_event V evt)"
    unfolding on_event_def by (intro keeps_intros)
  have "keeps (grown s0) (tryFinalize V)" "keeps (grown s0) (publishHeartbeat V)"
    unfolding tryFinalize_def publishHeartbeat_def by (intro keeps_intros)+
  then show "keeps (grown s0) (on_tick V)"
    unfolding on_tick_def by (intro keeps_intros)
qed

lemma keeps_grown_loop [keeps_intros]: "keeps (grown s0) (commits_since_loop n V q base visited queue commits)"
proof (induction n arbitrary: visited queue commits)
  case 0
  then show ?case by (cases queue) (auto intro: keeps_intros)
next
  case (Suc n)
  then show ?case
    by (cases queue) (auto simp: Let_def getCommitByHash_def getParentHashes_def intro!: keeps_intros)
qed

lemma keeps_grown_rebuild [keeps_intros]: "keeps (grown s0) (initIndexFromDB V)"
proof -
  have "keeps (grown s0) (index_commits V cs)" for cs
    by (induction cs) (auto intro!: keeps_intros split: sum.splits)
  moreover have "keeps (grown s0) (restore_entries V es)" for es
    by (induction es) (auto intro!: keeps_intros)
  ultimately show ?thesis
    unfolding initIndexFromDB_def GetAllCommits_def getCommitsSince_def getBranchHeadHash_def by (intro keeps_intros)
qed

lemma keeps_grown_replay:
  assumes "callback_quiet cb"
  shows "keeps (grown s0) (ReplayImportedCommits V (node_hooks V cb installed) base imported fb)"
proof -
  let ?H = "node_hooks V cb installed"
  have user: "keeps (grown s0) (call_hook (onCommitRejected ?H) ad reason)" for ad reason
    using assms by (cases cb) (auto simp: call_hook_def node_hooks_def callback_quiet_def grown_def intro!: keepsI keeps_return)
  have own: "keeps (grown s0) (call_hook (onCommitRejectedInternal ?H) ad reason)" for ad reason
    by (auto simp: call_hook_def node_hooks_def node_hook_def intro!: keeps_intros)
  have step: "keeps (grown s0) (replay_step V ?H conn cwm head n)" for conn cwm head n
    unfolding replay_step_def replay_merge_def getFirstParentHash_def getHeadHash_def fastForwardToCommit_def
    by (intro keeps_intros user own)
  have loop: "keeps (grown s0) (replay_loop V ?H conn cwms head n)" for conn cwms head n
    by (induction cwms arbitrary: head n) (auto intro!: keeps_intros step)
  show ?thesis
    unfolding ReplayImportedCommits_def replayToTempBranchThenUpdateMain_def replay_body_def GetLastCommit_def
      getCommitsSince_def getBranchHeadHash_def
    by (intro keeps_intros loop)
qed

lemma keeps_grown_sync:
  assumes "callback_quiet cb"
  shows "keeps (grown s0) (syncOnce V cb)"
  unfolding syncOnce_def EnsureSwarmRemote_def add_remote_def FetchSwarm_def sync_fetched_def GetBranchHead_def MergeBase_def
    forceResetMainTo_def bootstrap_body_def drop_branch_def apply_imported_def tryFastForward_def ff_body_def
    getCommitsSince_def getBranchHeadHash_def
  by (intro keeps_intros keeps_grown_replay [OF assms])

section \<open>Branches\<close>

text \<open>Publishing a heartbeat and looking up a key do not touch the branches.\<close>

definition config_quiet :: "('w \<Rightarrow> string \<Rightarrow> string option) \<Rightarrow> 'w NodeConfig \<Rightarrow> bool" where
  "config_quiet B c \<longleftrightarrow>
     (\<forall>tr g hb w. cfg_Transport c = Some tr \<longrightarrow> tr_Gossip tr = Some g \<longrightarrow> B (snd (PublishHeartbeat g hb w)) = B w) \<and>
     (\<forall>f p w. cfg_Identity c = Some f \<longrightarrow> B (snd (f p w)) = B w)"

definition calm ::
  "('w \<Rightarrow> string \<Rightarrow> string option) \<Rightarrow> (string \<Rightarrow> string option) \<Rightarrow> ('w, 'm) Node_scheme \<Rightarrow> bool" where
  "calm B b0 s \<longleftrightarrow> B (world s) = b0 \<and> config_quiet B (cfg s)"

lemma keeps_gets_fact:
  assumes "\<And>s. P s \<Longrightarrow> R (g s)" "\<And>x. R x \<Longrightarrow> keeps P (f x)"
  shows "keeps P (State_Monad.bind (gets g) f)"
  using assms by (auto simp: keeps_def triple_def run_state_bind)

lemma keeps_calm:
  assumes "sync_laws V B C"
  shows "keeps (calm B b0) (timeNow V)"
    and "keeps (calm B b0) (gets g)"
    and "keeps (calm B b0) (modify (\<lambda>s. s\<lparr>idx := f s\<rparr>))"
    and "keeps (calm B b0) (modify (\<lambda>s. s\<lparr>recHLC := h s\<rparr>))"
    and "keeps (calm B b0) (modify (\<lambda>s. s\<lparr>peerHLC := k s\<rparr>))"
  using assms by (auto intro!: keepsI keeps_on_world simp: calm_def sync_laws_def read_laws_def)

lemma keeps_calm_idx:
  assumes "sync_laws V B C"
  shows "keeps (calm B b0) (idxUpsert V h hash st)" "keeps (calm B b0) (hlcNow V)" "keeps (calm B b0) (hlcUpdate V h)"
  unfolding idxUpsert_def idxPut_def hlcNow_def hlcUpdate_def by (intro keeps_intros keeps_calm [OF assms])+

lemma keeps_calm_handlers:
  assumes "sync_laws V B C"
  shows "keeps (calm B b0) (on_event V evt)" "keeps (calm B b0) (on_tick V)"
proof -
  have verify: "keeps (calm B b0) (verify_identity V c h m)" if "config_quiet B c" for c h m
  proof (cases "cfg_Identity c")
    case None
    then show ?thesis by (simp add: verify_identity_def keeps_return)
  next
    case (Some f)
    then have "keeps (calm B b0) (on_world (f (PeerID h)))"
      using that by (auto simp: calm_def config_quiet_def intro!: keeps_on_world)
    then show ?thesis using Some by (auto simp: verify_identity_def intro!: keeps_intros)
  qed
  have "keeps (calm B b0) (onCommitAd V frm ad)" for frm ad
    unfolding onCommitAd_def reject_ad_def
    by (rule keeps_gets_fact [where R = "config_quiet B"], simp add: calm_def)
      (intro keeps_intros keeps_calm [OF assms] keeps_calm_idx [OF assms] verify)
  moreover have "keeps (calm B b0) (onHeartbeat V frm hb)" for frm hb
    unfolding onHeartbeat_def by (intro keeps_intros keeps_calm [OF assms] keeps_calm_idx [OF assms])
  ultimately show "keeps (calm B b0) (on_event V evt)"
    unfolding on_event_def by (intro keeps_intros)
  have send: "keeps (calm B b0) (on_world (PublishHeartbeat g hb))" if "\<forall>hb w. B (snd (PublishHeartbeat g hb w)) = B w" for g hb
    using that by (auto simp: calm_def intro!: keeps_on_world)
  have publish: "keeps (calm B b0) (publishHeartbeat V)"
    unfolding publishHeartbeat_def
  proof (rule keeps_gets_fact [where R = "\<lambda>x. \<forall>g hb w. x = Some g \<longrightarrow> B (snd (PublishHeartbeat g hb w)) = B w"])
    show "calm B b0 s \<Longrightarrow> \<forall>g hb w. node_gossip s = Some g \<longrightarrow> B (snd (PublishHeartbeat g hb w)) = B w" for s
      by (auto simp: calm_def config_quiet_def node_gossip_def split: option.splits)
  qed (auto simp: Let_def intro!: keeps_intros keeps_calm [OF assms] keeps_calm_idx [OF assms] send split: option.split)
  have "keeps (calm B b0) (tryFinalize V)"
    unfolding tryFinalize_def by (intro keeps_intros keeps_calm [OF assms])
  with publish show "keeps (calm B b0) (on_tick V)"
    unfolding on_tick_def by (intro keeps_intros)
qed

section \<open>Properties of runs\<close>

lemmas loop_defs = requestSync_def enqueue_def events_capacity_def

lemma trigger_kept: "loop_step V cb l a l' \<Longrightarrow> lp_trigger l \<Longrightarrow> a = SyncStart \<or> lp_trigger l'"
  by (induction rule: loop_step.induct) (auto simp: loop_defs)

lemma trigger_kept_run: "loop_run V cb l as l' \<Longrightarrow> lp_trigger l \<Longrightarrow> SyncStart \<in> set as \<or> lp_trigger l'"
  by (induction rule: loop_run.induct) (auto dest: trigger_kept)

lemma stopped_step:
  "loop_step V cb l a l' \<Longrightarrow> lp_sync l = Stopped \<longrightarrow> lp_done l \<noteq> None \<Longrightarrow> lp_sync l' = Stopped \<longrightarrow> lp_done l' \<noteq> None"
  by (induction rule: loop_step.induct) (auto simp: loop_defs)

lemma stopped_run:
  "loop_run V cb l as l' \<Longrightarrow> lp_sync l = Stopped \<longrightarrow> lp_done l \<noteq> None \<Longrightarrow> lp_sync l' = Stopped \<longrightarrow> lp_done l' \<noteq> None"
  by (induction rule: loop_run.induct) (use stopped_step in blast)+

lemma events_run: "loop_run V cb l as l' \<Longrightarrow> length (lp_events l) \<le> events_capacity \<Longrightarrow> length (lp_events l') \<le> events_capacity"
proof (induction rule: loop_run.induct)
  case (loop_more l a l' as l'')
  have "length (lp_events l') \<le> events_capacity"
    using loop_more.hyps(1) loop_more.prems by (induction rule: loop_step.induct) (auto simp: loop_defs)
  with loop_more.IH show ?case .
qed

lemma loop_run_append: "loop_run V cb l as l' \<Longrightarrow> loop_run V cb l' bs l'' \<Longrightarrow> loop_run V cb l (as @ bs) l''"
  by (induction rule: loop_run.induct) (auto intro: loop_more)

lemma sync_progress:
  assumes "lp_trigger l" "lp_sync l \<noteq> Stopped"
  shows "\<exists>as l'. loop_run V cb l as l' \<and> SyncStart \<in> set as \<and> set as \<subseteq> {SyncEnd, SyncStart}"
proof (cases "lp_sync l")
  case Waiting
  then show ?thesis using assms loop_more [OF sync_start loop_refl] by fastforce
next
  case Syncing
  obtain r n where "run_state (syncOnce V cb) (lp_node l) = (r, n)" by (rule prod.exhaust)
  then have "loop_step V cb l SyncEnd (l\<lparr>lp_node := n, lp_sync := Waiting\<rparr>)" using Syncing by (intro sync_end)
  moreover have "loop_run V cb (l\<lparr>lp_node := n, lp_sync := Waiting\<rparr>) [SyncStart]
      (l\<lparr>lp_node := n, lp_sync := Waiting\<rparr>\<lparr>lp_trigger := False, lp_sync := Syncing\<rparr>)"
    by (rule loop_more [OF sync_start loop_refl]) (use assms in simp_all)
  ultimately have "loop_run V cb l [SyncEnd, SyncStart] (l\<lparr>lp_node := n, lp_sync := Waiting\<rparr>\<lparr>lp_trigger := False, lp_sync := Syncing\<rparr>)"
    by (rule loop_more)
  then show ?thesis by fastforce
qed (use assms in simp)

text \<open>
  C9: no request for a synchronization is lost. After the main loop has accepted an advert, as
  long as the context is not cancelled, every run either contains the start of a pass or can
  be continued to one by the synchronizer alone, in at most the end of the current pass and
  the start of the next, whatever the other goroutines did meanwhile.
\<close>

theorem accepted_ad_gets_sync:
  assumes start: "Run_start V n = (Inr l0, n')" and run0: "loop_run V cb l0 as0 l"
    and step: "loop_step V cb l (Handle evt) l1"
    and ad: "evt_CommitAd evt = Some ad" "fst (run_state (onCommitAd V (evt_From evt) ad) (lp_node l))"
    and run: "loop_run V cb l1 as l2" and alive: "lp_done l2 = None"
  shows "\<exists>as' l3. loop_run V cb l1 (as @ as') l3 \<and> SyncStart \<in> set (as @ as') \<and> set as' \<subseteq> {SyncEnd, SyncStart}"
proof -
  have "lp_sync l0 = Stopped \<longrightarrow> lp_done l0 \<noteq> None"
    using start by (auto simp: Run_start_def Let_def split: option.splits if_splits prod.splits sum.splits)
  then have "lp_sync l2 \<noteq> Stopped"
    using stopped_run [OF run0] stopped_step [OF step] stopped_run [OF run] alive by simp
  moreover have "lp_trigger l1"
    using step ad by cases (auto simp: on_event_def run_state_bind requestSync_def split: prod.splits)
  then have "SyncStart \<in> set as \<or> lp_trigger l2" by (rule trigger_kept_run [OF run])
  ultimately consider "SyncStart \<in> set as" | as' l3 where "loop_run V cb l2 as' l3" "SyncStart \<in> set as'" "set as' \<subseteq> {SyncEnd, SyncStart}"
    using sync_progress by blast
  then show ?thesis
  proof cases
    case 1
    then show ?thesis using run by (intro exI [of _ "[]"] exI [of _ l2]) simp
  next
    case 2
    then show ?thesis using loop_run_append [OF run] by fastforce
  qed
qed

text \<open>A node without history, so that the first rebuild of the index finds nothing, and an advert.\<close>

definition fresh_node :: "rworld Node" where
  "fresh_node = sample_node\<lparr>world := sample_world\<lparr>r_branches := []\<rparr>\<rparr>"

definition fresh_loop :: "rworld loop" where
  "fresh_loop = \<lparr>lp_node = fresh_node, lp_trigger = False, lp_events = [], lp_heartbeat = False, lp_repair = False,
     lp_reader = True, lp_subErr = None, lp_sync = Waiting, lp_syncErr = None, lp_done = None, lp_result = None\<rparr>"

definition sample_event :: GossipEvent where
  "sample_event = \<lparr>evt_From = ''p'', evt_CommitAd = Some genuine_ad, evt_Heartbeat = None\<rparr>"

lemma fresh_start: "Run_start reference_engine fresh_node = (Inr fresh_loop, fresh_node)"
proof -
  have all: "\<exists>err. run_state (GetAllCommits reference_engine) fresh_node = (Inl err, fresh_node)"
    by (simp add: GetAllCommits_def getCommitsSince_def getBranchHeadHash_def scan_string_def run_state_bind fresh_node_def
        reference_engine_def sample_world_def r_log_def r_resolve_def r_branch_def)
  have "fresh_node\<lparr>idx := resetForRebuild (idx fresh_node)\<rparr> = fresh_node"
    by (simp add: fresh_node_def resetForRebuild_def NewMemoryCommitIndex_def sample_node_def new_node_def DB.defs)
  with all have "snd (run_state (initIndexFromDB reference_engine) fresh_node) = fresh_node"
    by (auto simp: initIndexFromDB_def run_state_bind Let_def)
  then show ?thesis
    by (simp add: Run_start_def fresh_loop_def sample_gossip_def Let_def) (simp add: fresh_node_def sample_config_def sample_gossip_def Let_def)
qed

lemma fresh_accepts: "\<exists>s'. run_state (onCommitAd reference_engine ''p'' genuine_ad) fresh_node = (True, s')"
proof -
  obtain b s' where run: "run_state (onCommitAd reference_engine ''p'' genuine_ad) fresh_node = (b, s')" by (rule prod.exhaust)
  have "identity_verified sample_config (ad_HLC genuine_ad) w signed_sample" for w
    using Verify_signed_sample by (simp add: identity_verified_def sample_config_def)
  moreover have "meta_Signature signed_sample = ''sig''" "PeerID (meta_HLC signed_sample) = ''p''"
    by (simp_all add: signed_sample_def sample_metadata_def NewCommitMetadata_def)
  ultimately have "ad_verdict sample_config NewMemoryCommitIndex (UnixNano 0) (identity_verified sample_config (ad_HLC genuine_ad) w) genuine_ad = Accepted" for w
    by (simp add: ad_verdict_def decided_def own_peer_def skewed_def Parse_signed_message sample_config_def genuine_ad_def
        sample_signer_def)
  moreover have "e_time reference_engine (world fresh_node) = (0, world fresh_node\<lparr>r_clock := 1\<rparr>)"
    by (simp add: fresh_node_def reference_engine_def sample_world_def)
  ultimately have b using onCommitAd_effect [OF run] by (simp add: fresh_node_def)
  with run show ?thesis by auto
qed

theorem accepted_ad_gets_sync_witness:
  "\<exists>l1 as l3. loop_step reference_engine None (fresh_loop\<lparr>lp_events := [sample_event]\<rparr>) (Handle sample_event) l1 \<and>
     loop_run reference_engine None l1 as l3 \<and> SyncStart \<in> set as"
proof -
  let ?l = "fresh_loop\<lparr>lp_events := [sample_event]\<rparr>"
  have run0: "loop_run reference_engine None fresh_loop [Deliver sample_event] ?l"
    using loop_more [OF deliver loop_refl, of fresh_loop] by (simp add: fresh_loop_def enqueue_def events_capacity_def)
  obtain w n where ev: "run_state (on_event reference_engine sample_event) (lp_node ?l) = (w, n)" by (rule prod.exhaust)
  have step: "loop_step reference_engine None ?l (Handle sample_event) (requestSync w (?l\<lparr>lp_node := n, lp_events := []\<rparr>))"
    by (rule handle [OF _ _ ev]) (simp_all add: fresh_loop_def)
  have ad: "evt_CommitAd sample_event = Some genuine_ad" "fst (run_state (onCommitAd reference_engine (evt_From sample_event) genuine_ad) (lp_node ?l))"
    using fresh_accepts by (auto simp: sample_event_def fresh_loop_def)
  have "lp_done (requestSync w (?l\<lparr>lp_node := n, lp_events := []\<rparr>)) = None" by (simp add: requestSync_def fresh_loop_def)
  from accepted_ad_gets_sync [OF fresh_start run0 step ad loop_refl this] step show ?thesis by auto
qed

lemma grown_refl: "idx_wf (idx s) \<Longrightarrow> grown s s"
  by (simp add: grown_def)

lemma grown_step:
  assumes "callback_quiet cb" "loop_step V cb l a l'" "idx_wf (idx (lp_node l))"
  shows "grown (lp_node l) (lp_node l')"
  using assms(2)
proof cases
  case (sync_end r n)
  then show ?thesis using keepsD [OF keeps_grown_sync [OF assms(1)] grown_refl [OF assms(3)]] by simp
next
  case (handle evt evts wanted n)
  then show ?thesis using keepsD [OF keeps_grown_handlers(1) grown_refl [OF assms(3)]] by (simp add: requestSync_def)
next
  case (heartbeat u n)
  then show ?thesis using keepsD [OF keeps_grown_handlers(2) grown_refl [OF assms(3)]] by simp
qed (use grown_refl [OF assms(3)] in \<open>simp_all add: requestSync_def\<close>)

lemma grown_run:
  assumes "loop_run V cb l as l'" "callback_quiet cb" "idx_wf (idx (lp_node l))"
  shows "grown (lp_node l) (lp_node l')"
  using assms(1,3)
proof (induction rule: loop_run.induct)
  case (loop_refl l)
  then show ?case by (rule grown_refl)
next
  case (loop_more l a l' as l'')
  have "grown (lp_node l) (lp_node l')" by (rule grown_step [OF assms(2) loop_more.hyps(1) loop_more.prems])
  moreover from this have "grown (lp_node l') (lp_node l'')" by (intro loop_more.IH) (simp add: grown_def)
  ultimately show ?case by (rule grown_trans)
qed

lemma Run_start_grown: "Run_start V n = (Inr l0, n') \<Longrightarrow> idx_wf (idx n) \<Longrightarrow> grown n (lp_node l0) \<and> lp_events l0 = []"
proof -
  assume run: "Run_start V n = (Inr l0, n')" and wf: "idx_wf (idx n)"
  then obtain w where l0: "lp_node l0 = snd (run_state (initIndexFromDB V) (n\<lparr>world := w\<rparr>))" "lp_events l0 = []"
    by (auto simp: Run_start_def Let_def split: option.splits if_splits prod.splits sum.splits)
  have "grown n (n\<lparr>world := w\<rparr>)" using wf by (simp add: grown_def)
  from keepsD [OF keeps_grown_rebuild this prod.collapse [symmetric]] l0 show ?thesis by simp
qed

text \<open>
  C12: the running node never goes back. Along every run the queue of events stays within its
  capacity, the index stays well formed, the finalized base never moves to an older timestamp
  and is never lost, and the timestamp known of a peer never decreases, through adverts,
  heartbeats, finalization, synchronization passes and failed rebuilds in any order.
\<close>

theorem run_never_regresses:
  assumes "Run_start V n = (Inr l0, n')" "idx_wf (idx n)" "callback_quiet cb"
    and "loop_run V cb l0 as l" "loop_run V cb l bs l'"
  shows "length (lp_events l') \<le> 256 \<and> idx_wf (idx (lp_node l')) \<and>
    (\<forall>b. finalizedBase (idx (lp_node l)) = Some b \<longrightarrow>
       (\<exists>b'. finalizedBase (idx (lp_node l')) = Some b' \<and> \<not> Less (fb_HLC b') (fb_HLC b))) \<and>
    (\<forall>p h. map_of (peerHLC (lp_node l)) p = Some h \<longrightarrow>
       (\<exists>h'. map_of (peerHLC (lp_node l')) p = Some h' \<and> \<not> Less h' h))"
proof -
  note start = Run_start_grown [OF assms(1,2)]
  have wf: "idx_wf (idx (lp_node l))"
    using grown_run [OF assms(4,3)] start by (simp add: grown_def)
  have "length (lp_events l') \<le> events_capacity"
    using events_run [OF assms(5)] events_run [OF assms(4)] start by simp
  with grown_run [OF assms(5,3) wf] show ?thesis
    by (auto simp: grown_def base_le_def peers_le_def Less_not_less_eq events_capacity_def)
qed

text \<open>A heartbeat of the peer \<open>a\<close> is received twice, the second time with an older timestamp.\<close>

definition beat :: "int64 \<Rightarrow> GossipEvent" where
  "beat t = \<lparr>evt_From = ''a'', evt_CommitAd = None,
     evt_Heartbeat = Some \<lparr>hb_Repo = sample_repo, hb_HLC = \<lparr>Wall = t, Logical = 0, PeerID = ''a''\<rparr>, hb_PeerID = ''a''\<rparr>\<rparr>"

lemma beat_run:
  assumes "cfg (lp_node l) = sample_config" "lp_reader l" "lp_result l = None" "lp_events l = []"
  shows "\<exists>l'. loop_run V cb l [Deliver (beat t), Handle (beat t)] l' \<and> cfg (lp_node l') = sample_config \<and> lp_reader l' \<and>
    lp_result l' = None \<and> lp_events l' = [] \<and>
    peerHLC (lp_node l') = observe_peer \<lparr>hb_Repo = sample_repo, hb_HLC = \<lparr>Wall = t, Logical = 0, PeerID = ''a''\<rparr>, hb_PeerID = ''a''\<rparr> (peerHLC (lp_node l))"
proof -
  let ?l = "l\<lparr>lp_events := [beat t]\<rparr>"
  have 1: "loop_step V cb l (Deliver (beat t)) ?l"
    using deliver [of l V cb "beat t"] assms by (simp add: enqueue_def events_capacity_def)
  obtain w n where ev: "run_state (on_event V (beat t)) (lp_node ?l) = (w, n)" by (rule prod.exhaust)
  let ?l' = "requestSync w (?l\<lparr>lp_node := n, lp_events := []\<rparr>)"
  have "loop_step V cb ?l (Handle (beat t)) ?l'" using assms by (intro handle [OF _ _ ev]) simp_all
  with 1 have "loop_run V cb l [Deliver (beat t), Handle (beat t)] ?l'"
    by (blast intro: loop_more loop_refl)
  moreover have "cfg n = sample_config" "peerHLC n = observe_peer \<lparr>hb_Repo = sample_repo,
      hb_HLC = \<lparr>Wall = t, Logical = 0, PeerID = ''a''\<rparr>, hb_PeerID = ''a''\<rparr> (peerHLC (lp_node l))"
    using ev assms
    by (auto simp: on_event_def beat_def run_state_bind onHeartbeat_def own_peer_def sample_config_def sample_signer_def
        hlcUpdate_def split: prod.splits)
  ultimately show ?thesis using assms by (intro exI [of _ ?l']) (simp add: requestSync_def)
qed

theorem run_never_regresses_witness:
  "\<exists>as l bs l' h'. loop_run reference_engine None fresh_loop as l \<and> loop_run reference_engine None l bs l' \<and>
     map_of (peerHLC (lp_node l)) ''a'' = Some \<lparr>Wall = 9, Logical = 0, PeerID = ''a''\<rparr> \<and> Handle (beat 4) \<in> set bs \<and>
     map_of (peerHLC (lp_node l')) ''a'' = Some h' \<and> \<not> Less h' \<lparr>Wall = 9, Logical = 0, PeerID = ''a''\<rparr>"
proof -
  have init: "cfg (lp_node fresh_loop) = sample_config" "lp_reader fresh_loop" "lp_result fresh_loop = None"
    "lp_events fresh_loop = []" "peerHLC (lp_node fresh_loop) = []"
    by (simp_all add: fresh_loop_def fresh_node_def sample_node_def new_node_def DB.defs)
  obtain l where l: "loop_run reference_engine None fresh_loop [Deliver (beat 9), Handle (beat 9)] l"
      "cfg (lp_node l) = sample_config" "lp_reader l" "lp_result l = None" "lp_events l = []"
      "map_of (peerHLC (lp_node l)) ''a'' = Some \<lparr>Wall = 9, Logical = 0, PeerID = ''a''\<rparr>"
    using beat_run [OF init(1-4), of reference_engine None 9] init(5) by (auto simp: observe_peer_def)
  obtain l' where l': "loop_run reference_engine None l [Deliver (beat 4), Handle (beat 4)] l'"
    using beat_run [OF l(2-5), of reference_engine None 4] by blast
  have "idx_wf (idx fresh_node)" "callback_quiet None" by (simp_all add: fresh_node_def callback_quiet_def)
  from run_never_regresses [OF fresh_start this l(1) l'] l(6) obtain h' where
    "map_of (peerHLC (lp_node l')) ''a'' = Some h' \<and> \<not> Less h' \<lparr>Wall = 9, Logical = 0, PeerID = ''a''\<rparr>" by blast
  with l(1,6) l' show ?thesis by fastforce
qed

lemma heads_step:
  assumes laws: "sync_laws V B C" "hook_ok B C cb" and quiet: "config_quiet B (cfg (lp_node l))" and step: "loop_step V cb l a l'"
  shows "same_heads (a = SyncEnd) (B (world (lp_node l))) (B (world (lp_node l')))"
  using step
proof cases
  case (sync_end r n)
  then show ?thesis
    using tripleD [OF triple_syncOnce [where B = B and ?b0.0 = "B (world (lp_node l))", OF laws] _ sync_end(4)]
    by (auto simp: seen_def same_heads_def)
next
  case (handle evt evts wanted n)
  then show ?thesis
    using keepsD [OF keeps_calm_handlers(1) [OF laws(1)] _ handle(5), of "B (world (lp_node l))"] quiet
    by (simp add: calm_def same_heads_def requestSync_def)
next
  case (heartbeat u n)
  then show ?thesis
    using keepsD [OF keeps_calm_handlers(2) [OF laws(1)] _ heartbeat(5), of "B (world (lp_node l))"] quiet
    by (simp add: calm_def same_heads_def)
qed (simp_all add: same_heads_def requestSync_def)



section \<open>A rebuild that overlaps with an advert\<close>

text \<open>
  \<open>initIndexFromDB\<close> reads the entries to preserve, and resets the index afterwards; the index is
  not locked in between, and the main loop may handle an advert there.
\<close>

definition rebuild_rest :: "'w env \<Rightarrow> CommitIndexEntry list \<Rightarrow> ('w, 'm, unit result) node_prog" where
  "rebuild_rest V preserved = do {
     _ \<leftarrow> modify (\<lambda>s. s\<lparr>idx := resetForRebuild (idx s)\<rparr>);
     r \<leftarrow> GetAllCommits V;
     case r of
       Inl err \<Rightarrow> return (Inl err)
     | Inr commits \<Rightarrow> do {
         _ \<leftarrow> index_commits V commits;
         _ \<leftarrow> restore_entries V preserved;
         return (Inr ()) } }"

lemma initIndexFromDB_split:
  "initIndexFromDB V = do { i \<leftarrow> gets idx; rebuild_rest V (preserved_entries V i) }"
  by (simp add: initIndexFromDB_def rebuild_rest_def Let_def)

text \<open>
  C39: a rebuild can lose an advert. If the main loop handles an advert after the rebuild has
  read the entries to preserve and before it resets the index, nothing of the advert is left
  afterwards: neither a pending nor a rejected entry, unless its commit is already on \<open>main\<close>.
\<close>

theorem rebuild_race_loses_advert:
  assumes env: "env_ok V" and wf: "idx_wf (idx s)" and new: "Get (idx s) (ad_HLC ad) = None"
    and ad: "run_state (onCommitAd V frm ad) s = (b, s1)"
    and rest: "run_state (rebuild_rest V (preserved_entries V (idx s))) s1 = (r, s2)"
    and all: "run_state (GetAllCommits V) (s1\<lparr>idx := resetForRebuild (idx s1)\<rparr>) = (ra, s')"
    and no: "\<forall>commits. ra = Inr commits \<longrightarrow> Some (ad_HLC ad) \<notin> user_hlc ` set commits"
  shows "(b \<longrightarrow> (\<exists>e. Get (idx s1) (ad_HLC ad) = Some e \<and> entry_Status e = CommitStatusPending)) \<and>
    Get (idx s2) (ad_HLC ad) = None"
proof
  obtain t w where t: "e_time V (world s) = (t, w)" by (rule prod.exhaust)
  show "b \<longrightarrow> (\<exists>e. Get (idx s1) (ad_HLC ad) = Some e \<and> entry_Status e = CommitStatusPending)"
    using onCommitAd_effect [OF ad t] by (auto simp: ad_effect_def mem.lookup_upsert [OF wf] stamped_def)
next
  let ?s0 = "s1\<lparr>idx := resetForRebuild (idx s1)\<rparr>"
  have "frame ?s0 s'" by (rule keepsD [OF keeps_frame_GetAllCommits _ all]) simp
  then have s': "idx_wf (idx s')" "Get (idx s') h = None" for h by (auto simp: frame_def)
  show "Get (idx s2) (ad_HLC ad) = None"
  proof (cases ra)
    case (Inl err)
    then show ?thesis using rest all s' by (simp add: rebuild_rest_def run_state_bind)
  next
    case (Inr commits)
    obtain s3 where c: "run_state (index_commits V commits) s' = ((), s3)"
      and e: "run_state (restore_entries V (preserved_entries V (idx s))) s3 = ((), s2)"
      using rest all Inr by (auto simp: rebuild_rest_def run_state_bind split: prod.splits)
    have s3: "idx_wf (idx s3)" "Get (idx s3) (ad_HLC ad) = None"
      using index_commits_effect [OF s'(1) c] no Inr s'(2) by (auto simp: index_frame_def)
    have "ad_HLC ad \<notin> entry_HLC ` set (preserved_entries V (idx s))"
      using preserved_mem [OF env wf] new by auto
    then show ?thesis using restore_entries_effect [OF s3(1) e] s3(2) by auto
  qed
qed

lemma sample_GetAllCommits:
  "fst (run_state (GetAllCommits reference_engine) (sample_node\<lparr>recHLC := c, world := sample_world\<lparr>r_clock := k\<rparr>, idx := i\<rparr>)) =
     Inr [ref_commit ''local001'' ''local'', ref_commit ''base0000'' ''init'']"
  by code_simp

definition near_sample :: "rworld Node \<Rightarrow> bool" where
  "near_sample s \<longleftrightarrow> (\<exists>c k i. s = sample_node\<lparr>recHLC := c, world := sample_world\<lparr>r_clock := k\<rparr>, idx := i\<rparr>)"

lemma near_sample_self: "near_sample sample_node"
  unfolding near_sample_def
  by (intro exI [of _ "recHLC sample_node"] exI [of _ 0] exI [of _ "idx sample_node"])
    (simp add: sample_node_def new_node_def DB.defs sample_state_def sample_world_def)

lemma keeps_near_sample:
  "keeps near_sample (timeNow reference_engine)" "keeps near_sample (gets g)"
  "keeps near_sample (modify (\<lambda>s. s\<lparr>idx := f s\<rparr>))" "keeps near_sample (modify (\<lambda>s. s\<lparr>recHLC := h s\<rparr>))"
proof -
  show "keeps near_sample (timeNow reference_engine)"
  proof (rule keeps_on_world)
    fix s assume "near_sample s"
    then obtain c k i where "s = sample_node\<lparr>recHLC := c, world := sample_world\<lparr>r_clock := k\<rparr>, idx := i\<rparr>"
      unfolding near_sample_def by blast
    then show "near_sample (s\<lparr>world := snd (e_time reference_engine (world s))\<rparr>)"
      unfolding near_sample_def
      by (intro exI [of _ c] exI [of _ "k + 1"] exI [of _ i]) (simp add: reference_engine_def)
  qed
  show "keeps near_sample (gets g)" by (rule keepsI) simp
  show "keeps near_sample (modify (\<lambda>s. s\<lparr>idx := f s\<rparr>))"
  proof (rule keepsI)
    fix s assume "near_sample s"
    then obtain c k i where "s = sample_node\<lparr>recHLC := c, world := sample_world\<lparr>r_clock := k\<rparr>, idx := i\<rparr>"
      unfolding near_sample_def by blast
    then show "near_sample (snd (run_state (modify (\<lambda>s. s\<lparr>idx := f s\<rparr>)) s))"
      unfolding near_sample_def by (intro exI [of _ c] exI [of _ k] exI [of _ "f s"]) simp
  qed
  show "keeps near_sample (modify (\<lambda>s. s\<lparr>recHLC := h s\<rparr>))"
  proof (rule keepsI)
    fix s assume "near_sample s"
    then obtain c k i where "s = sample_node\<lparr>recHLC := c, world := sample_world\<lparr>r_clock := k\<rparr>, idx := i\<rparr>"
      unfolding near_sample_def by blast
    then show "near_sample (snd (run_state (modify (\<lambda>s. s\<lparr>recHLC := h s\<rparr>)) s))"
      unfolding near_sample_def by (intro exI [of _ "h s"] exI [of _ k] exI [of _ i]) simp
  qed
qed

lemma keeps_near_sample_ad: "keeps near_sample (onCommitAd reference_engine frm ad)"
proof -
  have verify: "keeps near_sample (verify_identity reference_engine c h m)" if "c = sample_config" for c h m
    using that keeps_on_world [of near_sample "\<lambda>w. (Inr ''key'', w)"]
    by (auto simp: verify_identity_def sample_config_def intro!: keeps_intros)
  show ?thesis
    unfolding onCommitAd_def reject_ad_def idxUpsert_def idxPut_def hlcUpdate_def
    by (rule keeps_gets_fact [where R = "\<lambda>c. c = sample_config"], force simp: near_sample_def)
      (intro keeps_intros keeps_near_sample verify)
qed

theorem rebuild_race_loses_advert_witness:
  "\<exists>s1 e r s2. run_state (onCommitAd reference_engine ''p'' genuine_ad) sample_node = (True, s1) \<and>
     Get (idx s1) (ad_HLC genuine_ad) = Some e \<and> entry_Status e = CommitStatusPending \<and>
     run_state (rebuild_rest reference_engine (preserved_entries reference_engine (idx sample_node))) s1 = (r, s2) \<and>
     Get (idx s2) (ad_HLC genuine_ad) = None"
proof -
  obtain s1 where run: "run_state (onCommitAd reference_engine ''p'' genuine_ad) sample_node = (True, s1)"
    using genuine_ad_accepted by blast
  have "near_sample s1" by (rule keepsD [OF keeps_near_sample_ad near_sample_self run])
  then obtain c k i where s1: "s1 = sample_node\<lparr>recHLC := c, world := sample_world\<lparr>r_clock := k\<rparr>, idx := i\<rparr>"
    unfolding near_sample_def by blast
  let ?r0 = "run_state (GetAllCommits reference_engine) (s1\<lparr>idx := resetForRebuild (idx s1)\<rparr>)"
  have "fst ?r0 = Inr [ref_commit ''local001'' ''local'', ref_commit ''base0000'' ''init'']"
    using sample_GetAllCommits by (simp add: s1)
  then obtain s' where all: "?r0 = (Inr [ref_commit ''local001'' ''local'', ref_commit ''base0000'' ''init''], s')"
    by (metis prod.collapse)
  have no: "user_hlc (ref_commit ''local001'' ''local'') = None" "user_hlc (ref_commit ''base0000'' ''init'') = None" by code_simp+
  obtain r s2 where rest: "run_state (rebuild_rest reference_engine (preserved_entries reference_engine (idx sample_node))) s1 = (r, s2)"
    by (rule prod.exhaust)
  from rebuild_race_loses_advert [OF reference_env_ok _ _ run rest all] no run rest show ?thesis by auto
qed

end
