(* ===== verification/Gossip_Sub.thy ===== *)
theory Gossip_Sub
  imports Run_Loop
begin

text \<open>
  The gossip transport of \<open>integration/transport/gossipsub/gossip.go\<close>: adverts and heartbeats are
  put into a protobuf envelope, published on a topic, and read back by the subscription of
  another node, whose event loop is that of \<open>Run_Loop\<close>. GossipSub and the protobuf codec are
  parameters.
\<close>

section \<open>Messages\<close>

text \<open>
  The messages of \<open>gossip.proto\<close>. A field of a message type and the alternative of the envelope
  may be absent.
\<close>

record CommitAd_pb =
  cpb_Repo :: "RepoID option"
  cpb_Hlc :: "HLCTimestamp option"
  cpb_MetadataJson :: string
  cpb_MetadataSig :: string

record Heartbeat_pb =
  hpb_Repo :: "RepoID option"
  hpb_Hlc :: "HLCTimestamp option"
  hpb_PeerId :: string

datatype GossipMessage =
    GossipMessage_CommitAd "CommitAd_pb option"
  | GossipMessage_Heartbeat "Heartbeat_pb option"
  | GossipMessage_Unknown

text \<open>What the transport uses of a topic and of the libraries.\<close>

record 'w Topic =
  tp_Publish :: "string \<Rightarrow> 'w \<Rightarrow> unit result \<times> 'w"
  tp_Subscribe :: "'w \<Rightarrow> unit result \<times> 'w"
  tp_EventHandler :: "'w \<Rightarrow> unit result \<times> 'w"
  tp_ListPeers :: "'w \<Rightarrow> string list"
  tp_Cancel :: "'w \<Rightarrow> 'w"

record ('p, 'w) pubsub_lib =
  pb_Marshal :: "GossipMessage \<Rightarrow> string result"
  pb_Unmarshal :: "string \<Rightarrow> GossipMessage result"
  ps_New :: "'w \<Rightarrow> 'p result \<times> 'w"
  ps_Join :: "'p \<Rightarrow> string \<Rightarrow> 'w \<Rightarrow> 'w Topic result \<times> 'w"

record ('p, 'w) GossipSubGossip =
  gs_ps :: 'p
  gs_topic :: "'w Topic option"

section \<open>Operations\<close>

definition gs_New :: "('p, 'w) pubsub_lib \<Rightarrow> string \<Rightarrow> 'w \<Rightarrow> ('p, 'w) GossipSubGossip result \<times> 'w" where
  "gs_New P topic w =
     (if topic = '''' then (Inl (ErrText ''topic is required''), w)
      else case ps_New P w of
        (Inl err, w') \<Rightarrow> (Inl err, w')
      | (Inr ps, w') \<Rightarrow>
          (case ps_Join P ps topic w' of
             (Inl err, w'') \<Rightarrow> (Inl err, w'')
           | (Inr t, w'') \<Rightarrow> (Inr \<lparr>gs_ps = ps, gs_topic = Some t\<rparr>, w'')))"

definition gs_EventHandler :: "('p, 'w) GossipSubGossip option \<Rightarrow> 'w \<Rightarrow> unit result \<times> 'w" where
  "gs_EventHandler g w =
     (case g of
        None \<Rightarrow> (Inl (ErrText ''gossipsub topic is not initialized''), w)
      | Some G \<Rightarrow>
          (case gs_topic G of
             None \<Rightarrow> (Inl (ErrText ''gossipsub topic is not initialized''), w)
           | Some t \<Rightarrow> tp_EventHandler t w))"

definition gs_ListPeers :: "('p, 'w) GossipSubGossip option \<Rightarrow> 'w \<Rightarrow> string list" where
  "gs_ListPeers g w =
     (case g of
        None \<Rightarrow> []
      | Some G \<Rightarrow> (case gs_topic G of None \<Rightarrow> [] | Some t \<Rightarrow> tp_ListPeers t w))"

definition ad_message :: "CommitAdV1 \<Rightarrow> GossipMessage" where
  "ad_message ad = GossipMessage_CommitAd (Some
     \<lparr>cpb_Repo = Some \<lparr>Org = Org (ad_Repo ad), RepoName = RepoName (ad_Repo ad)\<rparr>,
      cpb_Hlc = Some \<lparr>Wall = Wall (ad_HLC ad), Logical = Logical (ad_HLC ad), PeerID = PeerID (ad_HLC ad)\<rparr>,
      cpb_MetadataJson = ad_MetadataJSON ad, cpb_MetadataSig = ad_MetadataSig ad\<rparr>)"

definition heartbeat_message :: "HeartbeatV1 \<Rightarrow> GossipMessage" where
  "heartbeat_message hb = GossipMessage_Heartbeat (Some
     \<lparr>hpb_Repo = Some \<lparr>Org = Org (hb_Repo hb), RepoName = RepoName (hb_Repo hb)\<rparr>,
      hpb_Hlc = Some \<lparr>Wall = Wall (hb_HLC hb), Logical = Logical (hb_HLC hb), PeerID = PeerID (hb_HLC hb)\<rparr>,
      hpb_PeerId = hb_PeerID hb\<rparr>)"

definition publish_message :: "('p, 'w) pubsub_lib \<Rightarrow> ('p, 'w) GossipSubGossip \<Rightarrow> GossipMessage \<Rightarrow> 'w \<Rightarrow> unit result \<times> 'w" where
  "publish_message P G msg w =
     (case pb_Marshal P msg of
        Inl err \<Rightarrow> (Inl err, w)
      | Inr b \<Rightarrow>
          (case gs_topic G of
             None \<Rightarrow> (Inl (ErrPanic ''nil topic''), w)
           | Some t \<Rightarrow> tp_Publish t b w))"

definition gs_PublishCommitAd :: "('p, 'w) pubsub_lib \<Rightarrow> ('p, 'w) GossipSubGossip \<Rightarrow> CommitAdV1 \<Rightarrow> 'w \<Rightarrow> unit result \<times> 'w" where
  "gs_PublishCommitAd P G ad w = publish_message P G (ad_message ad) w"

definition gs_PublishHeartbeat :: "('p, 'w) pubsub_lib \<Rightarrow> ('p, 'w) GossipSubGossip \<Rightarrow> HeartbeatV1 \<Rightarrow> 'w \<Rightarrow> unit result \<times> 'w" where
  "gs_PublishHeartbeat P G hb w = publish_message P G (heartbeat_message hb) w"

definition gs_Subscribe :: "('p, 'w) GossipSubGossip \<Rightarrow> 'w \<Rightarrow> unit result \<times> 'w" where
  "gs_Subscribe G w =
     (case gs_topic G of
        None \<Rightarrow> (Inl (ErrPanic ''nil topic''), w)
      | Some t \<Rightarrow> tp_Subscribe t w)"

definition gossip_of :: "('p, 'w) pubsub_lib \<Rightarrow> ('p, 'w) GossipSubGossip \<Rightarrow> 'w Gossip" where
  "gossip_of P G = \<lparr>PublishCommitAd = gs_PublishCommitAd P G, PublishHeartbeat = gs_PublishHeartbeat P G, Subscribe = gs_Subscribe G\<rparr>"

text \<open>
  \<open>Next\<close> of the subscription; \<open>msg\<close> is what the subscription of GossipSub returns, the sender and
  the data, and \<open>now\<close> is \<open>time.Now()\<close>.
\<close>

definition sub_Next :: "('p, 'w) pubsub_lib \<Rightarrow> Time \<Rightarrow> (string \<times> string) result \<Rightarrow> GossipEvent result" where
  "sub_Next P now msg =
     (case msg of
        Inl err \<Rightarrow> Inl err
      | Inr (frm, data) \<Rightarrow>
          (case pb_Unmarshal P data of
             Inl err \<Rightarrow> Inl err
           | Inr gm \<Rightarrow>
               (let evt = \<lparr>evt_From = frm, evt_CommitAd = None, evt_Heartbeat = None\<rparr> in
                case gm of
                  GossipMessage_CommitAd ca \<Rightarrow>
                    (case ca of
                       None \<Rightarrow> Inl (ErrText ''invalid commit_ad message'')
                     | Some c \<Rightarrow>
                         (case (cpb_Hlc c, cpb_Repo c) of
                            (Some h, Some r) \<Rightarrow>
                              Inr (evt\<lparr>evt_CommitAd := Some
                                \<lparr>ad_Repo = \<lparr>Org = Org r, RepoName = RepoName r\<rparr>,
                                 ad_HLC = \<lparr>Wall = Wall h, Logical = Logical h, PeerID = PeerID h\<rparr>,
                                 ad_MetadataJSON = cpb_MetadataJson c, ad_MetadataSig = cpb_MetadataSig c, ad_ObservedAt = now\<rparr>\<rparr>)
                          | _ \<Rightarrow> Inl (ErrText ''invalid commit_ad message'')))
                | GossipMessage_Heartbeat hb \<Rightarrow>
                    (case hb of
                       None \<Rightarrow> Inl (ErrText ''invalid heartbeat message'')
                     | Some b \<Rightarrow>
                         (case (hpb_Hlc b, hpb_Repo b) of
                            (Some h, Some r) \<Rightarrow>
                              Inr (evt\<lparr>evt_Heartbeat := Some
                                \<lparr>hb_Repo = \<lparr>Org = Org r, RepoName = RepoName r\<rparr>,
                                 hb_HLC = \<lparr>Wall = Wall h, Logical = Logical h, PeerID = PeerID h\<rparr>, hb_PeerID = hpb_PeerId b\<rparr>\<rparr>)
                          | _ \<Rightarrow> Inl (ErrText ''invalid heartbeat message'')))
                | GossipMessage_Unknown \<Rightarrow> Inr evt)))"

definition sub_Close :: "'w Topic \<Rightarrow> 'w \<Rightarrow> unit result \<times> 'w" where
  "sub_Close t w = (Inr (), tp_Cancel t w)"

section \<open>What is published is what is read\<close>

definition marshal_law :: "('p, 'w) pubsub_lib \<Rightarrow> bool" where
  "marshal_law P \<longleftrightarrow> (\<forall>m b. pb_Marshal P m = Inr b \<longrightarrow> pb_Unmarshal P b = Inr m)"

lemma sub_Next_ad:
  assumes "marshal_law P" "pb_Marshal P (ad_message ad) = Inr b"
  shows "sub_Next P now (Inr (frm, b)) = Inr \<lparr>evt_From = frm, evt_CommitAd = Some (ad\<lparr>ad_ObservedAt := now\<rparr>), evt_Heartbeat = None\<rparr>"
proof -
  have "pb_Unmarshal P b = Inr (ad_message ad)" using assms by (simp add: marshal_law_def)
  then show ?thesis by (simp add: sub_Next_def ad_message_def)
qed

lemma sub_Next_heartbeat:
  assumes "marshal_law P" "pb_Marshal P (heartbeat_message hb) = Inr b"
  shows "sub_Next P now (Inr (frm, b)) = Inr \<lparr>evt_From = frm, evt_CommitAd = None, evt_Heartbeat = Some hb\<rparr>"
proof -
  have "pb_Unmarshal P b = Inr (heartbeat_message hb)" using assms by (simp add: marshal_law_def)
  then show ?thesis by (simp add: sub_Next_def heartbeat_message_def)
qed

text \<open>The time at which an advert was observed has no influence on its handling.\<close>

lemma onCommitAd_observed [simp]: "onCommitAd V frm (ad\<lparr>ad_ObservedAt := t\<rparr>) = onCommitAd V frm ad"
  by (simp add: onCommitAd_def cong: if_cong sum.case_cong)

text \<open>
  C8: a commit that one node publishes over GossipSub is accepted by another. The advert of
  \<open>publishLocalCommitAd\<close> goes to the topic as one message; the event that a subscriber reads
  from this message makes its node accept the advert and ask for a synchronization, if the
  node has not yet decided on the timestamp, is not the author, finds the timestamp within
  its skew bound, and its resolver returns a key under which the metadata verifies.
\<close>

theorem gossip_ad_accepted:
  assumes pub: "run_state (publishLocalCommitAd V h) s = (Some ad, s')"
    and gossip: "node_gossip s = Some (gossip_of P G)" "gs_topic G = Some t"
    and law: "marshal_law P" "pb_Marshal P (ad_message ad) = Inr b"
    and r: "cfg_Repo (cfg r) = cfg_Repo (cfg s)" "\<not> decided (idx r) (ad_HLC ad)" "\<not> own_peer (cfg r) (PeerID (ad_HLC ad))"
      "e_time V' (world r) = (now, w)" "\<not> skewed (cfg r) (UnixNano now) (ad_HLC ad)"
      "\<forall>m. ParseCommitMetadata (ad_MetadataJSON ad) = Inr m \<longrightarrow> identity_verified (cfg r) (ad_HLC ad) w m"
  shows "PublishCommitAd (the (node_gossip s)) ad = tp_Publish t b \<and>
    (\<exists>evt r'. sub_Next P observed (Inr (frm, b)) = Inr evt \<and> run_state (on_event V' evt) r = (True, r'))"
proof -
  have "PublishCommitAd (the (node_gossip s)) ad = tp_Publish t b"
    using gossip law(2) by (simp add: fun_eq_iff gossip_of_def gs_PublishCommitAd_def publish_message_def)
  moreover obtain r' where "run_state (onCommitAd V' frm ad) r = (True, r')"
    using published_ad_accepted [OF pub r] by blast
  then have "run_state (on_event V' \<lparr>evt_From = frm, evt_CommitAd = Some (ad\<lparr>ad_ObservedAt := observed\<rparr>), evt_Heartbeat = None\<rparr>) r = (True, r')"
    by (simp add: on_event_def run_state_bind)
  ultimately show ?thesis using sub_Next_ad [OF law] by blast
qed

text \<open>A codec for the one advert of the sample author, and the author with this transport.\<close>

definition sample_pubsub :: "(unit, rworld) pubsub_lib" where
  "sample_pubsub = \<lparr>pb_Marshal = (\<lambda>m. if m = ad_message genuine_ad then Inr ''ad'' else Inl (ErrText ''too long'')),
     pb_Unmarshal = (\<lambda>b. if b = ''ad'' then Inr (ad_message genuine_ad) else Inl (ErrText ''cannot parse'')),
     ps_New = (\<lambda>w. (Inr (), w)), ps_Join = (\<lambda>p t w. (Inl (ErrText ''no topic''), w))\<rparr>"

definition sample_topic :: "rworld Topic" where
  "sample_topic = \<lparr>tp_Publish = (\<lambda>b w. (Inr (), w)), tp_Subscribe = (\<lambda>w. (Inr (), w)), tp_EventHandler = (\<lambda>w. (Inr (), w)),
     tp_ListPeers = (\<lambda>w. []), tp_Cancel = (\<lambda>w. w)\<rparr>"

definition gossiping_config :: "rworld NodeConfig" where
  "gossiping_config = sample_config\<lparr>cfg_Transport := Some
     \<lparr>tr_Gossip = Some (gossip_of sample_pubsub \<lparr>gs_ps = (), gs_topic = Some sample_topic\<rparr>), tr_Providers = Some 0\<rparr>\<rparr>"

lemma sample_marshal_law: "marshal_law sample_pubsub"
  by (simp add: marshal_law_def sample_pubsub_def)

theorem gossip_ad_accepted_witness:
  "\<exists>ad s' evt r'. run_state (publishLocalCommitAd reference_engine ''local001'') (author_node\<lparr>cfg := gossiping_config\<rparr>) = (Some ad, s') \<and>
     sub_Next sample_pubsub 0 (Inr (''p'', ''ad'')) = Inr evt \<and> run_state (on_event reference_engine evt) sample_node = (True, r')"
proof -
  let ?s = "author_node\<lparr>cfg := gossiping_config\<rparr>" and ?G = "\<lparr>gs_ps = (), gs_topic = Some sample_topic\<rparr>"
  have g: "node_gossip ?s = Some (gossip_of sample_pubsub ?G)" by (simp add: node_gossip_def gossiping_config_def)
  obtain ad s' where pub: "run_state (publishLocalCommitAd reference_engine ''local001'') ?s = (Some ad, s')"
    and ad: "ad_HLC ad = meta_HLC signed_sample" "ad_MetadataJSON ad = signed_message"
    using author_publishes [OF g] by blast
  have sel: "PeerID (meta_HLC signed_sample) = ''p''" "meta_Signature signed_sample = ''sig''"
    by (simp_all add: signed_sample_def sample_metadata_def NewCommitMetadata_def)
  have "ad_Repo ad = sample_repo" "ad_MetadataSig ad = ''sig''"
    using publishLocalCommitAd_ad [OF pub] ad(2) sel(2) by (auto simp: gossiping_config_def sample_config_def Parse_signed_message)
  then have "ad_message ad = ad_message genuine_ad" using ad by (simp add: ad_message_def genuine_ad_def)
  then have m: "pb_Marshal sample_pubsub (ad_message ad) = Inr ''ad''" by (simp add: sample_pubsub_def)
  have "\<exists>evt r'. sub_Next sample_pubsub 0 (Inr (''p'', ''ad'')) = Inr evt \<and> run_state (on_event reference_engine evt) sample_node = (True, r')"
    using Verify_signed_sample sel
    by (intro gossip_ad_accepted [OF pub g _ sample_marshal_law m, where now = 0 and w = "sample_world\<lparr>r_clock := 1\<rparr>", THEN conjunct2])
      (simp_all add: sample_time ad gossiping_config_def decided_def own_peer_def skewed_def sample_config_def sample_signer_def
        identity_verified_def Parse_signed_message)
  with pub show ?thesis by blast
qed

section \<open>Malformed messages\<close>

definition well_formed :: "GossipMessage \<Rightarrow> bool" where
  "well_formed m = (case m of
     GossipMessage_CommitAd ca \<Rightarrow> (case ca of None \<Rightarrow> False | Some c \<Rightarrow> cpb_Hlc c \<noteq> None \<and> cpb_Repo c \<noteq> None)
   | GossipMessage_Heartbeat hb \<Rightarrow> (case hb of None \<Rightarrow> False | Some b \<Rightarrow> hpb_Hlc b \<noteq> None \<and> hpb_Repo b \<noteq> None)
   | GossipMessage_Unknown \<Rightarrow> True)"

text \<open>After \<open>Run\<close> has returned, its loop takes no step.\<close>

lemma over_run:
  assumes "loop_run V cb l as l'" "lp_result l \<noteq> None"
  shows "Heartbeat \<notin> set as \<and> (\<forall>evt. Handle evt \<notin> set as)"
  using assms
proof induction
  case (loop_more l a l' as l'')
  have "lp_result l' \<noteq> None" "a \<noteq> Heartbeat" "\<forall>evt. a \<noteq> Handle evt"
    using loop_more.hyps(1) loop_more.prems by (cases; simp)+
  then show ?case using loop_more.IH by auto
qed simp

lemma sub_Next_total: "(\<exists>evt. sub_Next P now (Inr (frm, data)) = Inr evt) \<longleftrightarrow> (\<exists>m. pb_Unmarshal P data = Inr m \<and> well_formed m)"
  by (auto simp: sub_Next_def well_formed_def Let_def split: sum.splits GossipMessage.splits option.splits)

text \<open>
  C38: one malformed message ends the event loop. Whatever the state of a running loop, if a
  peer publishes data that is not an envelope, or an advert or heartbeat without a timestamp or a
  repository, then the subscription returns an error, and \<open>Run\<close> can return with it at once;
  after that no event is handled, and no heartbeat is sent, in any continuation, though the
  context is not cancelled.
\<close>

theorem malformed_gossip_stops_run:
  assumes "\<nexists>m. pb_Unmarshal P data = Inr m \<and> well_formed m" "lp_reader l" "lp_result l = None"
  shows "\<exists>e l'. sub_Next P now (Inr (frm, data)) = Inl e \<and> loop_run V cb l [SubFail, Return] l' \<and> lp_result l' = Some e \<and>
    lp_done l' = lp_done l \<and> (\<forall>as l''. loop_run V cb l' as l'' \<longrightarrow> Heartbeat \<notin> set as \<and> (\<forall>evt. Handle evt \<notin> set as))"
proof -
  obtain e where e: "sub_Next P now (Inr (frm, data)) = Inl e"
    using sub_Next_total [of P now frm data] assms(1) by (cases "sub_Next P now (Inr (frm, data))") auto
  let ?l = "l\<lparr>lp_reader := False, lp_subErr := Some e\<rparr>"
  let ?l' = "?l\<lparr>lp_subErr := None, lp_result := Some e\<rparr>"
  have "loop_run V cb l [SubFail, Return] ?l'"
    using assms(2,3) by (intro loop_more [OF sub_fail [where e = e]] loop_more [OF return_sub [where e = e]] loop_refl) simp_all
  moreover have "\<forall>as l''. loop_run V cb ?l' as l'' \<longrightarrow> Heartbeat \<notin> set as \<and> (\<forall>evt. Handle evt \<notin> set as)"
    using over_run [of V cb ?l'] by simp
  ultimately show ?thesis using e by (intro exI [of _ e] exI [of _ ?l']) simp
qed

theorem malformed_gossip_stops_run_witness:
  "\<exists>e l'. loop_run reference_engine None fresh_loop [SubFail, Return] l' \<and> lp_result l' = Some e \<and> lp_done l' = None"
  using malformed_gossip_stops_run [of sample_pubsub "''junk''" fresh_loop 0 "''p''" reference_engine None]
  by (auto simp: sample_pubsub_def fresh_loop_def)

end
