(* ===== verification/Chunk_Store.thy ===== *)
theory Chunk_Store
  imports Swarm
begin

text \<open>
  The data plane of the core library: the cache of \<open>core/cache.go\<close>, the read-only chunk store of
  \<open>core/remote_chunk_store.go\<close>, the table files of \<open>core/remote_table_file.go\<close>, and the factory
  \<open>CreateDB\<close> of \<open>core/swarm_dbfactory.go\<close> that builds such a store for a URL.

  Hashes and byte slices are strings of bytes. A \<open>HashSet\<close> is a list without repetitions, and
  ranging over it goes through the argument \<open>it\<close>, of which only \<open>range_ok\<close> is known. The caches of
  the \<open>golang-lru\<close> package, the hash and chunk functions of Dolt, and the clients that a provider
  offers are parameters; the laws that the theorems need of them are stated below. A download
  is the list of the calls that the client makes to the callback, with the error at its end.
\<close>

section \<open>Types of the interface of providers\<close>

type_synonym Hash = string
type_synonym bytes = string
type_synonym HashSet = "Hash list"

text \<open>What can be read from an \<open>io.Reader\<close>: its data, and the error it ends with unless it is \<open>io.EOF\<close>.\<close>

type_synonym reader = "bytes \<times> go_error option"

record ClientRepoFormat =
  crf_NbfVersion :: string
  crf_NbsVersion :: string

record RepoMetadata =
  rmd_NbfVersion :: string
  rmd_NbsVersion :: string
  StorageSize :: "64 word"

record TableFileInfo =
  tfi_FileID :: string
  tfi_NumChunks :: "32 word"
  tfi_URL :: string
  tfi_SplitOffset :: "64 word"
  tfi_RefreshAfter :: "Time option"

record 'w ChunkStoreClient =
  cl_GetRepoMetadata :: "RepoID \<Rightarrow> string \<Rightarrow> ClientRepoFormat \<Rightarrow> 'w \<Rightarrow> RepoMetadata result \<times> 'w"
  cl_HasChunks :: "string \<Rightarrow> bytes list \<Rightarrow> 'w \<Rightarrow> int32 list result \<times> 'w"
  cl_Root :: "string \<Rightarrow> 'w \<Rightarrow> bytes result \<times> 'w"
  cl_ListTableFiles :: "RepoID \<Rightarrow> string \<Rightarrow> string \<Rightarrow> 'w \<Rightarrow> (bytes \<times> TableFileInfo list \<times> TableFileInfo list) result \<times> 'w"
  cl_RefreshTableFileURL :: "RepoID \<Rightarrow> string \<Rightarrow> string \<Rightarrow> 'w \<Rightarrow> (string \<times> Time option) result \<times> 'w"

record 'w DownloaderClient =
  dl_DownloadFile :: "string \<Rightarrow> 'w \<Rightarrow> (reader \<times> 64 word) result \<times> 'w"
  dl_DownloadChunks :: "string list \<Rightarrow> 'w \<Rightarrow> (string \<times> bytes) list \<times> go_error option \<times> 'w"

record 'w Provider =
  prov_ID :: string
  prov_ChunkStore :: "'w ChunkStoreClient"
  prov_Downloader :: "'w DownloaderClient"

text \<open>What the methods of a \<open>chunks.Chunk\<close> and of an \<open>nbs.ToChunker\<close> return.\<close>

record Chunk =
  chk_Hash :: Hash
  chk_Data :: bytes

record ToChunker =
  tc_Hash :: Hash
  tc_IsEmpty :: bool
  tc_ToChunk :: "Chunk result"

text \<open>Functions of Dolt and of the cache package; a conversion that panics returns \<open>None\<close>.\<close>

record ('q, 'h) chunk_lib =
  lib_Parse :: "string \<Rightarrow> Hash option"
  lib_String :: "Hash \<Rightarrow> string"
  lib_New :: "bytes \<Rightarrow> Hash option"
  lib_NewCompressedChunk :: "Hash \<Rightarrow> bytes \<Rightarrow> ToChunker result"
  lib_HashSetToSlices :: "HashSet \<Rightarrow> Hash list \<times> bytes list"
  lib_StorageVersion :: string
  lib_ArchiveFileSuffix :: string
  lib_New2Q_chunks :: "int \<Rightarrow> 'q result"
  lib_chunks_Add :: "'q \<Rightarrow> Hash \<Rightarrow> ToChunker \<Rightarrow> 'q"
  lib_chunks_Get :: "'q \<Rightarrow> Hash \<Rightarrow> ToChunker option \<times> 'q"
  lib_New2Q_has :: "int \<Rightarrow> 'h result"
  lib_has_Add :: "'h \<Rightarrow> Hash \<Rightarrow> 'h"
  lib_has_Contains :: "'h \<Rightarrow> Hash \<Rightarrow> bool"
  lib_it :: "HashSet \<Rightarrow> HashSet"

section \<open>The cache\<close>

record ('q, 'h) mapChunkCache =
  cc_chunks :: 'q
  cc_has :: 'h

definition defaultCacheChunkCapacity :: int where
  "defaultCacheChunkCapacity = 32 * 1024"

definition defaultCacheHasCapacity :: int where
  "defaultCacheHasCapacity = 1024 * 1024"

definition NewMapChunkCacheWithCapacity :: "('q, 'h) chunk_lib \<Rightarrow> int \<Rightarrow> int \<Rightarrow> ('q, 'h) mapChunkCache result" where
  "NewMapChunkCacheWithCapacity L maxChunkCapacity maxHasCapacity =
     (case lib_New2Q_chunks L maxChunkCapacity of
        Inl err \<Rightarrow> Inl (ErrPanic (error_text err))
      | Inr chunks \<Rightarrow>
          (case lib_New2Q_has L maxHasCapacity of
             Inl err \<Rightarrow> Inl (ErrPanic (error_text err))
           | Inr has \<Rightarrow> Inr \<lparr>cc_chunks = chunks, cc_has = has\<rparr>))"

definition newMapChunkCache :: "('q, 'h) chunk_lib \<Rightarrow> ('q, 'h) mapChunkCache result" where
  "newMapChunkCache L = NewMapChunkCacheWithCapacity L defaultCacheChunkCapacity defaultCacheHasCapacity"

definition InsertChunks :: "('q, 'h) chunk_lib \<Rightarrow> ToChunker list \<Rightarrow> ('q, 'h) mapChunkCache \<Rightarrow> ('q, 'h) mapChunkCache" where
  "InsertChunks L cs cache = cache\<lparr>cc_chunks := foldl (\<lambda>q c. lib_chunks_Add L q (tc_Hash c) c) (cc_chunks cache) cs\<rparr>"

fun get_cached :: "('q, 'h) chunk_lib \<Rightarrow> Hash list \<Rightarrow> 'q \<Rightarrow> (Hash \<times> ToChunker) list \<Rightarrow> (Hash \<times> ToChunker) list \<times> 'q" where
  "get_cached L [] q ret = (ret, q)"
| "get_cached L (h # hs) q ret =
     (case lib_chunks_Get L q h of
        (None, q') \<Rightarrow> get_cached L hs q' ret
      | (Some c, q') \<Rightarrow> get_cached L hs q' (AList.update h c ret))"

definition GetCachedChunks ::
  "('q, 'h) chunk_lib \<Rightarrow> HashSet \<Rightarrow> ('q, 'h) mapChunkCache \<Rightarrow> (Hash \<times> ToChunker) list \<times> ('q, 'h) mapChunkCache" where
  "GetCachedChunks L hs cache =
     (case get_cached L (lib_it L hs) (cc_chunks cache) [] of (ret, q) \<Rightarrow> (ret, cache\<lparr>cc_chunks := q\<rparr>))"

definition InsertHas :: "('q, 'h) chunk_lib \<Rightarrow> HashSet \<Rightarrow> ('q, 'h) mapChunkCache \<Rightarrow> ('q, 'h) mapChunkCache" where
  "InsertHas L hs cache = cache\<lparr>cc_has := foldl (lib_has_Add L) (cc_has cache) (lib_it L hs)\<rparr>"

definition GetCachedHas :: "('q, 'h) chunk_lib \<Rightarrow> HashSet \<Rightarrow> ('q, 'h) mapChunkCache \<Rightarrow> HashSet" where
  "GetCachedHas L hs cache = filter (\<lambda>h. \<not> lib_has_Contains L (cc_has cache) h) (lib_it L hs)"

section \<open>The store\<close>

text \<open>The state that calls change: the world of the provider, and the cache of the process.\<close>

record ('w, 'q, 'h) net =
  net_world :: 'w
  net_cache :: "('q, 'h) mapChunkCache"

record 'w RemoteChunkStore =
  rcs_repo :: RepoID
  rcs_repoPath :: string
  chunkClient :: "'w ChunkStoreClient"
  downloader :: "'w DownloaderClient"
  nbfVersion :: string
  repoSize :: "64 word"
  rcs_root :: Hash

definition maxHasManyBatchSize :: int where
  "maxHasManyBatchSize = 16 * 1024"

definition repoPath :: "RepoID \<Rightarrow> string" where
  "repoPath r = (if Org r \<noteq> '''' then Org r @ ''/'' @ RepoName r else RepoName r)"

definition loadRoot :: "('q, 'h) chunk_lib \<Rightarrow> 'w RemoteChunkStore \<Rightarrow> 'w \<Rightarrow> 'w RemoteChunkStore result \<times> 'w" where
  "loadRoot L rcs w =
     (case cl_Root (chunkClient rcs) (rcs_repoPath rcs) w of
        (Inl err, w') \<Rightarrow> (Inl err, w')
      | (Inr rootHash, w') \<Rightarrow>
          (case lib_New L rootHash of
             None \<Rightarrow> (Inl (ErrPanic ''invalid hash''), w')
           | Some h \<Rightarrow> (Inr (rcs\<lparr>rcs_root := h\<rparr>), w')))"

definition NewRemoteChunkStore ::
  "('q, 'h) chunk_lib \<Rightarrow> 'w Provider option \<Rightarrow> RepoID \<Rightarrow> string \<Rightarrow> 'w \<Rightarrow> 'w RemoteChunkStore result \<times> 'w" where
  "NewRemoteChunkStore L provider repo nbf w =
     (case provider of
        None \<Rightarrow> (Inl (ErrText ''provider is nil''), w)
      | Some p \<Rightarrow>
          if RepoName repo = '''' then (Inl (ErrText ''repo name is empty''), w)
          else
            (let rcs = \<lparr>rcs_repo = repo, rcs_repoPath = repoPath repo, chunkClient = prov_ChunkStore p,
                        downloader = prov_Downloader p, nbfVersion = nbf, repoSize = 0, rcs_root = ''''\<rparr>
             in case cl_GetRepoMetadata (chunkClient rcs) (rcs_repo rcs) (rcs_repoPath rcs)
                    \<lparr>crf_NbfVersion = nbf, crf_NbsVersion = lib_StorageVersion L\<rparr> w of
                  (Inl err, w') \<Rightarrow> (Inl err, w')
                | (Inr meta, w') \<Rightarrow> loadRoot L (rcs\<lparr>repoSize := StorageSize meta\<rparr>) w'))"

definition RCS_Rebase :: "('q, 'h) chunk_lib \<Rightarrow> 'w RemoteChunkStore \<Rightarrow> 'w \<Rightarrow> 'w RemoteChunkStore result \<times> 'w" where
  "RCS_Rebase L rcs w = loadRoot L rcs w"

definition RCS_Root :: "'w RemoteChunkStore \<Rightarrow> Hash result" where
  "RCS_Root rcs = Inr (rcs_root rcs)"

definition RCS_Size :: "'w RemoteChunkStore \<Rightarrow> 64 word result" where
  "RCS_Size rcs = Inr (repoSize rcs)"

definition RCS_Version :: "'w RemoteChunkStore \<Rightarrow> string" where
  "RCS_Version rcs = nbfVersion rcs"

text \<open>The operations that write fail without reaching the provider.\<close>

definition RCS_Put :: "'w RemoteChunkStore \<Rightarrow> Chunk \<Rightarrow> unit result" where
  "RCS_Put rcs c = Inl (ErrText ''remote chunk store is read-only'')"

definition RCS_Commit :: "'w RemoteChunkStore \<Rightarrow> Hash \<Rightarrow> Hash \<Rightarrow> bool \<times> go_error option" where
  "RCS_Commit rcs current lst = (False, Some (ErrText ''remote chunk store is read-only''))"

definition RCS_PersistGhostHashes :: "'w RemoteChunkStore \<Rightarrow> HashSet \<Rightarrow> unit result" where
  "RCS_PersistGhostHashes rcs refs = Inl (ErrText ''not supported'')"

definition RCS_WriteTableFile :: "'w RemoteChunkStore \<Rightarrow> string \<Rightarrow> unit result" where
  "RCS_WriteTableFile rcs fileId = Inl (ErrText ''remote chunk store is read-only'')"

definition RCS_AddTableFilesToManifest :: "'w RemoteChunkStore \<Rightarrow> (string \<times> int) list \<Rightarrow> unit result" where
  "RCS_AddTableFilesToManifest rcs fileIdToNumChunks = Inl (ErrText ''remote chunk store is read-only'')"

definition RCS_PruneTableFiles :: "'w RemoteChunkStore \<Rightarrow> unit result" where
  "RCS_PruneTableFiles rcs = Inl (ErrText ''remote chunk store is read-only'')"

record TableFileStoreOps =
  CanRead :: bool
  CanWrite :: bool
  CanPrune :: bool
  CanGC :: bool

definition RCS_SupportedOperations :: "'w RemoteChunkStore \<Rightarrow> TableFileStoreOps" where
  "RCS_SupportedOperations rcs = \<lparr>CanRead = True, CanWrite = False, CanPrune = False, CanGC = False\<rparr>"

subsection \<open>Reading chunks\<close>

text \<open>
  The callback of \<open>downloadChunksAndCache\<close>, and the calls that the download makes to it. The
  result is the list of chunks passed to \<open>found\<close> and the error, if any.
\<close>

definition on_chunk ::
  "('q, 'h) chunk_lib \<Rightarrow> Hash list \<Rightarrow> string \<Rightarrow> bytes \<Rightarrow> ('q, 'h) mapChunkCache \<Rightarrow>
   ToChunker list result \<times> ('q, 'h) mapChunkCache" where
  "on_chunk L toSend hashStr compressed cache =
     (if compressed = [] then (Inr [], cache)
      else case lib_Parse L hashStr of
        None \<Rightarrow> (Inl (ErrPanic ''invalid hash''), cache)
      | Some h \<Rightarrow>
          (case lib_NewCompressedChunk L h compressed of
             Inl err \<Rightarrow> (Inl (ErrWrap (''create compressed chunk '' @ hashStr) err), cache)
           | Inr cc \<Rightarrow>
               (Inr (if h \<in> set toSend then [cc] else []), InsertChunks L [cc] cache)))"

fun run_download ::
  "('q, 'h) chunk_lib \<Rightarrow> Hash list \<Rightarrow> (string \<times> bytes) list \<Rightarrow> ('q, 'h) mapChunkCache \<Rightarrow>
   ToChunker list \<times> go_error option \<times> ('q, 'h) mapChunkCache" where
  "run_download L toSend [] cache = ([], None, cache)"
| "run_download L toSend ((hashStr, compressed) # calls) cache =
     (case on_chunk L toSend hashStr compressed cache of
        (Inl err, cache') \<Rightarrow> ([], Some err, cache')
      | (Inr cs, cache') \<Rightarrow>
          (case run_download L toSend calls cache' of (cs', e, cache'') \<Rightarrow> (cs @ cs', e, cache'')))"

definition downloadChunksAndCache ::
  "('q, 'h) chunk_lib \<Rightarrow> 'w RemoteChunkStore \<Rightarrow> Hash list \<Rightarrow> ('w, 'q, 'h) net \<Rightarrow>
   ToChunker list \<times> go_error option \<times> ('w, 'q, 'h) net" where
  "downloadChunksAndCache L rcs notCached s =
     (let hashesToDownload = map (lib_String L) notCached
      in case dl_DownloadChunks (downloader rcs) hashesToDownload (net_world s) of
           (calls, err, w) \<Rightarrow>
             (case run_download L notCached calls (net_cache s) of
                (cs, cbErr, cache) \<Rightarrow>
                  (cs, case cbErr of Some e \<Rightarrow> Some e | None \<Rightarrow> err, s\<lparr>net_world := w, net_cache := cache\<rparr>)))"

definition cached_usable :: "(Hash \<times> ToChunker) list \<Rightarrow> Hash \<Rightarrow> ToChunker option" where
  "cached_usable hashToChunk h =
     (case map_of hashToChunk h of
        None \<Rightarrow> None
      | Some c \<Rightarrow> if tc_IsEmpty c then None else Some c)"

definition GetManyCompressed ::
  "('q, 'h) chunk_lib \<Rightarrow> 'w RemoteChunkStore \<Rightarrow> HashSet \<Rightarrow> ('w, 'q, 'h) net \<Rightarrow>
   ToChunker list \<times> go_error option \<times> ('w, 'q, 'h) net" where
  "GetManyCompressed L rcs hashes s =
     (case GetCachedChunks L hashes (net_cache s) of
        (hashToChunk, cache) \<Rightarrow>
          (let s' = s\<lparr>net_cache := cache\<rparr>;
               ordered = lib_it L hashes;
               fromCache = List.map_filter (cached_usable hashToChunk) ordered;
               notCached = filter (\<lambda>h. cached_usable hashToChunk h = None) ordered
           in if notCached = [] then (fromCache, None, s')
              else case downloadChunksAndCache L rcs notCached s' of
                (cs, err, s'') \<Rightarrow> (fromCache @ cs, err, s'')))"

text \<open>The callback of \<open>GetMany\<close>: after the first chunk that cannot be decoded it does nothing.\<close>

fun decode_found :: "ToChunker list \<Rightarrow> Chunk list \<times> go_error option" where
  "decode_found [] = ([], None)"
| "decode_found (cc # ccs) =
     (case tc_ToChunk cc of
        Inl err \<Rightarrow> ([], Some err)
      | Inr c \<Rightarrow> (case decode_found ccs of (cs, e) \<Rightarrow> (c # cs, e)))"

definition GetMany ::
  "('q, 'h) chunk_lib \<Rightarrow> 'w RemoteChunkStore \<Rightarrow> HashSet \<Rightarrow> ('w, 'q, 'h) net \<Rightarrow>
   Chunk list \<times> go_error option \<times> ('w, 'q, 'h) net" where
  "GetMany L rcs hashes s =
     (case GetManyCompressed L rcs hashes s of
        (ccs, err, s') \<Rightarrow>
          (case decode_found ccs of
             (cs, ae) \<Rightarrow> (cs, case err of Some e \<Rightarrow> Some e | None \<Rightarrow> ae, s')))"

definition EmptyChunk :: Chunk where
  "EmptyChunk = \<lparr>chk_Hash = '''', chk_Data = ''''\<rparr>"

definition RCS_Get ::
  "('q, 'h) chunk_lib \<Rightarrow> 'w RemoteChunkStore \<Rightarrow> Hash \<Rightarrow> ('w, 'q, 'h) net \<Rightarrow> Chunk result \<times> ('w, 'q, 'h) net" where
  "RCS_Get L rcs h s =
     (case GetMany L rcs [h] s of
        (cs, Some err, s') \<Rightarrow> (Inl err, s')
      | (cs, None, s') \<Rightarrow> (Inr (if cs = [] then EmptyChunk else last cs), s'))"

subsection \<open>Presence of chunks\<close>

text \<open>
  \<open>batchItr\<close>: the callback gets the bounds and the state, and says whether to stop. The loop
  over the hashes of a batch compares the position with the next absent index.
\<close>

function batch_loop :: "nat \<Rightarrow> nat \<Rightarrow> nat \<Rightarrow> (nat \<Rightarrow> nat \<Rightarrow> 's \<Rightarrow> bool \<times> 's) \<Rightarrow> 's \<Rightarrow> 's" where
  "batch_loop tot batchSize st cb s =
     (if st < tot \<and> 0 < batchSize
      then case cb st (min (st + batchSize) tot) s of
             (True, s') \<Rightarrow> s'
           | (False, s') \<Rightarrow> batch_loop tot batchSize (st + batchSize) cb s'
      else s)"
  by pat_completeness auto
termination
  by (relation "measure (\<lambda>(tot, batchSize, st, cb, s). tot - st)") auto

declare batch_loop.simps [simp del]

definition batchItr :: "nat \<Rightarrow> int \<Rightarrow> (nat \<Rightarrow> nat \<Rightarrow> 's \<Rightarrow> bool \<times> 's) \<Rightarrow> 's \<Rightarrow> 's" where
  "batchItr tot batchSize cb s = batch_loop tot (if batchSize \<le> 0 then tot else nat batchSize) 0 cb s"

definition index_less :: "int32 \<Rightarrow> int32 \<Rightarrow> bool" where
  "index_less a b \<longleftrightarrow> sint a < sint b"

fun scan_absent :: "int \<Rightarrow> Hash list \<Rightarrow> int32 list \<Rightarrow> Hash list \<times> Hash list" where
  "scan_absent i [] js = ([], [])"
| "scan_absent i (currHash # hs) js =
     (let nextAbsent = (case js of [] \<Rightarrow> - 1 | j # _ \<Rightarrow> sint j)
      in if i = nextAbsent
         then (case scan_absent (i + 1) hs (tl js) of (absent, found) \<Rightarrow> (currHash # absent, found))
         else (case scan_absent (i + 1) hs js of (absent, found) \<Rightarrow> (absent, currHash # found)))"

definition has_batch ::
  "'w RemoteChunkStore \<Rightarrow> Hash list \<Rightarrow> bytes list \<Rightarrow> nat \<Rightarrow> nat \<Rightarrow>
   HashSet \<times> HashSet \<times> go_error option \<times> 'w \<Rightarrow> bool \<times> HashSet \<times> HashSet \<times> go_error option \<times> 'w" where
  "has_batch rcs hashSl byteSl st end' acc =
     (case acc of (absent, found, err, w) \<Rightarrow>
        (case cl_HasChunks (chunkClient rcs) (rcs_repoPath rcs) (take (end' - st) (drop st byteSl)) w of
           (Inl e, w') \<Rightarrow> (True, absent, found, Some e, w')
         | (Inr absentIndices, w') \<Rightarrow>
             (case scan_absent 0 (take (end' - st) (drop st hashSl)) (sort_slice index_less absentIndices) of
                (a, f) \<Rightarrow> (False, foldl (\<lambda>m h. List.insert h m) absent a, foldl (\<lambda>m h. List.insert h m) found f, None, w'))))"

definition HasMany ::
  "('q, 'h) chunk_lib \<Rightarrow> 'w RemoteChunkStore \<Rightarrow> HashSet \<Rightarrow> ('w, 'q, 'h) net \<Rightarrow> HashSet result \<times> ('w, 'q, 'h) net" where
  "HasMany L rcs hashes s =
     (let notCached = GetCachedHas L hashes (net_cache s)
      in if notCached = [] then (Inr notCached, s)
         else case lib_HashSetToSlices L notCached of
           (hashSl, byteSl) \<Rightarrow>
             (case batchItr (length hashSl) maxHasManyBatchSize (has_batch rcs hashSl byteSl) ([], [], None, net_world s) of
                (absent, found, Some err, w) \<Rightarrow> (Inl err, s\<lparr>net_world := w\<rparr>)
              | (absent, found, None, w) \<Rightarrow>
                  (Inr absent, s\<lparr>net_world := w,
                     net_cache := (if found \<noteq> [] then InsertHas L found (net_cache s) else net_cache s)\<rparr>)))"

definition RCS_Has ::
  "('q, 'h) chunk_lib \<Rightarrow> 'w RemoteChunkStore \<Rightarrow> Hash \<Rightarrow> ('w, 'q, 'h) net \<Rightarrow> bool result \<times> ('w, 'q, 'h) net" where
  "RCS_Has L rcs h s =
     (case HasMany L rcs [h] s of
        (Inl err, s') \<Rightarrow> (Inl err, s')
      | (Inr absent, s') \<Rightarrow> (Inr (absent = []), s'))"

section \<open>Table files\<close>

text \<open>
  \<open>net/url.Parse\<close> on a relative reference of unreserved characters and slashes: its path is the
  text itself. The other texts are outside the model, and treated like those that cannot be parsed.
\<close>

definition url_ref_path :: "string \<Rightarrow> string option" where
  "url_ref_path s = (if list_all (\<lambda>c. url_safe c \<or> c = CHR ''/'') s \<and> take 2 s \<noteq> ''//'' then Some s else None)"

text \<open>\<open>path.Base\<close>\<close>

definition path_Base :: "string \<Rightarrow> string" where
  "path_Base p =
     (if p = '''' then ''.''
      else let stripped = rev (dropWhile (\<lambda>c. c = CHR ''/'') (rev p));
               base = rev (takeWhile (\<lambda>c. c \<noteq> CHR ''/'') (rev stripped))
           in if base = '''' then ''/'' else base)"

record 'w RemoteTableFile =
  rtf_downloader :: "'w DownloaderClient"
  rtf_chunkClient :: "'w ChunkStoreClient"
  rtf_info :: TableFileInfo

definition rtf_LocationPrefix :: "'w RemoteTableFile \<Rightarrow> string" where
  "rtf_LocationPrefix rtf = ''''"

definition rtf_LocationSuffix :: "('q, 'h) chunk_lib \<Rightarrow> 'w RemoteTableFile \<Rightarrow> string" where
  "rtf_LocationSuffix L rtf =
     (case url_ref_path (tfi_URL (rtf_info rtf)) of
        Some p \<Rightarrow> if has_suffix p (lib_ArchiveFileSuffix L) then lib_ArchiveFileSuffix L else ''''
      | None \<Rightarrow> '''')"

definition rtf_FileID :: "'w RemoteTableFile \<Rightarrow> string" where
  "rtf_FileID rtf = tfi_FileID (rtf_info rtf)"

definition rtf_NumChunks :: "'w RemoteTableFile \<Rightarrow> int" where
  "rtf_NumChunks rtf = uint (tfi_NumChunks (rtf_info rtf))"

definition rtf_SplitOffset :: "'w RemoteTableFile \<Rightarrow> 64 word" where
  "rtf_SplitOffset rtf = tfi_SplitOffset (rtf_info rtf)"

definition rtf_id :: "'w RemoteTableFile \<Rightarrow> string" where
  "rtf_id rtf =
     (case url_ref_path (tfi_URL (rtf_info rtf)) of
        None \<Rightarrow> tfi_FileID (rtf_info rtf)
      | Some p \<Rightarrow>
          (let base = path_Base p in
           if base \<noteq> '''' \<and> base \<noteq> ''.'' \<and> base \<noteq> ''/'' then base else tfi_FileID (rtf_info rtf)))"

definition rtf_Open :: "'w RemoteTableFile \<Rightarrow> 'w \<Rightarrow> (reader \<times> 64 word) result \<times> 'w" where
  "rtf_Open rtf w =
     (case dl_DownloadFile (rtf_downloader rtf) (rtf_id rtf) w of
        (Inl err, w') \<Rightarrow> (Inl (ErrWrap ''download file'' err), w')
      | (Inr r, w') \<Rightarrow> (Inr r, w'))"

definition getTableFiles :: "'w DownloaderClient \<Rightarrow> 'w ChunkStoreClient \<Rightarrow> TableFileInfo list \<Rightarrow> 'w RemoteTableFile list" where
  "getTableFiles dl cl infoList = map (\<lambda>nfo. \<lparr>rtf_downloader = dl, rtf_chunkClient = cl, rtf_info = nfo\<rparr>) infoList"

definition RCS_Sources ::
  "('q, 'h) chunk_lib \<Rightarrow> 'w RemoteChunkStore \<Rightarrow> 'w \<Rightarrow>
   (Hash \<times> 'w RemoteTableFile list \<times> 'w RemoteTableFile list) result \<times> 'w" where
  "RCS_Sources L rcs w =
     (case cl_ListTableFiles (chunkClient rcs) (rcs_repo rcs) (rcs_repoPath rcs) '''' w of
        (Inl err, w') \<Rightarrow> (Inl err, w')
      | (Inr (rootHash, tables, appendix), w') \<Rightarrow>
          (let sourceFiles = getTableFiles (downloader rcs) (chunkClient rcs) tables;
               appendixFiles = getTableFiles (downloader rcs) (chunkClient rcs) appendix
           in case lib_New L rootHash of
                None \<Rightarrow> (Inl (ErrPanic ''invalid hash''), w')
              | Some h \<Rightarrow> (Inr (h, sourceFiles, appendixFiles), w')))"

section \<open>The factory\<close>

text \<open>
  \<open>pick\<close> is the method of the registered picker. The value store and the node store that Dolt
  wraps around the chunk store are represented by the chunk store.
\<close>

definition PrepareDB :: "URL \<Rightarrow> unit result" where
  "PrepareDB urlObj = Inl (ErrText ''swarm dbfactory is read-only'')"

definition CreateDB ::
  "('q, 'h) chunk_lib \<Rightarrow> (picker \<Rightarrow> RepoID \<Rightarrow> 'w \<Rightarrow> 'w Provider result \<times> 'w) \<Rightarrow> registry \<Rightarrow> string \<Rightarrow> URL \<Rightarrow> 'w \<Rightarrow>
   'w RemoteChunkStore result \<times> 'w" where
  "CreateDB L pick reg nbf urlObj w =
     (let repo = parseSwarmRepoID urlObj in
      if RepoName repo = '''' then (Inl (ErrText ''swarm url missing repo name''), w)
      else case getSwarmProviderPicker reg repo of
        None \<Rightarrow> (Inl (ErrText (''no swarm ProviderPicker registered for repo '' @ RepoName repo)), w)
      | Some picker \<Rightarrow>
          (case pick picker repo w of
             (Inl err, w') \<Rightarrow> (Inl (ErrWrap ''pick provider'' err), w')
           | (Inr provider, w') \<Rightarrow> NewRemoteChunkStore L (Some provider) repo nbf w'))"

section \<open>Laws of the libraries\<close>

text \<open>
  \<open>Q\<close> and \<open>H\<close> are the contents of the two caches. Adding may evict, and a lookup returns what
  is in the cache. A compressed chunk has the hash it is created with, the text of a hash is
  parsed back, and the two slices of a set list its hashes and their bytes in the same order.
\<close>

definition lru_laws :: "('q, 'h) chunk_lib \<Rightarrow> ('q \<Rightarrow> Hash \<rightharpoonup> ToChunker) \<Rightarrow> ('h \<Rightarrow> Hash set) \<Rightarrow> bool" where
  "lru_laws L Q H \<longleftrightarrow>
     (\<forall>q h c. Q (lib_chunks_Add L q h c) \<subseteq>\<^sub>m (Q q)(h \<mapsto> c)) \<and>
     (\<forall>q h. fst (lib_chunks_Get L q h) = Q q h \<and> Q (snd (lib_chunks_Get L q h)) \<subseteq>\<^sub>m Q q) \<and>
     (\<forall>q h. H (lib_has_Add L q h) \<subseteq> insert h (H q)) \<and>
     (\<forall>q h. lib_has_Contains L q h \<longleftrightarrow> h \<in> H q)"

definition hash_laws :: "('q, 'h) chunk_lib \<Rightarrow> bool" where
  "hash_laws L \<longleftrightarrow> range_ok (lib_it L) \<and>
     (\<forall>hs. mset (fst (lib_HashSetToSlices L hs)) = mset hs \<and>
        snd (lib_HashSetToSlices L hs) = fst (lib_HashSetToSlices L hs)) \<and>
     (\<forall>h. lib_Parse L (lib_String L h) = Some h) \<and>
     (\<forall>h b cc. lib_NewCompressedChunk L h b = Inr cc \<longrightarrow> tc_Hash cc = h)"

section \<open>Presence is exact\<close>

lemma batch_loop_rule:
  assumes "\<And>st s. P st s \<Longrightarrow> st < tot \<Longrightarrow> \<exists>s'. cb st (min (st + b) tot) s = (False, s') \<and> P (min (st + b) tot) s'"
    and "0 < b" "P st s" "st \<le> tot"
  shows "P tot (batch_loop tot b st cb s)"
  using assms(3,4)
proof (induction "tot - st" arbitrary: st s rule: less_induct)
  case less
  show ?case
  proof (cases "st < tot")
    case True
    then obtain s' where s': "cb st (min (st + b) tot) s = (False, s')" "P (min (st + b) tot) s'"
      using assms(1) less.prems by blast
    show ?thesis
    proof (cases "st + b \<le> tot")
      case le: True
      then have "P tot (batch_loop tot b (st + b) cb s')"
        using less.hyps [of "st + b"] True assms(2) s'(2) by (simp add: min_def)
      then show ?thesis using True assms(2) s'(1) by (simp add: batch_loop.simps [of tot b st])
    next
      case False
      then have "batch_loop tot b (st + b) cb s' = s'" by (simp add: batch_loop.simps)
      with False show ?thesis using True assms(2) s' by (simp add: batch_loop.simps [of tot b st] min_def)
    qed
  next
    case False
    then show ?thesis using less.prems by (subst batch_loop.simps) simp
  qed
qed

interpretation index: slice_order index_less
  by unfold_locales (auto simp: index_less_def)

lemma scan_absent_exact:
  assumes "sorted_wrt index_less js" "sint ` set js = {i + int k | k. k < length hs \<and> hs ! k \<notin> S}" "0 \<le> i"
  shows "scan_absent i hs js = (filter (\<lambda>h. h \<notin> S) hs, filter (\<lambda>h. h \<in> S) hs)"
  using assms
proof (induction hs arbitrary: i js)
  case Nil
  then show ?case by simp
next
  case (Cons h hs)
  have split: "{i + int k | k. k < length (h # hs) \<and> (h # hs) ! k \<notin> S} =
      (if h \<notin> S then {i} else {}) \<union> {i + 1 + int k | k. k < length hs \<and> hs ! k \<notin> S}" (is "?A = ?B")
  proof
    show "?A \<subseteq> ?B"
    proof
      fix x assume "x \<in> ?A"
      then obtain k where k: "x = i + int k" "k < length (h # hs)" "(h # hs) ! k \<notin> S" by blast
      then show "x \<in> ?B" by (cases k) auto
    qed
    show "?B \<subseteq> ?A"
    proof
      fix x assume "x \<in> ?B"
      then consider "h \<notin> S" "x = i" | k where "x = i + 1 + int k" "k < length hs" "hs ! k \<notin> S" by (auto split: if_splits)
      then show "x \<in> ?A"
      proof cases
        case 1
        then show ?thesis by (intro CollectI exI [of _ "0::nat"]) simp
      next
        case 2
        then show ?thesis by (intro CollectI exI [of _ "Suc k"]) simp
      qed
    qed
  qed
  show ?case
  proof (cases "h \<in> S")
    case True
    then have js: "sint ` set js = {i + 1 + int k | k. k < length hs \<and> hs ! k \<notin> S}" using Cons.prems(2) split by simp
    then have "i \<notin> sint ` set js" by auto
    then have "(case js of [] \<Rightarrow> - 1 | j # _ \<Rightarrow> sint j) \<noteq> i" using Cons.prems(3) by (cases js) auto
    then show ?thesis using Cons.IH [OF Cons.prems(1) js] Cons.prems(3) True by simp
  next
    case False
    then have mem: "sint ` set js = insert i {i + 1 + int k | k. k < length hs \<and> hs ! k \<notin> S}" using Cons.prems(2) split by simp
    then obtain j js' where js: "js = j # js'" by (cases js) auto
    have lt: "sint j < sint x" if "x \<in> set js'" for x using Cons.prems(1) js that by (simp add: index_less_def)
    have "sint j = i"
    proof (rule ccontr)
      assume ne: "sint j \<noteq> i"
      then have "sint j \<in> {i + 1 + int k | k. k < length hs \<and> hs ! k \<notin> S}" using mem js by auto
      then have "i < sint j" by auto
      moreover obtain x where "x \<in> set js" "sint x = i" using mem by (metis (no_types, lifting) imageE insertI1)
      ultimately show False using lt js ne by fastforce
    qed
    moreover have "sint ` set js' = {i + 1 + int k | k. k < length hs \<and> hs ! k \<notin> S}"
    proof -
      have "i \<notin> sint ` set js'" using lt \<open>sint j = i\<close> by fastforce
      moreover have "i \<notin> {i + 1 + int k | k. k < length hs \<and> hs ! k \<notin> S}" by auto
      ultimately show ?thesis using mem js \<open>sint j = i\<close> by (metis (no_types, lifting) image_insert insert_ident list.simps(15))
    qed
    ultimately show ?thesis using Cons.IH [of js' "i + 1"] Cons.prems(1,3) False js by simp
  qed
qed

text \<open>
  A client that answers for the set \<open>S\<close> of chunks of a store: the indices of the absent hashes. It
  need do so only for hashes in a set \<open>D\<close>.
\<close>

definition honest_has :: "'w ChunkStoreClient \<Rightarrow> string \<Rightarrow> Hash set \<Rightarrow> Hash set \<Rightarrow> bool" where
  "honest_has cl path D S \<longleftrightarrow> (\<forall>hs w. hs \<noteq> [] \<and> distinct hs \<and> set hs \<subseteq> D \<and> length hs \<le> nat maxHasManyBatchSize \<longrightarrow>
     (\<exists>js w'. cl_HasChunks cl path hs w = (Inr js, w') \<and> distinct js \<and> sint ` set js = {int k | k. k < length hs \<and> hs ! k \<notin> S}))"

lemma set_insert_fold [simp]: "set (foldl (\<lambda>m h. List.insert h m) m hs) = set m \<union> set hs"
  and distinct_insert_fold [simp]: "distinct m \<Longrightarrow> distinct (foldl (\<lambda>m h. List.insert h m) m hs)"
  by (induction hs arbitrary: m) auto

lemma has_batch_exact:
  assumes honest: "honest_has (chunkClient rcs) (rcs_repoPath rcs) D S" and hs: "distinct hashSl" "byteSl = hashSl" "st < length hashSl" "set hashSl \<subseteq> D"
    and b: "0 < b" "b \<le> nat maxHasManyBatchSize" and e: "e = min (st + b) (length hashSl)"
  shows "\<exists>w'. has_batch rcs hashSl byteSl st e (absent, found, None, w) =
    (False, foldl (\<lambda>m h. List.insert h m) absent (filter (\<lambda>h. h \<notin> S) (take (e - st) (drop st hashSl))),
       foldl (\<lambda>m h. List.insert h m) found (filter (\<lambda>h. h \<in> S) (take (e - st) (drop st hashSl))), None, w')"
proof -
  let ?hs = "take (e - st) (drop st hashSl)"
  have "?hs \<noteq> []" "distinct ?hs" "set ?hs \<subseteq> D" "length ?hs \<le> nat maxHasManyBatchSize"
    using hs b e by (auto dest: in_set_takeD in_set_dropD)
  then obtain js w' where js: "cl_HasChunks (chunkClient rcs) (rcs_repoPath rcs) ?hs w = (Inr js, w')" "distinct js"
      "sint ` set js = {int k | k. k < length ?hs \<and> ?hs ! k \<notin> S}"
    using honest [unfolded honest_has_def, rule_format, of ?hs w] by blast
  have "sorted_wrt index_less (sort_slice index_less js)"
    using js(2) by (intro index.sort_slice_strict) (auto simp: comparable_def index_less_def not_less order_le_less)
  then have "scan_absent 0 ?hs (sort_slice index_less js) = (filter (\<lambda>h. h \<notin> S) ?hs, filter (\<lambda>h. h \<in> S) ?hs)"
    using js(3) by (intro scan_absent_exact) simp_all
  then show ?thesis using js(1) hs(2) by (simp add: has_batch_def)
qed

lemma HasMany_batches:
  assumes honest: "honest_has (chunkClient rcs) (rcs_repoPath rcs) D S" and hs: "distinct hashSl" "byteSl = hashSl" "set hashSl \<subseteq> D"
  shows "\<exists>absent found w'. batchItr (length hashSl) maxHasManyBatchSize (has_batch rcs hashSl byteSl) ([], [], None, w) =
    (absent, found, None, w') \<and> distinct absent \<and> set absent = set hashSl - S \<and> set found = set hashSl \<inter> S"
proof -
  let ?b = "nat maxHasManyBatchSize"
  let ?P = "\<lambda>st (absent, found, err, w :: 'a). err = None \<and> distinct absent \<and> set absent = set (take st hashSl) - S \<and>
    set found = set (take st hashSl) \<inter> S"
  have b: "0 < ?b" by (simp add: maxHasManyBatchSize_def)
  have "?P (length hashSl) (batch_loop (length hashSl) ?b 0 (has_batch rcs hashSl byteSl) ([], [], None, w))"
  proof (rule batch_loop_rule [where P = ?P and st = 0])
    fix st and s :: "HashSet \<times> HashSet \<times> go_error option \<times> 'a"
    assume P: "?P st s" and st: "st < length hashSl"
    let ?e = "min (st + ?b) (length hashSl)"
    obtain absent found w1 where s: "s = (absent, found, None, w1)" "distinct absent" "set absent = set (take st hashSl) - S"
        "set found = set (take st hashSl) \<inter> S"
      using P by (cases s) auto
    have "take ?e hashSl = take st hashSl @ take (?e - st) (drop st hashSl)"
      using st by (metis add_diff_inverse_nat min_def not_less not_less_iff_gr_or_eq take_add trans_le_add1)
    then have parts: "set (take ?e hashSl) = set (take st hashSl) \<union> set (take (?e - st) (drop st hashSl))" by simp
    obtain w2 where "has_batch rcs hashSl byteSl st ?e (absent, found, None, w1) =
      (False, foldl (\<lambda>m h. List.insert h m) absent (filter (\<lambda>h. h \<notin> S) (take (?e - st) (drop st hashSl))),
         foldl (\<lambda>m h. List.insert h m) found (filter (\<lambda>h. h \<in> S) (take (?e - st) (drop st hashSl))), None, w2)"
      using has_batch_exact [OF honest hs(1,2) st hs(3) b order_refl refl] by blast
    then show "\<exists>s'. has_batch rcs hashSl byteSl st ?e s = (False, s') \<and> ?P ?e s'"
      using s parts by auto
  qed (use b in auto)
  then show ?thesis by (auto simp: batchItr_def maxHasManyBatchSize_def)
qed

lemma InsertHas_subset:
  assumes "lru_laws L Q H" "range_ok (lib_it L)"
  shows "H (cc_has (InsertHas L hs cache)) \<subseteq> H (cc_has cache) \<union> set hs"
proof -
  have "H (foldl (lib_has_Add L) q xs) \<subseteq> H q \<union> set xs" for q xs
    using assms(1) by (induction xs arbitrary: q) (fastforce simp: lru_laws_def)+
  then show ?thesis using range_ok_set [OF assms(2)] by (fastforce simp: InsertHas_def)
qed

lemma GetCachedHas_set:
  assumes "lru_laws L Q H" "range_ok (lib_it L)"
  shows "set (GetCachedHas L hs cache) = set hs - H (cc_has cache)" "distinct hs \<Longrightarrow> distinct (GetCachedHas L hs cache)"
  using assms by (auto simp: GetCachedHas_def lru_laws_def range_ok_set range_ok_distinct)

text \<open>
  The presence check is exact. Against a provider that answers for the set \<open>S\<close> of its chunks,
  and with a cache that remembers only chunks of \<open>S\<close>, \<open>HasMany\<close> succeeds and returns exactly the
  requested hashes outside \<open>S\<close>, for any number of hashes and batches, any order in which maps
  are ranged over and any eviction; and the cache remembers only chunks of \<open>S\<close> afterwards.
\<close>

lemma HasMany_exact:
  assumes lru: "lru_laws L Q H" and lib: "hash_laws L" and honest: "honest_has (chunkClient rcs) (rcs_repoPath rcs) D S"
    and cache: "H (cc_has (net_cache s)) \<subseteq> S" and hashes: "distinct hashes" "set hashes \<subseteq> D"
  shows "\<exists>absent s'. HasMany L rcs hashes s = (Inr absent, s') \<and> distinct absent \<and> set absent = set hashes - S \<and>
    H (cc_has (net_cache s')) \<subseteq> S"
proof -
  have it: "range_ok (lib_it L)" using lib by (simp add: hash_laws_def)
  let ?n = "GetCachedHas L hashes (net_cache s)"
  note n = GetCachedHas_set [OF lru it, of hashes "net_cache s"]
  obtain hashSl byteSl where sl: "lib_HashSetToSlices L ?n = (hashSl, byteSl)" by (rule prod.exhaust)
  then have slices: "mset hashSl = mset ?n" "byteSl = hashSl" using lib unfolding hash_laws_def by (metis fst_conv snd_conv)+
  then have hs: "distinct hashSl" "set hashSl = set ?n"
    using n(2) [OF hashes(1)] by (metis mset_eq_imp_distinct_iff, metis mset_eq_setD)
  obtain absent found w' where b: "batchItr (length hashSl) maxHasManyBatchSize (has_batch rcs hashSl byteSl) ([], [], None, net_world s) =
      (absent, found, None, w')" "distinct absent" "set absent = set hashSl - S" "set found = set hashSl \<inter> S"
    using HasMany_batches [OF honest hs(1) slices(2)] hs(2) n(1) hashes(2) by blast
  show ?thesis
  proof (cases "?n = []")
    case True
    then show ?thesis using n(1) cache by (auto simp: HasMany_def)
  next
    case False
    let ?s = "s\<lparr>net_world := w', net_cache := (if found \<noteq> [] then InsertHas L found (net_cache s) else net_cache s)\<rparr>"
    have "HasMany L rcs hashes s = (Inr absent, ?s)" using False sl b(1) by (simp add: HasMany_def)
    moreover have "set absent = set hashes - S" using b(3) hs(2) n(1) cache by blast
    moreover have "H (cc_has (net_cache ?s)) \<subseteq> S"
      using InsertHas_subset [OF lru it, of found "net_cache s"] b(4) cache by auto
    ultimately show ?thesis using b(2) by blast
  qed
qed

text \<open>A small instance: caches that never evict, and a store with the single chunk \<open>''a''\<close>.\<close>

definition sample_lib :: "((Hash \<times> ToChunker) list, Hash list) chunk_lib" where
  "sample_lib = \<lparr>lib_Parse = Some, lib_String = id, lib_New = Some,
     lib_NewCompressedChunk = (\<lambda>h b. Inr \<lparr>tc_Hash = h, tc_IsEmpty = False, tc_ToChunk = Inr \<lparr>chk_Hash = h, chk_Data = b\<rparr>\<rparr>),
     lib_HashSetToSlices = (\<lambda>hs. (hs, hs)), lib_StorageVersion = ''1'', lib_ArchiveFileSuffix = ''.darc'',
     lib_New2Q_chunks = (\<lambda>n. Inr []), lib_chunks_Add = (\<lambda>q h c. AList.update h c q), lib_chunks_Get = (\<lambda>q h. (map_of q h, q)),
     lib_New2Q_has = (\<lambda>n. Inr []), lib_has_Add = (\<lambda>q h. List.insert h q), lib_has_Contains = (\<lambda>q h. h \<in> set q), lib_it = (\<lambda>xs. xs)\<rparr>"

lemma sample_lru_laws: "lru_laws sample_lib map_of set"
  by (simp add: lru_laws_def sample_lib_def)

lemma sample_hash_laws: "hash_laws sample_lib"
  by (auto simp: hash_laws_def sample_lib_def range_ok_id)

definition set_client :: "Hash list \<Rightarrow> unit ChunkStoreClient" where
  "set_client S = \<lparr>cl_GetRepoMetadata = (\<lambda>r p f w. (Inr \<lparr>rmd_NbfVersion = ''v'', rmd_NbsVersion = ''1'', StorageSize = 0\<rparr>, w)),
     cl_HasChunks = (\<lambda>p hs w. (Inr (map (\<lambda>k. word_of_nat k) (filter (\<lambda>k. hs ! k \<notin> set S) [0..<length hs])), w)),
     cl_Root = (\<lambda>p w. (Inr ''root'', w)), cl_ListTableFiles = (\<lambda>r p t w. (Inr (''root'', [], []), w)),
     cl_RefreshTableFileURL = (\<lambda>r p f w. (Inl (ErrText ''not supported''), w))\<rparr>"

definition sample_downloader :: "(Hash \<times> bytes) list \<Rightarrow> unit DownloaderClient" where
  "sample_downloader T = \<lparr>dl_DownloadFile = (\<lambda>i w. (Inl (ErrText ''no file''), w)),
     dl_DownloadChunks = (\<lambda>hs w. (List.map_filter (\<lambda>h. map_option (\<lambda>b. (h, b)) (map_of T h)) hs, None, w))\<rparr>"

definition sample_store :: "Hash list \<Rightarrow> unit RemoteChunkStore" where
  "sample_store S = \<lparr>rcs_repo = sample_repo, rcs_repoPath = repoPath sample_repo, chunkClient = set_client S,
     downloader = sample_downloader (map (\<lambda>h. (h, ''data'')) S), nbfVersion = ''v'', repoSize = 0, rcs_root = ''root''\<rparr>"

definition empty_net :: "(unit, (Hash \<times> ToChunker) list, Hash list) net" where
  "empty_net = \<lparr>net_world = (), net_cache = \<lparr>cc_chunks = [], cc_has = []\<rparr>\<rparr>"

lemma sint_index: "k \<le> nat maxHasManyBatchSize \<Longrightarrow> sint (word_of_nat k :: int32) = int k"
  using sint_of_int32 [of "int k"] by (simp add: maxHasManyBatchSize_def)

lemma set_client_honest: "honest_has (set_client S) path UNIV (set S)"
proof -
  have "distinct (map (\<lambda>k. word_of_nat k :: int32) (filter P [0..<n]))" if "n \<le> nat maxHasManyBatchSize" for n P
    using that sint_index by (auto simp: distinct_map intro!: inj_onI) (metis atLeastLessThan_iff less_le_trans less_imp_le of_nat_eq_iff)
  then show ?thesis
    by (auto simp: honest_has_def set_client_def image_iff sint_index)
qed

text \<open>
  The memory of presence is shared between stores. The cache is global to the process and
  is not keyed by provider or repository: once a hash was found at one provider, \<open>HasMany\<close>
  reports it as present at every other, without asking.
\<close>

theorem has_cache_crosses_stores:
  "case HasMany sample_lib (sample_store [''a'']) [''a''] empty_net of (r, s1) \<Rightarrow>
     r = Inr [] \<and> fst (HasMany sample_lib (sample_store []) [''a''] s1) = Inr [] \<and>
     fst (HasMany sample_lib (sample_store []) [''a''] empty_net) = Inr [''a'']"
  by (simp add: HasMany_def GetCachedHas_def InsertHas_def sample_lib_def empty_net_def batchItr_def batch_loop.simps
      maxHasManyBatchSize_def has_batch_def sample_store_def set_client_def)

section \<open>Reading chunks is exact\<close>

text \<open>
  \<open>T\<close> is the content of a store. A download for the hashes \<open>hs\<close> is honest if every call carries a
  requested chunk of \<open>T\<close> (or no data), and every requested chunk of \<open>T\<close> is delivered. A provider need be honest only for
  requests within a set \<open>D\<close>.
\<close>

definition store_ok :: "(Hash \<rightharpoonup> ToChunker) \<Rightarrow> bool" where
  "store_ok T \<longleftrightarrow> (\<forall>h c. T h = Some c \<longrightarrow> tc_Hash c = h \<and> \<not> tc_IsEmpty c)"

definition honest_calls :: "('q, 'h) chunk_lib \<Rightarrow> (Hash \<rightharpoonup> ToChunker) \<Rightarrow> Hash list \<Rightarrow> (string \<times> bytes) list \<Rightarrow> bool" where
  "honest_calls L T hs calls \<longleftrightarrow>
     (\<forall>(x, b) \<in> set calls. b = [] \<or> (\<exists>h \<in> set hs. x = lib_String L h \<and> (\<exists>c. T h = Some c \<and> lib_NewCompressedChunk L h b = Inr c))) \<and>
     (\<forall>h \<in> set hs. T h \<noteq> None \<longrightarrow> (\<exists>b. b \<noteq> [] \<and> (lib_String L h, b) \<in> set calls))"

definition honest_download :: "('q, 'h) chunk_lib \<Rightarrow> 'w DownloaderClient \<Rightarrow> (Hash \<rightharpoonup> ToChunker) \<Rightarrow> Hash set \<Rightarrow> bool" where
  "honest_download L dl T D \<longleftrightarrow> (\<forall>hs w. hs \<noteq> [] \<and> set hs \<subseteq> D \<longrightarrow> (\<exists>calls w'.
     dl_DownloadChunks dl (map (lib_String L) hs) w = (calls, None, w') \<and> honest_calls L T hs calls))"

lemma InsertChunks_le:
  assumes "lru_laws L Q H" "Q (cc_chunks cache) \<subseteq>\<^sub>m T" "T (tc_Hash c) = Some c"
  shows "Q (cc_chunks (InsertChunks L [c] cache)) \<subseteq>\<^sub>m T"
proof -
  have "Q (lib_chunks_Add L (cc_chunks cache) (tc_Hash c) c) \<subseteq>\<^sub>m (Q (cc_chunks cache))(tc_Hash c \<mapsto> c)"
    using assms(1) by (simp add: lru_laws_def)
  moreover have "(Q (cc_chunks cache))(tc_Hash c \<mapsto> c) \<subseteq>\<^sub>m T"
    using assms(2,3) by (auto simp: map_le_def split: if_splits)
  ultimately show ?thesis by (auto simp: InsertChunks_def dest: map_le_trans)
qed

lemma on_chunk_step:
  assumes lru: "lru_laws L Q H" and lib: "hash_laws L" and T: "store_ok T" and q: "Q (cc_chunks cache) \<subseteq>\<^sub>m T"
    and call: "b = [] \<or> (\<exists>h \<in> set hs. x = lib_String L h \<and> (\<exists>c. T h = Some c \<and> lib_NewCompressedChunk L h b = Inr c))"
  shows "\<exists>cs cache'. on_chunk L hs x b cache = (Inr cs, cache') \<and> Q (cc_chunks cache') \<subseteq>\<^sub>m T \<and>
    set cs = {c. b \<noteq> [] \<and> (\<exists>h \<in> set hs. x = lib_String L h \<and> T h = Some c)}"
proof (cases "b = []")
  case True
  then show ?thesis using q by (simp add: on_chunk_def)
next
  case False
  then obtain h c where h: "h \<in> set hs" "x = lib_String L h" "T h = Some c" "lib_NewCompressedChunk L h b = Inr c"
    using call by blast
  have parse: "lib_Parse L (lib_String L h') = Some h'" for h' using lib by (simp add: hash_laws_def)
  have inj: "lib_String L h' = lib_String L h \<Longrightarrow> h' = h" for h' using parse [of h] parse [of h'] by simp
  have "tc_Hash c = h" using T h(3) by (simp add: store_ok_def)
  then have "Q (cc_chunks (InsertChunks L [c] cache)) \<subseteq>\<^sub>m T" using h(3) by (intro InsertChunks_le [OF lru q]) simp
  moreover have "{c'. b \<noteq> [] \<and> (\<exists>h' \<in> set hs. x = lib_String L h' \<and> T h' = Some c')} = {c}"
    using False h inj by (auto dest: sym)
  ultimately show ?thesis using False h parse by (simp add: on_chunk_def)
qed

lemma run_download_exact:
  assumes lru: "lru_laws L Q H" and lib: "hash_laws L" and T: "store_ok T"
  shows "Q (cc_chunks cache) \<subseteq>\<^sub>m T \<Longrightarrow>
    \<forall>(x, b) \<in> set calls. b = [] \<or> (\<exists>h \<in> set hs. x = lib_String L h \<and> (\<exists>c. T h = Some c \<and> lib_NewCompressedChunk L h b = Inr c)) \<Longrightarrow>
    \<exists>cs cache'. run_download L hs calls cache = (cs, None, cache') \<and> Q (cc_chunks cache') \<subseteq>\<^sub>m T \<and>
      set cs = {c. \<exists>(x, b) \<in> set calls. b \<noteq> [] \<and> (\<exists>h \<in> set hs. x = lib_String L h \<and> T h = Some c)}"
proof (induction calls arbitrary: cache)
  case Nil
  then show ?case by simp
next
  case (Cons call calls)
  obtain x b where call: "call = (x, b)" by (rule prod.exhaust)
  have first: "b = [] \<or> (\<exists>h \<in> set hs. x = lib_String L h \<and> (\<exists>c. T h = Some c \<and> lib_NewCompressedChunk L h b = Inr c))"
    using Cons.prems(2) call by simp
  obtain cs cache1 where 1: "on_chunk L hs x b cache = (Inr cs, cache1)" "Q (cc_chunks cache1) \<subseteq>\<^sub>m T"
      "set cs = {c. b \<noteq> [] \<and> (\<exists>h \<in> set hs. x = lib_String L h \<and> T h = Some c)}"
    using on_chunk_step [OF lru lib T Cons.prems(1) first] by blast
  obtain cs' cache2 where 2: "run_download L hs calls cache1 = (cs', None, cache2)" "Q (cc_chunks cache2) \<subseteq>\<^sub>m T"
      "set cs' = {c. \<exists>(x, b) \<in> set calls. b \<noteq> [] \<and> (\<exists>h \<in> set hs. x = lib_String L h \<and> T h = Some c)}"
    using Cons.IH [OF 1(2)] Cons.prems(2) by auto
  then have "set (cs @ cs') = {c. \<exists>(x, b) \<in> set (call # calls). b \<noteq> [] \<and> (\<exists>h \<in> set hs. x = lib_String L h \<and> T h = Some c)}"
    using 1(3) by (auto simp: call)
  with 1 2 show ?case by (simp add: call)
qed

lemma get_cached_exact:
  assumes "lru_laws L Q H"
  shows "Q q \<subseteq>\<^sub>m T \<Longrightarrow> map_of ret \<subseteq>\<^sub>m T \<Longrightarrow> get_cached L hs q ret = (ret', q') \<Longrightarrow>
    Q q' \<subseteq>\<^sub>m T \<and> map_of ret' \<subseteq>\<^sub>m T"
proof (induction hs arbitrary: q ret)
  case Nil
  then show ?case by simp
next
  case (Cons h hs)
  obtain o' q1 where g: "lib_chunks_Get L q h = (o', q1)" by (rule prod.exhaust)
  then have "o' = Q q h" "Q q1 \<subseteq>\<^sub>m Q q" using assms unfolding lru_laws_def by (metis fst_conv, metis snd_conv)
  then have q1: "Q q1 \<subseteq>\<^sub>m T" and o': "\<And>c. o' = Some c \<Longrightarrow> T h = Some c"
    using Cons.prems(1) by (auto simp: map_le_def dest: map_le_trans) (metis domI)+
  show ?case
  proof (cases o')
    case None
    then show ?thesis using Cons.IH [OF q1 Cons.prems(2)] Cons.prems(3) g by simp
  next
    case (Some c)
    have up: "map_of (AList.update h c ret) \<subseteq>\<^sub>m T" using Cons.prems(2) o' [OF Some] by (auto simp: map_le_def)
    show ?thesis by (rule Cons.IH [OF q1 up]) (use Cons.prems(3) g Some in simp)
  qed
qed

text \<open>
  Reading is exact. With a cache that holds only chunks of the store \<open>T\<close>, and a provider whose
  downloads of the requested hashes are honest for \<open>T\<close>, \<open>GetManyCompressed\<close> ends without an error and passes to the
  callback exactly the chunks that \<open>T\<close> has for the requested hashes, from the cache or the
  network; and the cache holds only chunks of \<open>T\<close> afterwards, whatever it evicts.
\<close>

lemma GetManyCompressed_exact:
  assumes lru: "lru_laws L Q H" and lib: "hash_laws L" and T: "store_ok T"
    and honest: "honest_download L (downloader rcs) T D" "set hashes \<subseteq> D" and cache: "Q (cc_chunks (net_cache s)) \<subseteq>\<^sub>m T"
  shows "\<exists>cs s'. GetManyCompressed L rcs hashes s = (cs, None, s') \<and>
    set cs = {c. \<exists>h \<in> set hashes. T h = Some c} \<and> Q (cc_chunks (net_cache s')) \<subseteq>\<^sub>m T"
proof -
  have it: "set (lib_it L hashes) = set hashes" using lib by (simp add: hash_laws_def range_ok_set)
  obtain ret q where g: "get_cached L (lib_it L hashes) (cc_chunks (net_cache s)) [] = (ret, q)" by (rule prod.exhaust)
  have q: "Q q \<subseteq>\<^sub>m T" and ret: "map_of ret \<subseteq>\<^sub>m T" using get_cached_exact [OF lru cache _ g] by auto
  let ?s = "s\<lparr>net_cache := (net_cache s)\<lparr>cc_chunks := q\<rparr>\<rparr>"
  let ?miss = "filter (\<lambda>h. cached_usable ret h = None) (lib_it L hashes)"
  let ?hit = "List.map_filter (cached_usable ret) (lib_it L hashes)"
  have usable: "cached_usable ret h = Some c \<Longrightarrow> T h = Some c" for h c
    using ret by (auto simp: cached_usable_def map_le_def split: option.splits if_splits) (metis domI)
  have hit: "set ?hit = {c. \<exists>h \<in> set hashes. cached_usable ret h = Some c}"
    by (force simp: List.map_filter_def it image_iff)
  have all: "set ?hit \<union> {c. \<exists>h \<in> set ?miss. T h = Some c} = {c. \<exists>h \<in> set hashes. T h = Some c}"
    using usable by (auto simp: hit it) (metis not_Some_eq option.inject usable)
  show ?thesis
  proof (cases "?miss = []")
    case True
    then have "GetManyCompressed L rcs hashes s = (?hit, None, ?s)"
      by (simp add: GetManyCompressed_def GetCachedChunks_def g Let_def)
    then show ?thesis using all q True by auto
  next
    case False
    then obtain calls w where calls: "dl_DownloadChunks (downloader rcs) (map (lib_String L) ?miss) (net_world s) = (calls, None, w)"
        "honest_calls L T ?miss calls"
      using honest it unfolding honest_download_def by (metis (no_types, lifting) filter_is_subset subset_trans)
    obtain cs cache' where run: "run_download L ?miss calls (net_cache ?s) = (cs, None, cache')" "Q (cc_chunks cache') \<subseteq>\<^sub>m T"
        "set cs = {c. \<exists>(x, b) \<in> set calls. b \<noteq> [] \<and> (\<exists>h \<in> set ?miss. x = lib_String L h \<and> T h = Some c)}"
      using run_download_exact [OF lru lib T, of "net_cache ?s" calls ?miss] q calls(2) by (auto simp: honest_calls_def)
    have cs: "set cs = {c. \<exists>h \<in> set ?miss. T h = Some c}"
      using run(3) calls(2) unfolding honest_calls_def by fastforce
    have "GetManyCompressed L rcs hashes s = (?hit @ cs, None, ?s\<lparr>net_world := w, net_cache := cache'\<rparr>)"
      using False calls(1) run(1) by (simp add: GetManyCompressed_def GetCachedChunks_def g Let_def downloadChunksAndCache_def)
    then show ?thesis using all cs run(2) by auto
  qed
qed

definition sample_content :: "Hash \<rightharpoonup> ToChunker" where
  "sample_content = [''a'' \<mapsto> \<lparr>tc_Hash = ''a'', tc_IsEmpty = False, tc_ToChunk = Inr \<lparr>chk_Hash = ''a'', chk_Data = ''data''\<rparr>\<rparr>]"

lemma sample_honest_download: "honest_download sample_lib (downloader (sample_store [''a''])) sample_content UNIV"
proof -
  have "honest_calls sample_lib sample_content hs (List.map_filter (\<lambda>h. map_option (Pair h) ([''a'' \<mapsto> ''data''] h)) hs)" for hs
    by (force simp: honest_calls_def sample_lib_def sample_content_def List.map_filter_def split: if_splits)
  then show ?thesis
    by (auto simp: honest_download_def sample_store_def sample_downloader_def) (simp add: sample_lib_def fun_upd_def)
qed

end
