(* ===== verification/Grpc_Swarm.thy ===== *)
theory Grpc_Swarm
  imports Chunk_Store
begin

text \<open>
  The gRPC data plane: the server of \<open>integration/transport/grpcswarm/chunkstore_server.go\<close>, the
  provider picker and the clients of \<open>providers.go\<close>, and the tracker of \<open>transport/provider_hint.go\<close>.
  The store behind the server, the functions of Dolt it uses, the file system and the network
  are parameters. A call of a stub is a function of the request; a stream is the list of its
  messages with the error that ends it, if any.
\<close>

section \<open>Paths\<close>

text \<open>\<open>filepath.Clean\<close> and \<open>filepath.Join\<close> for the separator \<open>/\<close>.\<close>

fun path_split :: "string \<Rightarrow> string list" where
  "path_split [] = [[]]"
| "path_split (c # s) = (if c = CHR ''/'' then [] # path_split s
     else case path_split s of [] \<Rightarrow> [[c]] | p # ps \<Rightarrow> (c # p) # ps)"

fun path_join :: "string list \<Rightarrow> string" where
  "path_join [] = ''''"
| "path_join [p] = p"
| "path_join (p # ps) = p @ ''/'' @ path_join ps"

text \<open>The elements kept so far are in reverse order.\<close>

definition clean_step :: "bool \<Rightarrow> string list \<Rightarrow> string \<Rightarrow> string list" where
  "clean_step rooted out p =
     (if p = '''' \<or> p = ''.'' then out
      else if p = ''..'' then
        (case out of
           [] \<Rightarrow> if rooted then [] else [''..'']
         | q # out' \<Rightarrow> if q = ''..'' then ''..'' # out else out')
      else p # out)"

definition filepath_Clean :: "string \<Rightarrow> string" where
  "filepath_Clean p =
     (if p = '''' then ''.''
      else let rooted = (hd p = CHR ''/'');
               out = rev (foldl (clean_step rooted) [] (path_split p))
           in if rooted then ''/'' @ path_join out
              else if out = [] then ''.'' else path_join out)"

definition filepath_Join :: "string list \<Rightarrow> string" where
  "filepath_Join elem =
     (let es = dropWhile (\<lambda>e. e = '''') elem in if es = [] then '''' else filepath_Clean (path_join es))"

section \<open>The server\<close>

text \<open>An error of gRPC with its code and its message.\<close>

definition status_Error :: "string \<Rightarrow> string \<Rightarrow> go_error" where
  "status_Error code msg = ErrWrap code (ErrText msg)"

text \<open>The interface \<open>remotesrv.RemoteSrvStore\<close> of Dolt; a table file is what its methods return.\<close>

record TableFile =
  tf_FileID :: string
  tf_LocationPrefix :: string
  tf_LocationSuffix :: string
  tf_NumChunks :: int
  tf_SplitOffset :: "64 word"

record 'w RemoteSrvStore =
  st_Rebase :: "'w \<Rightarrow> unit result \<times> 'w"
  st_HasMany :: "HashSet \<Rightarrow> 'w \<Rightarrow> HashSet result \<times> 'w"
  st_Root :: "'w \<Rightarrow> Hash result \<times> 'w"
  st_Size :: "'w \<Rightarrow> 64 word result \<times> 'w"
  st_Version :: string
  st_Sources :: "'w \<Rightarrow> (Hash \<times> TableFile list \<times> TableFile list) result \<times> 'w"
  st_Get :: "Hash \<Rightarrow> 'w \<Rightarrow> Chunk result \<times> 'w"

text \<open>
  Functions of Dolt and of the operating system. \<open>sl_Read\<close> is the number of bytes that \<open>Read\<close>
  returns for a buffer and a rest of the file of given lengths, or an error other than the end
  of the file.
\<close>

record 'w server_lib =
  sl_ByteLen :: nat
  sl_ParseByteSlices :: "bytes list \<Rightarrow> HashSet \<times> (Hash \<times> nat) list"
  sl_Parse :: "string \<Rightarrow> Hash option"
  sl_Compress :: "Chunk \<Rightarrow> bytes"
  sl_Stat :: "string \<Rightarrow> 'w \<Rightarrow> int64 result"
  sl_OpenFile :: "string \<Rightarrow> 'w \<Rightarrow> bytes result"
  sl_Read :: "nat \<Rightarrow> nat \<Rightarrow> nat result"
  sl_it :: "HashSet \<Rightarrow> HashSet"

record 'w ChunkStoreServer =
  srv_store :: "'w RemoteSrvStore"
  srv_filePath :: string

text \<open>
  \<open>db.GetChunkStore()\<close> reaches into Dolt: its result is the argument \<open>cs\<close>, and whether the store
  has the interface of the server is \<open>None\<close> or \<open>Some\<close> of it.
\<close>

definition NewChunkStoreServer ::
  "('w, 'm) DB_scheme option \<Rightarrow> 'w RemoteSrvStore option result \<Rightarrow> 'w ChunkStoreServer result" where
  "NewChunkStoreServer db cs =
     (case db of
        None \<Rightarrow> Inl (ErrText ''db is nil'')
      | Some d \<Rightarrow>
          (case cs of
             Inl err \<Rightarrow> Inl err
           | Inr None \<Rightarrow> Inl (ErrText ''chunk store is not a remotesrv.RemoteSrvStore'')
           | Inr (Some st) \<Rightarrow> Inr \<lparr>srv_store = st, srv_filePath = GetFilePath d\<rparr>))"

definition validateRepoRequest :: "RepoID option \<Rightarrow> string \<Rightarrow> unit result" where
  "validateRepoRequest repoId rpath =
     (if rpath = '''' \<and> repoId = None then Inl (ErrText ''expected repo_path or repo_id, got neither'') else Inr ())"

fun validate_from :: "nat \<Rightarrow> string \<Rightarrow> nat \<Rightarrow> bytes list \<Rightarrow> unit result" where
  "validate_from byteLen field i [] = Inr ()"
| "validate_from byteLen field i (bs # hashes) =
     (if length bs \<noteq> byteLen
      then Inl (ErrText (''expected '' @ field @ ''['' @ show_nat i @ ''] hash to be '' @ show_nat byteLen @
             '' bytes long, was '' @ show_nat (length bs)))
      else validate_from byteLen field (Suc i) hashes)"

definition validateHashes :: "nat \<Rightarrow> string \<Rightarrow> bytes list \<Rightarrow> unit result" where
  "validateHashes byteLen field hashes = validate_from byteLen field 0 hashes"

record HasChunksRequest =
  hreq_RepoId :: "RepoID option"
  hreq_RepoPath :: string
  hreq_Hashes :: "bytes list"

definition rebased :: "'w RemoteSrvStore \<Rightarrow> 'w \<Rightarrow> ('w \<Rightarrow> 'a result \<times> 'w) \<Rightarrow> 'a result \<times> 'w" where
  "rebased st w k =
     (case st_Rebase st w of
        (Inl err, w') \<Rightarrow> (Inl (status_Error ''Internal'' (''rebase: '' @ error_text err)), w')
      | (Inr _, w') \<Rightarrow> k w')"

definition HasChunks :: "'w server_lib \<Rightarrow> 'w ChunkStoreServer \<Rightarrow> HasChunksRequest \<Rightarrow> 'w \<Rightarrow> int32 list result \<times> 'w" where
  "HasChunks SL s req w =
     (case validateRepoRequest (hreq_RepoId req) (hreq_RepoPath req) of
        Inl err \<Rightarrow> (Inl (status_Error ''InvalidArgument'' (error_text err)), w)
      | Inr _ \<Rightarrow>
          (case validateHashes (sl_ByteLen SL) ''hashes'' (hreq_Hashes req) of
             Inl err \<Rightarrow> (Inl (status_Error ''InvalidArgument'' (error_text err)), w)
           | Inr _ \<Rightarrow> rebased (srv_store s) w (\<lambda>w.
               (case sl_ParseByteSlices SL (hreq_Hashes req) of
                  (hashes, hashToIndex) \<Rightarrow>
                    (case st_HasMany (srv_store s) hashes w of
                       (Inl err, w') \<Rightarrow> (Inl (status_Error ''Internal'' (''HasMany: '' @ error_text err)), w')
                     | (Inr absent, w') \<Rightarrow>
                         (Inr (map (\<lambda>h. word_of_nat (case map_of hashToIndex h of None \<Rightarrow> 0 | Some i \<Rightarrow> i)) (sl_it SL absent)), w'))))))"

record RootRequest =
  rreq_RepoId :: "RepoID option"
  rreq_RepoPath :: string

definition Srv_Root :: "'w ChunkStoreServer \<Rightarrow> RootRequest \<Rightarrow> 'w \<Rightarrow> bytes result \<times> 'w" where
  "Srv_Root s req w =
     (case validateRepoRequest (rreq_RepoId req) (rreq_RepoPath req) of
        Inl err \<Rightarrow> (Inl (status_Error ''InvalidArgument'' (error_text err)), w)
      | Inr _ \<Rightarrow> rebased (srv_store s) w (\<lambda>w.
          (case st_Root (srv_store s) w of
             (Inl err, w') \<Rightarrow> (Inl (status_Error ''Internal'' (''root: '' @ error_text err)), w')
           | (Inr h, w') \<Rightarrow> (Inr h, w'))))"

record GetRepoMetadataRequest =
  mreq_RepoId :: "RepoID option"
  mreq_RepoPath :: string
  mreq_ClientRepoFormat :: "ClientRepoFormat option"

definition Srv_GetRepoMetadata :: "'w ChunkStoreServer \<Rightarrow> GetRepoMetadataRequest \<Rightarrow> 'w \<Rightarrow> RepoMetadata result \<times> 'w" where
  "Srv_GetRepoMetadata s req w =
     (case validateRepoRequest (mreq_RepoId req) (mreq_RepoPath req) of
        Inl err \<Rightarrow> (Inl (status_Error ''InvalidArgument'' (error_text err)), w)
      | Inr _ \<Rightarrow>
          (case mreq_ClientRepoFormat req of
             None \<Rightarrow> (Inl (status_Error ''InvalidArgument'' ''expected non-nil client_repo_format''), w)
           | Some format \<Rightarrow> rebased (srv_store s) w (\<lambda>w.
               (case st_Size (srv_store s) w of
                  (Inl err, w') \<Rightarrow> (Inl (status_Error ''Internal'' (''size: '' @ error_text err)), w')
                | (Inr sz, w') \<Rightarrow>
                    (Inr \<lparr>rmd_NbfVersion = st_Version (srv_store s), rmd_NbsVersion = crf_NbsVersion format, StorageSize = sz\<rparr>, w')))))"

definition buildTableFileInfo :: "TableFile list \<Rightarrow> TableFileInfo list" where
  "buildTableFileInfo tableList =
     map (\<lambda>t. \<lparr>tfi_FileID = tf_FileID t, tfi_NumChunks = word_of_int (tf_NumChunks t),
               tfi_URL = tf_LocationPrefix t @ tf_FileID t @ tf_LocationSuffix t,
               tfi_SplitOffset = tf_SplitOffset t, tfi_RefreshAfter = None\<rparr>) tableList"

record ListTableFilesRequest =
  lreq_RepoId :: "RepoID option"
  lreq_RepoPath :: string
  lreq_RepoToken :: string

definition Srv_ListTableFiles ::
  "'w ChunkStoreServer \<Rightarrow> ListTableFilesRequest \<Rightarrow> 'w \<Rightarrow> (bytes \<times> TableFileInfo list \<times> TableFileInfo list) result \<times> 'w" where
  "Srv_ListTableFiles s req w =
     (case validateRepoRequest (lreq_RepoId req) (lreq_RepoPath req) of
        Inl err \<Rightarrow> (Inl (status_Error ''InvalidArgument'' (error_text err)), w)
      | Inr _ \<Rightarrow> rebased (srv_store s) w (\<lambda>w.
          (case st_Sources (srv_store s) w of
             (Inl err, w') \<Rightarrow> (Inl (status_Error ''Internal'' (''sources: '' @ error_text err)), w')
           | (Inr (root, tables, appendixTables), w') \<Rightarrow>
               (Inr (root, buildTableFileInfo tables, buildTableFileInfo appendixTables), w'))))"

text \<open>The calls that the server refuses.\<close>

definition Srv_GetDownloadLocations :: "'a result" where
  "Srv_GetDownloadLocations = Inl (status_Error ''PermissionDenied'' ''HTTP download locations are not supported'')"

definition Srv_StreamDownloadLocations :: "unit result" where
  "Srv_StreamDownloadLocations = Inl (status_Error ''PermissionDenied'' ''HTTP download locations are not supported'')"

definition Srv_GetUploadLocations :: "'a result" where
  "Srv_GetUploadLocations = Inl (status_Error ''PermissionDenied'' ''read-only'')"

definition Srv_Rebase :: "'a result" where
  "Srv_Rebase = Inl (status_Error ''PermissionDenied'' ''read-only'')"

definition Srv_Commit :: "'a result" where
  "Srv_Commit = Inl (status_Error ''PermissionDenied'' ''read-only'')"

definition Srv_AddTableFiles :: "'a result" where
  "Srv_AddTableFiles = Inl (status_Error ''PermissionDenied'' ''read-only'')"

record RefreshTableFileUrlRequest =
  freq_RepoId :: "RepoID option"
  freq_RepoPath :: string
  freq_FileId :: string

definition Srv_RefreshTableFileUrl :: "(string \<times> Time option) result" where
  "Srv_RefreshTableFileUrl = Inl (status_Error ''Unimplemented'' ''not supported'')"

section \<open>The download service\<close>

definition downloadChunkSize :: nat where
  "downloadChunkSize = 3 * 1024"

text \<open>
  The loop of \<open>DownloadFile\<close>: \<open>buf\<close> is the length of \<open>chunk.Chunk\<close>, which is cut to the number of
  bytes of the last read. \<open>send i\<close> is the outcome of the \<open>i\<close>-th \<open>Send\<close>. The messages sent are the
  result, with the error of the call; \<open>ErrFuel\<close> stands for a loop that has not ended.
\<close>

fun send_file ::
  "nat \<Rightarrow> 'w server_lib \<Rightarrow> (nat \<Rightarrow> go_error option) \<Rightarrow> nat \<Rightarrow> nat \<Rightarrow> bytes \<Rightarrow> bytes list \<times> go_error option" where
  "send_file 0 SL send i buf rest = ([], Some ErrFuel)"
| "send_file (Suc fuel) SL send i buf rest =
     (if rest = [] then ([], None)
      else case sl_Read SL buf (length rest) of
             Inl err \<Rightarrow> ([], Some (status_Error ''Internal'' (''read: '' @ error_text err)))
           | Inr n \<Rightarrow>
               (case send i of
                  Some err \<Rightarrow> ([], Some (status_Error ''Internal'' (''send: '' @ error_text err)))
                | None \<Rightarrow>
                    (case send_file fuel SL send (Suc i) n (drop n rest) of
                       (msgs, e) \<Rightarrow> (take n rest # msgs, e))))"

text \<open>The header carries the name and the size in decimal; it is \<open>None\<close> when it was not sent.\<close>

type_synonym header = "(string \<times> string) list"

definition Srv_DownloadFile ::
  "'w server_lib \<Rightarrow> 'w ChunkStoreServer \<Rightarrow> go_error option \<Rightarrow> (nat \<Rightarrow> go_error option) \<Rightarrow> string \<Rightarrow> 'w \<Rightarrow>
   header option \<times> bytes list \<times> go_error option" where
  "Srv_DownloadFile SL s sendHeader send i w =
     (if i = '''' then (None, [], Some (status_Error ''InvalidArgument'' ''id is required''))
      else let fpath = filepath_Join [srv_filePath s, ''.dolt'', ''noms'', i]
           in case sl_Stat SL fpath w of
                Inl err \<Rightarrow> (None, [], Some (status_Error ''NotFound'' (''stat '' @ fpath @ '': '' @ error_text err)))
              | Inr fsize \<Rightarrow>
                  (case sl_OpenFile SL fpath w of
                     Inl err \<Rightarrow> (None, [], Some (status_Error ''Internal'' (''open '' @ fpath @ '': '' @ error_text err)))
                   | Inr content \<Rightarrow>
                       (case sendHeader of
                          Some err \<Rightarrow> (None, [], Some (status_Error ''Internal'' ''send header failed''))
                        | None \<Rightarrow>
                            (Some [(''file-name'', i), (''file-size'', show_int (sint fsize))],
                             send_file (Suc (length content)) SL send 0 downloadChunkSize content))))"

fun send_chunks ::
  "'w server_lib \<Rightarrow> 'w RemoteSrvStore \<Rightarrow> (nat \<Rightarrow> go_error option) \<Rightarrow> nat \<Rightarrow> string list \<Rightarrow> 'w \<Rightarrow>
   (string \<times> bytes) list \<times> go_error option \<times> 'w" where
  "send_chunks SL st send i [] w = ([], None, w)"
| "send_chunks SL st send i (hashStr # hashes) w =
     (case sl_Parse SL hashStr of
        None \<Rightarrow> ([], Some (ErrPanic ''invalid hash''), w)
      | Some h \<Rightarrow>
          (case st_Get st h w of
             (Inl err, w') \<Rightarrow> ([], Some (status_Error ''Internal'' (''get '' @ hashStr @ '': '' @ error_text err)), w')
           | (Inr ch, w') \<Rightarrow>
               (case send i of
                  Some err \<Rightarrow> ([], Some (status_Error ''Internal'' (''send: '' @ error_text err)), w')
                | None \<Rightarrow>
                    (case send_chunks SL st send (Suc i) hashes w' of
                       (msgs, e, w'') \<Rightarrow> ((hashStr, sl_Compress SL ch) # msgs, e, w'')))))"

definition Srv_DownloadChunks ::
  "'w server_lib \<Rightarrow> 'w ChunkStoreServer \<Rightarrow> (nat \<Rightarrow> go_error option) \<Rightarrow> string list \<Rightarrow> 'w \<Rightarrow>
   (string \<times> bytes) list \<times> go_error option \<times> 'w" where
  "Srv_DownloadChunks SL s send hashes w =
     (if hashes = [] then ([], Some (status_Error ''InvalidArgument'' ''at least one hash is required''), w)
      else case st_Rebase (srv_store s) w of
        (Inl err, w') \<Rightarrow> ([], Some (status_Error ''Internal'' (''rebase: '' @ error_text err)), w')
      | (Inr _, w') \<Rightarrow> send_chunks SL (srv_store s) send 0 hashes w')"

section \<open>The clients\<close>

text \<open>
  The stubs generated for the two services. \<open>stub_DownloadFile\<close> and \<open>stub_DownloadChunks\<close> return
  an error of the call, or the header, the messages and the error that \<open>Recv\<close> ends with, where
  \<open>None\<close> is \<open>io.EOF\<close>.
\<close>

record 'w stub =
  stub_GetRepoMetadata :: "GetRepoMetadataRequest \<Rightarrow> 'w \<Rightarrow> RepoMetadata result \<times> 'w"
  stub_HasChunks :: "HasChunksRequest \<Rightarrow> 'w \<Rightarrow> int32 list result \<times> 'w"
  stub_Root :: "RootRequest \<Rightarrow> 'w \<Rightarrow> bytes result \<times> 'w"
  stub_ListTableFiles :: "ListTableFilesRequest \<Rightarrow> 'w \<Rightarrow> (bytes \<times> TableFileInfo list \<times> TableFileInfo list) result \<times> 'w"
  stub_RefreshTableFileUrl :: "RefreshTableFileUrlRequest \<Rightarrow> 'w \<Rightarrow> (string \<times> Time option) result \<times> 'w"
  stub_DownloadFile :: "string \<Rightarrow> 'w \<Rightarrow> (header result \<times> bytes list \<times> go_error option) result \<times> 'w"
  stub_DownloadChunks :: "string list \<Rightarrow> 'w \<Rightarrow> ((string \<times> bytes) list \<times> go_error option) result \<times> 'w"

definition client_GetRepoMetadata :: "'w stub \<Rightarrow> RepoID \<Rightarrow> string \<Rightarrow> ClientRepoFormat \<Rightarrow> 'w \<Rightarrow> RepoMetadata result \<times> 'w" where
  "client_GetRepoMetadata c repoID rpath format w =
     (case stub_GetRepoMetadata c \<lparr>mreq_RepoId = Some repoID, mreq_RepoPath = rpath, mreq_ClientRepoFormat = Some format\<rparr> w of
        (Inl err, w') \<Rightarrow> (Inl err, w')
      | (Inr resp, w') \<Rightarrow>
          (Inr \<lparr>rmd_NbfVersion = rmd_NbfVersion resp, rmd_NbsVersion = rmd_NbsVersion resp, StorageSize = StorageSize resp\<rparr>, w'))"

definition client_HasChunks :: "'w stub \<Rightarrow> string \<Rightarrow> bytes list \<Rightarrow> 'w \<Rightarrow> int32 list result \<times> 'w" where
  "client_HasChunks c rpath hashes w =
     stub_HasChunks c \<lparr>hreq_RepoId = None, hreq_RepoPath = rpath, hreq_Hashes = hashes\<rparr> w"

definition client_Root :: "'w stub \<Rightarrow> string \<Rightarrow> 'w \<Rightarrow> bytes result \<times> 'w" where
  "client_Root c rpath w = stub_Root c \<lparr>rreq_RepoId = None, rreq_RepoPath = rpath\<rparr> w"

definition toInfo :: "TableFileInfo list \<Rightarrow> TableFileInfo list" where
  "toInfo list = map (\<lambda>t. \<lparr>tfi_FileID = tfi_FileID t, tfi_NumChunks = tfi_NumChunks t, tfi_URL = tfi_URL t,
     tfi_SplitOffset = tfi_SplitOffset t, tfi_RefreshAfter = tfi_RefreshAfter t\<rparr>) list"

definition client_ListTableFiles ::
  "'w stub \<Rightarrow> RepoID \<Rightarrow> string \<Rightarrow> string \<Rightarrow> 'w \<Rightarrow> (bytes \<times> TableFileInfo list \<times> TableFileInfo list) result \<times> 'w" where
  "client_ListTableFiles c repoID rpath repoToken w =
     (case stub_ListTableFiles c \<lparr>lreq_RepoId = Some repoID, lreq_RepoPath = rpath, lreq_RepoToken = repoToken\<rparr> w of
        (Inl err, w') \<Rightarrow> (Inl err, w')
      | (Inr (root, tables, appendix), w') \<Rightarrow> (Inr (root, toInfo tables, toInfo appendix), w'))"

definition client_RefreshTableFileURL ::
  "'w stub \<Rightarrow> RepoID \<Rightarrow> string \<Rightarrow> string \<Rightarrow> 'w \<Rightarrow> (string \<times> Time option) result \<times> 'w" where
  "client_RefreshTableFileURL c repoID rpath fileID w =
     stub_RefreshTableFileUrl c \<lparr>freq_RepoId = Some repoID, freq_RepoPath = rpath, freq_FileId = fileID\<rparr> w"

definition chunkStoreClient :: "'w stub \<Rightarrow> 'w ChunkStoreClient" where
  "chunkStoreClient c = \<lparr>cl_GetRepoMetadata = client_GetRepoMetadata c, cl_HasChunks = client_HasChunks c, cl_Root = client_Root c,
     cl_ListTableFiles = client_ListTableFiles c, cl_RefreshTableFileURL = client_RefreshTableFileURL c\<rparr>"

text \<open>\<open>strconv.ParseUint(s, 10, 64)\<close>\<close>

definition ParseUint64 :: "string \<Rightarrow> (64 word) option" where
  "ParseUint64 s =
     (if s \<noteq> [] \<and> list_all (\<lambda>c. c \<in> set ''0123456789'') s \<and> dec_value s < 2 ^ 64 then Some (word_of_nat (dec_value s)) else None)"

text \<open>The pipe passes the data of the messages on.\<close>

definition client_DownloadFile :: "'w stub \<Rightarrow> string \<Rightarrow> 'w \<Rightarrow> (reader \<times> 64 word) result \<times> 'w" where
  "client_DownloadFile d i w =
     (case stub_DownloadFile d i w of
        (Inl err, w') \<Rightarrow> (Inl err, w')
      | (Inr (Inl err, msgs, e), w') \<Rightarrow> (Inl err, w')
      | (Inr (Inr md, msgs, e), w') \<Rightarrow>
          (let sz = (case map_of md ''file-size'' of
                       None \<Rightarrow> 0
                     | Some v \<Rightarrow> (case ParseUint64 v of None \<Rightarrow> 0 | Some parsed \<Rightarrow> parsed))
           in (Inr ((concat msgs, e), sz), w')))"

text \<open>The calls to \<open>onChunk\<close> and the error that ends the stream.\<close>

definition client_DownloadChunks :: "'w stub \<Rightarrow> string list \<Rightarrow> 'w \<Rightarrow> (string \<times> bytes) list \<times> go_error option \<times> 'w" where
  "client_DownloadChunks d hashes w =
     (case stub_DownloadChunks d hashes w of
        (Inl err, w') \<Rightarrow> ([], Some err, w')
      | (Inr (msgs, e), w') \<Rightarrow> (filter (\<lambda>(h, b). \<not> (h = '''' \<or> b = [])) msgs, e, w'))"

definition downloaderClient :: "'w stub \<Rightarrow> 'w DownloaderClient" where
  "downloaderClient d = \<lparr>dl_DownloadFile = client_DownloadFile d, dl_DownloadChunks = client_DownloadChunks d\<rparr>"

section \<open>The provider picker\<close>

text \<open>\<open>UsedProviderTracker\<close> holds the provider last set.\<close>

definition Tracker_Set :: "string \<Rightarrow> string \<Rightarrow> string" where
  "Tracker_Set t providerID = providerID"

definition Tracker_Get :: "string \<Rightarrow> string" where
  "Tracker_Get t = t"

record Providers =
  rr :: "64 word"
  lastUsed :: "string option"

definition LastUsedProvider :: "Providers option \<Rightarrow> string" where
  "LastUsedProvider p =
     (case p of
        None \<Rightarrow> ''''
      | Some q \<Rightarrow> (case lastUsed q of None \<Rightarrow> '''' | Some v \<Rightarrow> v))"

text \<open>
  The snapshot of connections is a map from peer to connection, ranged over in the order \<open>it\<close>;
  the context may carry a tracker.
\<close>

definition PickProvider ::
  "((string \<times> 'c) list \<Rightarrow> (string \<times> 'c) list) \<Rightarrow> (string \<times> 'c) list option \<Rightarrow> string option \<Rightarrow> Providers \<Rightarrow>
   (string \<times> 'c) result \<times> string option \<times> Providers" where
  "PickProvider it src tracker p =
     (case src of
        None \<Rightarrow> (Inl (ErrText ''no conn source''), tracker, p)
      | Some conns \<Rightarrow>
          if conns = [] then (Inl (ErrText ''no connected providers''), tracker, p)
          else let ids = sort_slice (<) (map fst (it conns));
                   idx = rr p;
                   i = ids ! (unat idx mod length ids)
               in (Inr (i, the (map_of conns i)), map_option (\<lambda>t. Tracker_Set t i) tracker,
                   p\<lparr>rr := rr p + 1, lastUsed := Some i\<rparr>))"

end
