(* ===== verification/Wire.thy ===== *)
theory Wire
  imports Grpc_Swarm
begin

text \<open>
  The two ends of the data plane together: the remote chunk store of \<open>core/remote_chunk_store.go\<close>
  over the clients of \<open>providers.go\<close> over the server of \<open>chunkstore_server.go\<close>. Presence checks,
  chunks and table files reach the client exactly as the store of the server has them, and the
  picker takes the providers in turn.
\<close>

section \<open>Files arrive unchanged\<close>

definition read_law :: "'w server_lib \<Rightarrow> bool" where
  "read_law SL \<longleftrightarrow> (\<forall>b r. 0 < b \<and> 0 < r \<longrightarrow> (\<exists>n. sl_Read SL b r = Inr n \<and> 0 < n \<and> n \<le> min b r))"

lemma send_file_exact:
  assumes "read_law SL" "length rest < fuel" "0 < buf"
  shows "\<exists>msgs. send_file fuel SL (\<lambda>_. None) i buf rest = (msgs, None) \<and> concat msgs = rest \<and> (\<forall>m \<in> set msgs. length m \<le> buf)"
  using assms(2,3)
proof (induction fuel arbitrary: i buf rest)
  case 0
  then show ?case by simp
next
  case (Suc fuel)
  show ?case
  proof (cases "rest = []")
    case True
    then show ?thesis by simp
  next
    case False
    then obtain n where n: "0 < n" "n \<le> buf" "n \<le> length rest" "sl_Read SL buf (length rest) = Inr n"
      using assms(1) Suc.prems(2) unfolding read_law_def by (metis length_greater_0_conv min.boundedE)
    have "length (drop n rest) < fuel" using n Suc.prems(1) by simp
    then obtain msgs where "send_file fuel SL (\<lambda>_. None) (Suc i) n (drop n rest) = (msgs, None)"
        "concat msgs = drop n rest" "\<forall>m \<in> set msgs. length m \<le> n"
      using Suc.IH [of "drop n rest" n "Suc i"] n(1) by auto
    then show ?thesis using False n by auto
  qed
qed

text \<open>
  A connection that carries every call: the stub returns what the server does. A stream that
  fails before the server sends the header has no header, and its error is found by \<open>Recv\<close>.
\<close>

definition connect :: "'w server_lib \<Rightarrow> 'w ChunkStoreServer \<Rightarrow> 'w stub" where
  "connect SL s = \<lparr>stub_GetRepoMetadata = Srv_GetRepoMetadata s, stub_HasChunks = HasChunks SL s, stub_Root = Srv_Root s,
     stub_ListTableFiles = Srv_ListTableFiles s, stub_RefreshTableFileUrl = (\<lambda>req w. (Srv_RefreshTableFileUrl, w)),
     stub_DownloadFile = (\<lambda>i w. case Srv_DownloadFile SL s None (\<lambda>_. None) i w of
       (hdr, msgs, e) \<Rightarrow> (Inr (Inr (case hdr of None \<Rightarrow> [] | Some md \<Rightarrow> md), msgs, e), w)),
     stub_DownloadChunks = (\<lambda>hs w. case Srv_DownloadChunks SL s (\<lambda>_. None) hs w of (msgs, e, w') \<Rightarrow> (Inr (msgs, e), w'))\<rparr>"

lemma show_nat_chars: "list_all (\<lambda>c. c \<in> set ''0123456789'') (show_nat n)"
proof -
  have "list_all (\<lambda>d. digit_char d \<in> set ''0123456789'') [0..<10]" by code_simp
  then have "d < 10 \<Longrightarrow> digit_char d \<in> set ''0123456789''" for d unfolding list_all_iff by (rule bspec) simp
  then show ?thesis using show_nat_digits by (fastforce simp: list_all_iff)
qed

lemma ParseUint64_show: "n < 2 ^ 64 \<Longrightarrow> ParseUint64 (show_nat n) = Some (word_of_nat n)"
  using show_nat_chars by (simp add: ParseUint64_def dec_value_show_nat)

lemma client_DownloadFile_exact:
  assumes "read_law SL" "i \<noteq> ''''"
    and "fpath = filepath_Join [srv_filePath s, ''.dolt'', ''noms'', i]"
    and "sl_OpenFile SL fpath w = Inr content" "sl_Stat SL fpath w = Inr n" "sint n = int (length content)"
  shows "client_DownloadFile (connect SL s) i w = (Inr ((content, None), word_of_nat (length content)), w)"
proof -
  obtain msgs where msgs: "send_file (Suc (length content)) SL (\<lambda>_. None) 0 downloadChunkSize content = (msgs, None)" "concat msgs = content"
    using send_file_exact [OF assms(1), of content "Suc (length content)" downloadChunkSize 0] by (auto simp: downloadChunkSize_def)
  have "length content < 2 ^ 64" using assms(6) sint_range64(2) [of n] by simp
  moreover have "show_int (sint n) = show_nat (length content)" using assms(6) by (simp add: show_int_def)
  ultimately show ?thesis
    using assms(2-5) msgs by (simp add: client_DownloadFile_def connect_def Srv_DownloadFile_def Let_def ParseUint64_show)
qed

text \<open>The identifier that the client derives from the URL of a listed table file.\<close>

lemma path_Base_name: "p \<noteq> '''' \<Longrightarrow> CHR ''/'' \<notin> set p \<Longrightarrow> path_Base p = p"
proof -
  assume p: "p \<noteq> ''''" "CHR ''/'' \<notin> set p"
  have drop: "dropWhile (\<lambda>c. c = CHR ''/'') (rev p) = rev p"
    using p by (cases p rule: rev_cases) auto
  have take: "takeWhile (\<lambda>c. c \<noteq> CHR ''/'') (rev p) = rev p" using p(2) by auto
  show ?thesis unfolding path_Base_def Let_def drop rev_rev_ident take using p(1) by simp
qed

definition listed_name :: "TableFile \<Rightarrow> string" where
  "listed_name t = tf_FileID t @ tf_LocationSuffix t"

definition plain_name :: "TableFile \<Rightarrow> bool" where
  "plain_name t \<longleftrightarrow> tf_LocationPrefix t = '''' \<and> list_all url_safe (listed_name t) \<and> listed_name t \<noteq> '''' \<and> listed_name t \<noteq> ''.''"

lemma rtf_id_listed:
  assumes "plain_name t" "tfi_URL (rtf_info rtf) = tf_LocationPrefix t @ tf_FileID t @ tf_LocationSuffix t"
  shows "rtf_id rtf = listed_name t"
proof -
  let ?f = "listed_name t"
  have f: "list_all url_safe ?f" "?f \<noteq> ''''" "?f \<noteq> ''.''" using assms(1) by (simp_all add: plain_name_def)
  have no: "CHR ''/'' \<notin> set ?f" using f(1) slash_not_safe by (auto simp: list_all_iff)
  have "tfi_URL (rtf_info rtf) = ?f" using assms by (simp add: plain_name_def listed_name_def)
  moreover have "take 2 ?f \<noteq> ''//''" using no by (metis in_set_takeD list.set_intros(1))
  then have "url_ref_path ?f = Some ?f" using f(1) by (auto simp: url_ref_path_def list_all_iff)
  moreover have "?f \<noteq> ''/''" using no by auto
  ultimately show ?thesis using f(2,3) path_Base_name [OF f(2) no] by (simp add: rtf_id_def Let_def)
qed

text \<open>The file of a table file in the store directory of the server, with its content.\<close>

definition file_of :: "'w server_lib \<Rightarrow> 'w ChunkStoreServer \<Rightarrow> 'w \<Rightarrow> (string \<Rightarrow> bytes) \<Rightarrow> TableFile \<Rightarrow> bool" where
  "file_of SL s w content t \<longleftrightarrow>
     (let fpath = filepath_Join [srv_filePath s, ''.dolt'', ''noms'', listed_name t]
      in sl_OpenFile SL fpath w = Inr (content (listed_name t)) \<and>
         (\<exists>n. sl_Stat SL fpath w = Inr n \<and> sint n = int (length (content (listed_name t)))))"

lemma rtf_Open_listed:
  assumes "read_law SL" "plain_name t" "file_of SL s w content t" "rtf_downloader rtf = downloaderClient (connect SL s)"
    and "tfi_URL (rtf_info rtf) = tf_LocationPrefix t @ tf_FileID t @ tf_LocationSuffix t"
  shows "rtf_Open rtf w = (Inr ((content (listed_name t), None), word_of_nat (length (content (listed_name t)))), w)"
proof -
  obtain n where n: "sl_OpenFile SL (filepath_Join [srv_filePath s, ''.dolt'', ''noms'', listed_name t]) w = Inr (content (listed_name t))"
      "sl_Stat SL (filepath_Join [srv_filePath s, ''.dolt'', ''noms'', listed_name t]) w = Inr n" "sint n = int (length (content (listed_name t)))"
    using assms(3) by (auto simp: file_of_def Let_def)
  have "listed_name t \<noteq> ''''" using assms(2) by (simp add: plain_name_def)
  from client_DownloadFile_exact [OF assms(1) this refl n] show ?thesis
    using assms(4) by (simp add: rtf_Open_def downloaderClient_def rtf_id_listed [OF assms(2,5)])
qed

text \<open>The server lists \<open>tables\<close> and \<open>appendix\<close>, and the world is \<open>w'\<close> afterwards.\<close>

definition lists :: "'w ChunkStoreServer \<Rightarrow> 'w \<Rightarrow> Hash \<Rightarrow> TableFile list \<Rightarrow> TableFile list \<Rightarrow> 'w \<Rightarrow> bool" where
  "lists s w root tables appendix w' \<longleftrightarrow>
     (\<exists>w1. st_Rebase (srv_store s) w = (Inr (), w1) \<and> st_Sources (srv_store s) w1 = (Inr (root, tables, appendix), w'))"


text \<open>A server with one table file, and with the chunk \<open>''a''\<close> of the sample store.\<close>

definition sample_chunk :: Chunk where
  "sample_chunk = \<lparr>chk_Hash = ''a'', chk_Data = ''data''\<rparr>"

definition sample_table :: TableFile where
  "sample_table = \<lparr>tf_FileID = ''f'', tf_LocationPrefix = '''', tf_LocationSuffix = ''.darc'', tf_NumChunks = 1, tf_SplitOffset = 0\<rparr>"

definition sample_slib :: "unit server_lib" where
  "sample_slib = \<lparr>sl_ByteLen = 1, sl_ParseByteSlices = (\<lambda>hs. (remdups hs, zip hs [0..<length hs])), sl_Parse = Some, sl_Compress = chk_Data,
     sl_Stat = (\<lambda>p w. if p = ''/d/.dolt/noms/f.darc'' then Inr 4 else Inl (ErrText ''no file'')),
     sl_OpenFile = (\<lambda>p w. if p = ''/d/.dolt/noms/f.darc'' then Inr ''blob'' else Inl (ErrText ''no file'')),
     sl_Read = (\<lambda>b r. Inr (min b r)), sl_it = (\<lambda>xs. xs)\<rparr>"

definition sample_server :: "unit ChunkStoreServer" where
  "sample_server = \<lparr>srv_store = \<lparr>st_Rebase = (\<lambda>w. (Inr (), w)), st_HasMany = (\<lambda>hs w. (Inr (filter (\<lambda>h. h \<noteq> ''a'') hs), w)),
      st_Root = (\<lambda>w. (Inr ''root'', w)), st_Size = (\<lambda>w. (Inr 4, w)), st_Version = ''v'',
      st_Sources = (\<lambda>w. (Inr (''root'', [sample_table], []), w)),
      st_Get = (\<lambda>h w. (Inr (if h = ''a'' then sample_chunk else EmptyChunk), w))\<rparr>,
    srv_filePath = ''/d''\<rparr>"

definition connected_store :: "unit RemoteChunkStore" where
  "connected_store = \<lparr>rcs_repo = sample_repo, rcs_repoPath = repoPath sample_repo,
     chunkClient = chunkStoreClient (connect sample_slib sample_server),
     downloader = downloaderClient (connect sample_slib sample_server), nbfVersion = ''v'', repoSize = 4, rcs_root = ''root''\<rparr>"

lemma sample_path: "filepath_Join [''/d'', ''.dolt'', ''noms'', ''f.darc''] = ''/d/.dolt/noms/f.darc''"
  by code_simp

lemma sample_read_law: "read_law sample_slib"
  by (simp add: read_law_def sample_slib_def)


section \<open>Chunks arrive unchanged\<close>

text \<open>
  \<open>M\<close> is the content of the store of the server. \<open>ParseByteSlices\<close> yields the set of the hashes
  and the position of each. For a chunk of the store, the text of its hash is parsed back, and
  what \<open>Compress\<close> makes of the chunk is not empty and is decoded to the chunk by the client.
\<close>

definition serves :: "'w RemoteSrvStore \<Rightarrow> (Hash \<rightharpoonup> Chunk) \<Rightarrow> bool" where
  "serves st M \<longleftrightarrow> (\<forall>w. fst (st_Rebase st w) = Inr ()) \<and>
     (\<forall>hs w. distinct hs \<longrightarrow> (\<exists>absent w'. st_HasMany st hs w = (Inr absent, w') \<and> distinct absent \<and> set absent = set hs - dom M)) \<and>
     (\<forall>h c w. M h = Some c \<longrightarrow> fst (st_Get st h w) = Inr c)"

definition parse_laws :: "'w server_lib \<Rightarrow> bool" where
  "parse_laws SL \<longleftrightarrow> range_ok (sl_it SL) \<and>
     (\<forall>hs. distinct hs \<longrightarrow> distinct (fst (sl_ParseByteSlices SL hs)) \<and> set (fst (sl_ParseByteSlices SL hs)) = set hs \<and>
        (\<forall>k < length hs. map_of (snd (sl_ParseByteSlices SL hs)) (hs ! k) = Some k))"

definition codec_laws :: "('q, 'h) chunk_lib \<Rightarrow> 'w server_lib \<Rightarrow> (Hash \<rightharpoonup> Chunk) \<Rightarrow> bool" where
  "codec_laws L SL M \<longleftrightarrow>
     (\<forall>h c. M h = Some c \<longrightarrow> sl_Parse SL (lib_String L h) = Some h \<and> lib_String L h \<noteq> '''' \<and> sl_Compress SL c \<noteq> [] \<and>
        (\<exists>cc. lib_NewCompressedChunk L h (sl_Compress SL c) = Inr cc \<and> \<not> tc_IsEmpty cc \<and> tc_ToChunk cc = Inr c))"

lemma validate_from_ok: "list_all (\<lambda>bs. length bs = n) hs \<Longrightarrow> validate_from n field i hs = Inr ()"
  by (induction hs arbitrary: i) auto

lemma connected_honest_has:
  assumes st: "serves (srv_store s) M" and SL: "parse_laws SL" and rpath: "rpath \<noteq> ''''"
  shows "honest_has (chunkStoreClient (connect SL s)) rpath {h. length h = sl_ByteLen SL} (dom M)"
  unfolding honest_has_def
proof (intro allI impI, elim conjE)
  fix hs :: "Hash list" and w assume hs: "distinct hs" "set hs \<subseteq> {h. length h = sl_ByteLen SL}" "length hs \<le> nat maxHasManyBatchSize"
  obtain H ix where p: "sl_ParseByteSlices SL hs = (H, ix)" by (rule prod.exhaust)
  have H: "distinct H" "set H = set hs" and ix: "\<And>k. k < length hs \<Longrightarrow> map_of ix (hs ! k) = Some k"
    using SL hs(1) p unfolding parse_laws_def by (metis fst_conv, metis fst_conv, metis snd_conv)
  obtain w1 where w1: "st_Rebase (srv_store s) w = (Inr (), w1)"
    using st unfolding serves_def by (metis prod.collapse)
  obtain absent w2 where a: "st_HasMany (srv_store s) H w1 = (Inr absent, w2)" "distinct absent" "set absent = set hs - dom M"
    using st H unfolding serves_def by metis
  let ?at = "\<lambda>h. case map_of ix h of None \<Rightarrow> 0 | Some i \<Rightarrow> i"
  let ?js = "map (\<lambda>h. word_of_nat (?at h) :: int32) (sl_it SL absent)"
  have it: "set (sl_it SL absent) = set absent" "distinct (sl_it SL absent)"
    using SL a(2) by (simp_all add: parse_laws_def range_ok_set range_ok_distinct)
  have "list_all (\<lambda>bs. length bs = sl_ByteLen SL) hs" using hs(2) by (auto simp: list_all_iff)
  then have call: "cl_HasChunks (chunkStoreClient (connect SL s)) rpath hs w = (Inr ?js, w2)"
    using rpath p w1 a(1) by (simp add: chunkStoreClient_def client_HasChunks_def connect_def HasChunks_def validateRepoRequest_def
      validateHashes_def validate_from_ok rebased_def)
  have at: "sint (word_of_nat (?at (hs ! k)) :: int32) = int k" if "k < length hs" for k
    using that ix hs(3) by (simp add: sint_index)
  have absent: "set absent = {hs ! k | k. k < length hs \<and> hs ! k \<notin> dom M}" using a(3) by (auto simp: in_set_conv_nth)
  have "inj_on (\<lambda>h. word_of_nat (?at h) :: int32) (set absent)"
  proof (rule inj_onI)
    fix x y assume xy: "x \<in> set absent" "y \<in> set absent" and eq: "(word_of_nat (?at x) :: int32) = word_of_nat (?at y)"
    obtain j k where jk: "x = hs ! j" "j < length hs" "y = hs ! k" "k < length hs" using xy absent by blast
    then have "int j = int k" using at eq by metis
    then show "x = y" using jk by simp
  qed
  then have "distinct ?js" using it by (simp add: distinct_map)
  moreover have "sint ` set ?js = {int k | k. k < length hs \<and> hs ! k \<notin> dom M}"
  proof -
    have "(\<lambda>h. sint (word_of_nat (?at h) :: int32)) ` {hs ! k | k. k \<in> K} = int ` K" if "K \<subseteq> {..<length hs}" for K
      using that at by (auto simp: image_iff) (metis lessThan_iff subsetD)+
    from this [of "{k. k < length hs \<and> hs ! k \<notin> dom M}"] show ?thesis
      unfolding set_map it(1) absent image_image by (simp add: setcompr_eq_image subset_iff)
  qed
  ultimately show "\<exists>js w'. cl_HasChunks (chunkStoreClient (connect SL s)) rpath hs w = (Inr js, w') \<and> distinct js \<and>
      sint ` set js = {int k | k. k < length hs \<and> hs ! k \<notin> dom M}"
    using call by blast
qed

text \<open>
  C16: presence checks are exact end to end. The remote chunk store asks a connected server
  about any set of hashes of the right length, in any number of batches; with a cache that
  remembers only chunks of the server, the call succeeds and returns exactly the hashes that the store of
  the server does not have, and the cache still remembers only chunks of the server.
\<close>

theorem wire_HasMany_exact:
  assumes "lru_laws L Q H" "hash_laws L" "serves (srv_store s) M" "parse_laws SL"
    and "chunkClient rcs = chunkStoreClient (connect SL s)" "rcs_repoPath rcs \<noteq> ''''"
    and "H (cc_has (net_cache n)) \<subseteq> dom M" "distinct hashes" "\<forall>h \<in> set hashes. length h = sl_ByteLen SL"
  shows "\<exists>absent n'. HasMany L rcs hashes n = (Inr absent, n') \<and> distinct absent \<and> set absent = set hashes - dom M \<and>
    H (cc_has (net_cache n')) \<subseteq> dom M"
proof (rule HasMany_exact [OF assms(1,2) _ assms(7,8)])
  show "honest_has (chunkClient rcs) (rcs_repoPath rcs) {h. length h = sl_ByteLen SL} (dom M)"
    using connected_honest_has [OF assms(3,4,6)] assms(5) by simp
qed (use assms(9) in auto)

abbreviation sample_chunks :: "Hash \<rightharpoonup> Chunk" where
  "sample_chunks \<equiv> [''a'' \<mapsto> sample_chunk]"

lemma sample_serves: "serves (srv_store sample_server) sample_chunks"
  by (auto simp: serves_def sample_server_def)

lemma sample_parse_laws: "parse_laws sample_slib"
  by (simp add: parse_laws_def sample_slib_def range_ok_id map_of_zip_nth)

lemma sample_codec_laws: "codec_laws sample_lib sample_slib sample_chunks"
  by (simp add: codec_laws_def sample_lib_def sample_slib_def sample_chunk_def)

theorem wire_HasMany_exact_witness:
  "\<exists>absent n'. HasMany sample_lib connected_store [''a'', ''b''] empty_net = (Inr absent, n') \<and> set absent = {''b''}"
proof -
  have "rcs_repoPath connected_store \<noteq> ''''" by code_simp
  then show ?thesis
    using wire_HasMany_exact [OF sample_lru_laws sample_hash_laws sample_serves sample_parse_laws, of connected_store empty_net "[''a'', ''b'']"]
    by (auto simp: empty_net_def connected_store_def sample_slib_def)
qed

text \<open>The chunks of the server as the client decodes them.\<close>

definition decoded :: "('q, 'h) chunk_lib \<Rightarrow> 'w server_lib \<Rightarrow> (Hash \<rightharpoonup> Chunk) \<Rightarrow> Hash \<rightharpoonup> ToChunker" where
  "decoded L SL M h =
     (case M h of
        None \<Rightarrow> None
      | Some c \<Rightarrow> (case lib_NewCompressedChunk L h (sl_Compress SL c) of Inl err \<Rightarrow> None | Inr cc \<Rightarrow> Some cc))"

lemma decodedD:
  assumes "codec_laws L SL M" "M h = Some c"
  obtains cc where "decoded L SL M h = Some cc" "lib_NewCompressedChunk L h (sl_Compress SL c) = Inr cc"
    "tc_ToChunk cc = Inr c" "\<not> tc_IsEmpty cc" "sl_Compress SL c \<noteq> []"
  using assms unfolding codec_laws_def decoded_def by fastforce

lemma decoded_dom: "decoded L SL M h = Some cc \<Longrightarrow> \<exists>c. M h = Some c \<and> lib_NewCompressedChunk L h (sl_Compress SL c) = Inr cc"
  by (auto simp: decoded_def split: option.splits sum.splits)

lemma decoded_store_ok: "hash_laws L \<Longrightarrow> codec_laws L SL M \<Longrightarrow> store_ok (decoded L SL M)"
  unfolding store_ok_def by (metis decoded_dom decodedD hash_laws_def option.inject)

lemma send_chunks_exact:
  assumes "serves st M" "codec_laws L SL M" "set hs \<subseteq> dom M"
  shows "\<exists>w'. send_chunks SL st (\<lambda>_. None) i (map (lib_String L) hs) w =
    (map (\<lambda>h. (lib_String L h, sl_Compress SL (the (M h)))) hs, None, w')"
  using assms(3)
proof (induction hs arbitrary: i w)
  case Nil
  then show ?case by simp
next
  case (Cons h hs)
  then obtain c where c: "M h = Some c" by auto
  then obtain w1 where w1: "st_Get st h w = (Inr c, w1)" using assms(1) unfolding serves_def by (metis prod.collapse)
  obtain w2 where w2: "send_chunks SL st (\<lambda>_. None) (Suc i) (map (lib_String L) hs) w1 =
      (map (\<lambda>h. (lib_String L h, sl_Compress SL (the (M h)))) hs, None, w2)"
    using Cons.IH [of "Suc i" w1] Cons.prems by auto
  have "sl_Parse SL (lib_String L h) = Some h" using assms(2) c by (simp add: codec_laws_def)
  then show ?case using c w1 w2 by simp
qed

lemma connected_honest_download:
  assumes "serves (srv_store s) M" "codec_laws L SL M"
  shows "honest_download L (downloaderClient (connect SL s)) (decoded L SL M) (dom M)"
  unfolding honest_download_def
proof (intro allI impI, elim conjE)
  fix hs w assume hs: "hs \<noteq> []" "set hs \<subseteq> dom M"
  let ?calls = "map (\<lambda>h. (lib_String L h, sl_Compress SL (the (M h)))) hs"
  obtain w1 where w1: "st_Rebase (srv_store s) w = (Inr (), w1)" using assms(1) unfolding serves_def by (metis prod.collapse)
  obtain w2 where w2: "send_chunks SL (srv_store s) (\<lambda>_. None) 0 (map (lib_String L) hs) w1 = (?calls, None, w2)"
    using send_chunks_exact [OF assms hs(2)] by blast
  have full: "lib_String L h \<noteq> '''' \<and> sl_Compress SL (the (M h)) \<noteq> []" if "h \<in> set hs" for h
    using that hs(2) assms(2) unfolding codec_laws_def by force
  then have "filter (\<lambda>(h, b). \<not> (h = '''' \<or> b = [])) ?calls = ?calls" by (auto simp: filter_id_conv)
  then have "dl_DownloadChunks (downloaderClient (connect SL s)) (map (lib_String L) hs) w = (?calls, None, w2)"
    using hs(1) w1 w2 by (simp add: downloaderClient_def client_DownloadChunks_def connect_def Srv_DownloadChunks_def)
  moreover have "honest_calls L (decoded L SL M) hs ?calls"
  proof -
    have "\<exists>cc. decoded L SL M h = Some cc \<and> lib_NewCompressedChunk L h (sl_Compress SL (the (M h))) = Inr cc" if "h \<in> set hs" for h
      using that hs(2) by (metis decodedD [OF assms(2)] domD option.sel subsetD)
    then show ?thesis using full unfolding honest_calls_def by (auto simp: image_iff)
  qed
  ultimately show "\<exists>calls w'. dl_DownloadChunks (downloaderClient (connect SL s)) (map (lib_String L) hs) w = (calls, None, w') \<and>
      honest_calls L (decoded L SL M) hs calls"
    by blast
qed

lemma decode_found_all:
  assumes "\<forall>cc \<in> set ccs. tc_ToChunk cc = Inr (f cc)"
  shows "decode_found ccs = (map f ccs, None)"
  using assms by (induction ccs) auto



text \<open>
  The server joins the identifier of a request to the path of its store without a check: an
  identifier with \<open>..\<close> elements names a file outside the store directory.
\<close>

theorem DownloadFile_escapes:
  assumes "read_law SL" "srv_filePath s = ''/data/db''" "sl_Stat SL ''/data/key'' w = Inr n" "sl_OpenFile SL ''/data/key'' w = Inr content"
  shows "\<exists>md msgs. Srv_DownloadFile SL s None (\<lambda>_. None) ''../../../key'' w = (Some md, msgs, None) \<and> concat msgs = content"
proof -
  have "filepath_Join [''/data/db'', ''.dolt'', ''noms'', ''../../../key''] = ''/data/key''" by code_simp
  moreover obtain msgs where "send_file (Suc (length content)) SL (\<lambda>_. None) 0 downloadChunkSize content = (msgs, None)" "concat msgs = content"
    using send_file_exact [OF assms(1), of content "Suc (length content)" downloadChunkSize 0] by (auto simp: downloadChunkSize_def)
  ultimately show ?thesis using assms(2-4) by (simp add: Srv_DownloadFile_def del: send_file.simps)
qed

section \<open>Providers are taken in turn\<close>

text \<open>\<open>n\<close> picks from the same snapshot of connections.\<close>

fun picks :: "((string \<times> 'c) list \<Rightarrow> (string \<times> 'c) list) \<Rightarrow> (string \<times> 'c) list \<Rightarrow> nat \<Rightarrow> Providers \<Rightarrow> (string \<times> 'c) result list" where
  "picks it conns 0 p = []"
| "picks it conns (Suc n) p = (case PickProvider it (Some conns) None p of (r, t, p') \<Rightarrow> r # picks it conns n p')"

lemma picks_in_turn:
  assumes "conns \<noteq> []" "unat (rr p) + n < 2 ^ 64" "ids = sort_slice (<) (map fst (it conns))"
  shows "picks it conns n p = map (\<lambda>j. let i = ids ! ((unat (rr p) + j) mod length ids) in Inr (i, the (map_of conns i))) [0..<n]"
  using assms(2)
proof (induction n arbitrary: p)
  case 0
  then show ?case by simp
next
  case (Suc n)
  have rr: "unat (rr p + 1) = Suc (unat (rr p))"
    using Suc.prems unat_add_lem [of "rr p" 1] by simp
  obtain p' where p': "PickProvider it (Some conns) None p =
      (Inr (ids ! (unat (rr p) mod length ids), the (map_of conns (ids ! (unat (rr p) mod length ids)))), None, p')" "rr p' = rr p + 1"
    using assms(1,3) by (simp add: PickProvider_def Let_def)
  have "[0..<Suc n] = 0 # map Suc [0..<n]" by (simp add: upt_conv_Cons map_Suc_upt)
  then show ?case using Suc.IH [of p'] Suc.prems p' rr by (simp add: Let_def)
qed

lemma turn_inj: "inj_on (\<lambda>j. (r + j) mod n) {..<n :: nat}"
proof (rule linorder_inj_onI')
  fix i j assume ij: "i \<in> {..<n}" "j \<in> {..<n}" "i < j"
  then have "\<not> n dvd (j - i)" by (auto dest: dvd_imp_le)
  then show "(r + i) mod n \<noteq> (r + j) mod n"
    using ij mod_eq_dvd_iff_nat [of "r + i" "r + j" n] by (simp add: eq_commute)
qed

text \<open>
  C28: the picker is fair. While the snapshot of connections does not change and the counter
  does not wrap around, as many picks in a row as there are providers take each of them
  exactly once, with the connection of that peer, in whatever order the map is ranged over.
\<close>

theorem PickProvider_fair:
  assumes "range_ok it" "distinct (map fst conns)" "conns \<noteq> []" "unat (rr p) + length conns < 2 ^ 64"
  shows "distinct (picks it conns (length conns) p) \<and> set (picks it conns (length conns) p) = Inr ` set conns"
proof -
  let ?ids = "sort_slice (<) (map fst (it conns))" and ?n = "length conns" and ?g = "\<lambda>i. Inr (i, the (map_of conns i))"
  let ?at = "\<lambda>j. (unat (rr p) + j) mod ?n"
  have it: "mset (it conns) = mset conns" using assms(1) by (rule range_okD)
  then have "length (it conns) = ?n" by (metis size_mset)
  then have n: "length ?ids = ?n" by simp
  have ids: "distinct ?ids" "set ?ids = fst ` set conns"
    using it assms(2) by (metis distinct_sort_slice mset_eq_imp_distinct_iff mset_map, metis mset_eq_setD set_map set_sort_slice)
  have picks: "picks it conns ?n p = map (\<lambda>j. ?g (?ids ! ?at j)) [0..<?n]"
    using picks_in_turn [OF assms(3,4) refl, of it] n by (simp add: Let_def)
  have "?at ` {..<?n} \<subseteq> {..<?n}" using assms(3) by auto
  then have all: "?at ` {..<?n} = {..<?n}" by (intro endo_inj_surj turn_inj) auto
  have inj: "inj_on (\<lambda>j. ?g (?ids ! ?at j)) {..<?n}"
  proof (rule inj_onI)
    fix i j assume ij: "i \<in> {..<?n}" "j \<in> {..<?n}" "?g (?ids ! ?at i) = ?g (?ids ! ?at j)"
    have "?at i < length ?ids" "?at j < length ?ids" using n assms(3) by auto
    then have "?at i = ?at j" using ij(3) ids(1) by (metis (no_types, lifting) Pair_inject nth_eq_iff_index_eq sum.inject(2))
    then show "i = j" using inj_onD [OF turn_inj [of "unat (rr p)" ?n]] ij(1,2) by blast
  qed
  have "set (picks it conns ?n p) = ?g ` ((!) ?ids ` (?at ` {..<?n}))"
    unfolding picks by (simp add: image_image lessThan_atLeast0)
  also have "(!) ?ids ` (?at ` {..<?n}) = fst ` set conns"
    unfolding all using n ids(2) nth_image [of ?n ?ids] by (simp add: lessThan_atLeast0)
  also have "?g ` fst ` set conns = Inr ` set conns" using assms(2) by (force simp: image_iff)
  finally show ?thesis using inj by (simp add: picks distinct_map lessThan_atLeast0)
qed

theorem PickProvider_fair_witness:
  "set (picks (\<lambda>xs. xs) [(''q'', True), (''p'', False)] (Suc (Suc 0)) \<lparr>rr = 5, lastUsed = None\<rparr>) =
    {Inr (''q'', True), Inr (''p'', False)}"
  using PickProvider_fair [OF range_ok_id, of "[(''q'', True), (''p'', False)]" "\<lparr>rr = 5, lastUsed = None\<rparr>"] by (simp del: picks.simps)

end
