(* ===== verification/Peer_Manager.thy ===== *)
theory Peer_Manager
  imports Gossip_Sub Wire
begin

text \<open>
  The peer manager of \<open>integration/p2p/p2p.go\<close>: the known peers with their reject backoff, and the
  gRPC clients, which follow the peers of the gossip topic and are the providers of the
  picker of \<open>Grpc_Swarm\<close>. The libp2p host, the gRPC connections and the clock are parameters.
  A manager exists and has a host, as \<open>NewManagerWithConfig\<close> returns it, so the guards against
  \<open>nil\<close> receivers are left out; each method runs under the mutexes it takes.
\<close>

section \<open>State\<close>

type_synonym pid = string
type_synonym conn = nat

record AddrInfo =
  ai_ID :: pid
  ai_Addrs :: "string list"

record knownPeer =
  kp_info :: AddrInfo
  kp_lastSeen :: Time
  kp_lastAttempt :: Time
  kp_rejectedUntil :: Time
  kp_rejects :: "64 word"
  kp_lastRejectReason :: string
  kp_connected :: bool

record P2PClient =
  pc_id :: string
  pc_conn :: "conn option"

text \<open>
  The methods of the host and of its network, peer store and connection manager. \<open>h_Lock\<close> is the
  wait for the mutex of a peer, during which the network may change; \<open>h_Offer\<close> is the send to
  \<open>peerListChan\<close>, which is dropped if nobody receives.
\<close>

record 'w Host =
  h_ID :: pid
  h_String :: "pid \<Rightarrow> string"
  h_Decode :: "string \<Rightarrow> pid option"
  h_time :: "'w \<Rightarrow> Time \<times> 'w"
  h_Connected :: "pid \<Rightarrow> 'w \<Rightarrow> bool"
  h_Connect :: "AddrInfo \<Rightarrow> 'w \<Rightarrow> unit result \<times> 'w"
  h_ClosePeer :: "pid \<Rightarrow> 'w \<Rightarrow> 'w"
  h_PeerAddrs :: "pid \<Rightarrow> 'w \<Rightarrow> string list"
  h_AddAddrs :: "pid \<Rightarrow> string list \<Rightarrow> 'w \<Rightarrow> 'w"
  h_Protect :: "pid \<Rightarrow> 'w \<Rightarrow> 'w"
  h_Unprotect :: "pid \<Rightarrow> 'w \<Rightarrow> 'w"
  h_Peers :: "'w \<Rightarrow> pid list"
  h_Lock :: "string \<Rightarrow> 'w \<Rightarrow> 'w"
  h_Offer :: "pid list \<Rightarrow> 'w \<Rightarrow> 'w"
  h_Dial :: "string \<Rightarrow> 'w \<Rightarrow> conn result \<times> 'w"
  h_Ping :: "conn \<Rightarrow> 'w \<Rightarrow> unit result \<times> 'w"
  h_CloseConn :: "conn \<Rightarrow> 'w \<Rightarrow> 'w"

record 'w P2P =
  net :: 'w
  clients :: "(string \<times> P2PClient) list"
  bootstrapPeers :: "string list"
  shuttingDown :: bool
  rejectBackoff :: int64
  rejectBackoffMax :: int64
  knownPeers :: "(string \<times> knownPeer) list"
  p2p_gossip :: "(unit, 'w) GossipSubGossip option"

definition on_net :: "('w \<Rightarrow> 'w) \<Rightarrow> 'w P2P \<Rightarrow> 'w P2P" where
  "on_net f s = s\<lparr>net := f (net s)\<rparr>"

definition p2p_now :: "'w Host \<Rightarrow> 'w P2P \<Rightarrow> Time \<times> 'w P2P" where
  "p2p_now H s = (case h_time H (net s) of (t, w) \<Rightarrow> (t, s\<lparr>net := w\<rparr>))"

section \<open>Configuration\<close>

definition defaultRejectBackoff :: int64 where
  "defaultRejectBackoff = 30 * 1000000000"

definition defaultRejectBackoffMax :: int64 where
  "defaultRejectBackoffMax = 5 * 60 * 1000000000"

record P2PConfig =
  pcfg_Port :: int
  pcfg_ListenAddr :: string
  pcfg_BootstrapPeers :: "string list"
  pcfg_RejectBackoff :: int64
  pcfg_RejectBackoffMax :: int64

text \<open>
  \<open>newHost\<close> is the construction of the connection manager and of the host, for the address to
  listen on.
\<close>

definition NewManagerWithConfig :: "(string \<Rightarrow> 'w \<Rightarrow> unit result \<times> 'w) \<Rightarrow> P2PConfig \<Rightarrow> 'w \<Rightarrow> 'w P2P result" where
  "NewManagerWithConfig newHost c w =
     (let listenAddr = (if pcfg_ListenAddr c = '''' then ''127.0.0.1'' else pcfg_ListenAddr c);
          backoff = (if pcfg_RejectBackoff c = 0 then defaultRejectBackoff else pcfg_RejectBackoff c);
          backoffMax = (if pcfg_RejectBackoffMax c = 0 then defaultRejectBackoffMax else pcfg_RejectBackoffMax c)
      in case newHost (''/ip4/'' @ listenAddr @ ''/udp/'' @ show_int (pcfg_Port c) @ ''/quic-v1'') w of
           (Inl err, w') \<Rightarrow> Inl (ErrWrap ''failed to setup p2p host'' err)
         | (Inr _, w') \<Rightarrow>
             Inr \<lparr>net = w', clients = [], bootstrapPeers = pcfg_BootstrapPeers c, shuttingDown = False,
               rejectBackoff = backoff, rejectBackoffMax = backoffMax, knownPeers = [], p2p_gossip = None\<rparr>)"

definition NewManager :: "(string \<Rightarrow> 'w \<Rightarrow> unit result \<times> 'w) \<Rightarrow> int \<Rightarrow> 'w \<Rightarrow> 'w P2P result" where
  "NewManager newHost port w =
     NewManagerWithConfig newHost \<lparr>pcfg_Port = port, pcfg_ListenAddr = ''127.0.0.1'', pcfg_BootstrapPeers = [],
       pcfg_RejectBackoff = 0, pcfg_RejectBackoffMax = 0\<rparr> w"

section \<open>Known peers\<close>

definition new_knownPeer :: "AddrInfo \<Rightarrow> knownPeer" where
  "new_knownPeer info = \<lparr>kp_info = info, kp_lastSeen = 0, kp_lastAttempt = 0, kp_rejectedUntil = 0, kp_rejects = 0,
     kp_lastRejectReason = '''', kp_connected = False\<rparr>"

definition recordKnownPeer :: "'w Host \<Rightarrow> AddrInfo \<Rightarrow> 'w P2P \<Rightarrow> 'w P2P" where
  "recordKnownPeer H info s =
     (if ai_ID info = '''' then s
      else let key = h_String H (ai_ID info);
               kp = (case map_of (knownPeers s) key of None \<Rightarrow> new_knownPeer info | Some kp \<Rightarrow> kp)
           in case p2p_now H s of
                (t, s1) \<Rightarrow>
                  (let s2 = s1\<lparr>knownPeers := AList.update key (kp\<lparr>kp_info := info, kp_lastSeen := t\<rparr>) (knownPeers s1)\<rparr>
                   in if ai_Addrs info \<noteq> [] then on_net (h_AddAddrs H (ai_ID info) (ai_Addrs info)) s2 else s2))"

definition setKnownPeerConnected :: "'w Host \<Rightarrow> string \<Rightarrow> bool \<Rightarrow> 'w P2P \<Rightarrow> 'w P2P" where
  "setKnownPeerConnected H pstr isConnected s =
     (if pstr = '''' then s
      else case map_of (knownPeers s) pstr of
        None \<Rightarrow> s
      | Some kp \<Rightarrow>
          if isConnected
          then (case p2p_now H s of
                  (t, s1) \<Rightarrow> s1\<lparr>knownPeers := AList.update pstr (kp\<lparr>kp_connected := True, kp_lastSeen := t\<rparr>) (knownPeers s1)\<rparr>)
          else s\<lparr>knownPeers := AList.update pstr (kp\<lparr>kp_connected := False\<rparr>) (knownPeers s)\<rparr>)"

definition setKnownPeerAttempt :: "'w Host \<Rightarrow> string \<Rightarrow> 'w P2P \<Rightarrow> 'w P2P" where
  "setKnownPeerAttempt H pstr s =
     (if pstr = '''' then s
      else case map_of (knownPeers s) pstr of
        None \<Rightarrow> s
      | Some kp \<Rightarrow>
          (case p2p_now H s of
             (t, s1) \<Rightarrow> s1\<lparr>knownPeers := AList.update pstr (kp\<lparr>kp_lastAttempt := t\<rparr>) (knownPeers s1)\<rparr>))"

text \<open>The counter is an \<open>int\<close> of 64 bits; the shift and the product wrap around.\<close>

definition backoff_for :: "'w P2P \<Rightarrow> 64 word \<Rightarrow> int64" where
  "backoff_for s rejects =
     (let backoff = (if 1 < sint rejects then rejectBackoff s * push_bit (unat (rejects - 1)) 1 else rejectBackoff s)
      in if sint (rejectBackoffMax s) < sint backoff then rejectBackoffMax s else backoff)"

definition markRejected :: "'w Host \<Rightarrow> string \<Rightarrow> string \<Rightarrow> 'w P2P \<Rightarrow> 'w P2P" where
  "markRejected H pstr reason s =
     (if pstr = '''' then s
      else let kp = (case map_of (knownPeers s) pstr of
                       None \<Rightarrow> new_knownPeer \<lparr>ai_ID = (case h_Decode H pstr of None \<Rightarrow> '''' | Some p \<Rightarrow> p), ai_Addrs = []\<rparr>
                     | Some kp \<Rightarrow> kp);
               rejects = kp_rejects kp + 1
           in case p2p_now H s of
                (t, s1) \<Rightarrow> s1\<lparr>knownPeers := AList.update pstr
                  (kp\<lparr>kp_rejects := rejects, kp_rejectedUntil := t + sint (backoff_for s rejects),
                      kp_lastRejectReason := reason, kp_connected := False\<rparr>) (knownPeers s1)\<rparr>)"

definition isRejected :: "'w Host \<Rightarrow> string \<Rightarrow> 'w P2P \<Rightarrow> bool \<times> 'w P2P" where
  "isRejected H pstr s =
     (if pstr = '''' then (False, s)
      else case map_of (knownPeers s) pstr of
        None \<Rightarrow> (False, s)
      | Some kp \<Rightarrow>
          if Time_IsZero (kp_rejectedUntil kp) then (False, s)
          else (case p2p_now H s of (t, s1) \<Rightarrow> (t < kp_rejectedUntil kp, s1)))"

section \<open>Connections\<close>

definition tryConnectPeer :: "'w Host \<Rightarrow> AddrInfo \<Rightarrow> 'w P2P \<Rightarrow> 'w P2P" where
  "tryConnectPeer H peerInfo s =
     (if ai_ID peerInfo = '''' then s
      else if ai_ID peerInfo = h_ID H then s
      else let peerIDStr = h_String H (ai_ID peerInfo)
           in case isRejected H peerIDStr s of
                (True, s1) \<Rightarrow> s1
              | (False, s1) \<Rightarrow>
                  if h_Connected H (ai_ID peerInfo) (net s1) then setKnownPeerConnected H peerIDStr True s1
                  else let s2 = on_net (h_Lock H peerIDStr) s1
                       in if h_Connected H (ai_ID peerInfo) (net s2) then setKnownPeerConnected H peerIDStr True s2
                          else let s3 = setKnownPeerAttempt H peerIDStr s2
                               in case h_Connect H peerInfo (net s3) of
                                    (Inl err, w) \<Rightarrow> markRejected H peerIDStr ''connect failed'' (s3\<lparr>net := w\<rparr>)
                                  | (Inr _, w) \<Rightarrow> setKnownPeerConnected H peerIDStr True (s3\<lparr>net := w\<rparr>))"

definition client_Close :: "'w Host \<Rightarrow> P2PClient \<Rightarrow> 'w \<Rightarrow> 'w" where
  "client_Close H c w = (case pc_conn c of None \<Rightarrow> w | Some cc \<Rightarrow> h_CloseConn H cc w)"

definition connectRPCPeer :: "'w Host \<Rightarrow> string \<Rightarrow> 'w P2P \<Rightarrow> 'w P2P" where
  "connectRPCPeer H pstr s =
     (if pstr = '''' then s
      else if pstr = h_String H (h_ID H) then s
      else let s0 = on_net (h_Lock H pstr) s
           in if map_of (clients s0) pstr \<noteq> None then s0
              else case isRejected H pstr s0 of
                (True, s1) \<Rightarrow> s1
              | (False, s1) \<Rightarrow>
                  (case h_Decode H pstr of
                     None \<Rightarrow> s1
                   | Some p \<Rightarrow>
                       if \<not> h_Connected H p (net s1) then s1
                       else case h_Dial H pstr (net s1) of
                         (Inl err, w) \<Rightarrow> on_net (h_ClosePeer H p) (markRejected H pstr ''grpc dial failed'' (s1\<lparr>net := w\<rparr>))
                       | (Inr cc, w) \<Rightarrow>
                           (case h_Ping H cc w of
                              (Inl err, w') \<Rightarrow>
                                on_net (h_ClosePeer H p) (markRejected H pstr ''grpc ping failed'' (s1\<lparr>net := h_CloseConn H cc w'\<rparr>))
                            | (Inr _, w') \<Rightarrow>
                                (let s2 = s1\<lparr>net := w', clients := AList.update pstr \<lparr>pc_id = pstr, pc_conn = Some cc\<rparr> (clients s1)\<rparr>;
                                     s3 = setKnownPeerConnected H pstr True (on_net (h_Protect H p) s2)
                                 in on_net (h_Offer H (h_Peers H (net s3))) s3))))"

definition removeRPCPeer :: "'w Host \<Rightarrow> string \<Rightarrow> 'w P2P \<Rightarrow> 'w P2P" where
  "removeRPCPeer H pstr s =
     (if pstr = '''' then s
      else let s1 = (case map_of (clients s) pstr of
                       None \<Rightarrow> s
                     | Some client \<Rightarrow> (on_net (client_Close H client) s)\<lparr>clients := AList.delete pstr (clients s)\<rparr>);
               s2 = (case h_Decode H pstr of None \<Rightarrow> s1 | Some p \<Rightarrow> on_net (h_Unprotect H p) s1)
           in setKnownPeerConnected H pstr False s2)"

definition onGossipPeerJoin :: "'w Host \<Rightarrow> pid \<Rightarrow> 'w P2P \<Rightarrow> 'w P2P" where
  "onGossipPeerJoin H p s =
     (if p = '''' then s
      else if p = h_ID H then s
      else let s1 = recordKnownPeer H \<lparr>ai_ID = p, ai_Addrs = h_PeerAddrs H p (net s)\<rparr> s
           in case isRejected H (h_String H p) s1 of
                (True, s2) \<Rightarrow> on_net (h_ClosePeer H p) s2
              | (False, s2) \<Rightarrow> connectRPCPeer H (h_String H p) s2)"

definition onGossipPeerLeave :: "'w Host \<Rightarrow> pid \<Rightarrow> 'w P2P \<Rightarrow> 'w P2P" where
  "onGossipPeerLeave H p s = (if p = '''' then s else removeRPCPeer H (h_String H p) s)"

text \<open>
  \<open>HandlePeerFound\<close> also says whether the discovery processor received the peer; the channel has no
  buffer, and \<open>receiving\<close> is whether the processor waits for it. \<open>on_discovered\<close> is the body of the
  processor.
\<close>

definition HandlePeerFound :: "'w Host \<Rightarrow> bool \<Rightarrow> AddrInfo \<Rightarrow> 'w P2P \<Rightarrow> bool \<times> 'w P2P" where
  "HandlePeerFound H receiving info s = (receiving, recordKnownPeer H info s)"

definition on_discovered :: "'w Host \<Rightarrow> AddrInfo \<Rightarrow> 'w P2P \<Rightarrow> 'w P2P" where
  "on_discovered H info s =
     (let peerIDStr = h_String H (ai_ID info);
          s1 = tryConnectPeer H info (recordKnownPeer H info s)
      in if peerIDStr \<noteq> '''' then setKnownPeerConnected H peerIDStr (h_Connected H (ai_ID info) (net s1)) s1 else s1)"

definition openConnectionHandler :: "'w Host \<Rightarrow> pid \<Rightarrow> 'w P2P \<Rightarrow> 'w P2P" where
  "openConnectionHandler H p s =
     setKnownPeerConnected H (h_String H p) True (recordKnownPeer H \<lparr>ai_ID = p, ai_Addrs = h_PeerAddrs H p (net s)\<rparr> s)"

definition closeConnectionHandler :: "'w Host \<Rightarrow> pid \<Rightarrow> 'w P2P \<Rightarrow> 'w P2P" where
  "closeConnectionHandler H p s =
     (if shuttingDown s then s
      else let s1 = on_net (h_Offer H (h_Peers H (net s))) s
           in if h_Connected H p (net s1) then s1 else setKnownPeerConnected H (h_String H p) False s1)"

section \<open>Gossip, providers and counts\<close>

text \<open>
  The event handler of the topic is created before the peers of the topic are added; the
  events that follow are those of the step function below.
\<close>

definition startGossipPeerSync :: "'w Host \<Rightarrow> (unit, 'w) GossipSubGossip option \<Rightarrow> 'w P2P \<Rightarrow> 'w P2P" where
  "startGossipPeerSync H gs s =
     (case gs of
        None \<Rightarrow> s
      | Some g \<Rightarrow>
          (case gs_EventHandler gs (net s) of
             (Inl err, w) \<Rightarrow> s\<lparr>net := w\<rparr>
           | (Inr _, w) \<Rightarrow> foldl (\<lambda>s p. onGossipPeerJoin H p s) (s\<lparr>net := w\<rparr>) (gs_ListPeers gs w)))"

definition setGossip :: "'w Host \<Rightarrow> (unit, 'w) GossipSubGossip option \<Rightarrow> 'w P2P \<Rightarrow> 'w P2P" where
  "setGossip H gs s = startGossipPeerSync H gs (s\<lparr>p2p_gossip := gs\<rparr>)"

definition NewGossipSub ::
  "'w Host \<Rightarrow> (unit, 'w) pubsub_lib \<Rightarrow> string \<Rightarrow> 'w P2P \<Rightarrow> (unit, 'w) GossipSubGossip result \<times> 'w P2P" where
  "NewGossipSub H P topic s =
     (case gs_New P topic (net s) of
        (Inl err, w) \<Rightarrow> (Inl err, s\<lparr>net := w\<rparr>)
      | (Inr gs, w) \<Rightarrow> (Inr gs, setGossip H (Some gs) (s\<lparr>net := w\<rparr>)))"

definition GetClients :: "((string \<times> P2PClient) list \<Rightarrow> (string \<times> P2PClient) list) \<Rightarrow> 'w P2P \<Rightarrow> P2PClient list" where
  "GetClients it s = map snd (it (clients s))"

definition IsPeerConnected :: "string \<Rightarrow> 'w P2P \<Rightarrow> bool" where
  "IsPeerConnected pstr s \<longleftrightarrow> (if pstr = '''' then False else map_of (clients s) pstr \<noteq> None)"

definition PeerCounts :: "'w Host \<Rightarrow> 'w P2P \<Rightarrow> nat \<times> nat \<times> nat" where
  "PeerCounts H s = (length (h_Peers H (net s)), length (clients s), length (gs_ListPeers (p2p_gossip s) (net s)))"

definition SnapshotConns :: "((string \<times> P2PClient) list \<Rightarrow> (string \<times> P2PClient) list) \<Rightarrow> 'w P2P \<Rightarrow> (string \<times> conn) list" where
  "SnapshotConns it s =
     foldl (\<lambda>out (k, c). case pc_conn c of None \<Rightarrow> out | Some cc \<Rightarrow> if pc_id c = '''' then out else AList.update (pc_id c) cc out)
       [] (it (clients s))"

text \<open>The part of the stopper that concerns this state.\<close>

definition stop_server :: "'w Host \<Rightarrow> ((string \<times> P2PClient) list \<Rightarrow> (string \<times> P2PClient) list) \<Rightarrow> 'w P2P \<Rightarrow> 'w P2P" where
  "stop_server H it s = foldl (\<lambda>s c. on_net (client_Close H c) s) (s\<lparr>shuttingDown := True\<rparr>) (GetClients it s)"

text \<open>
  \<open>parse\<close> is the parser of bootstrap addresses; the result is what is sent to the discovery
  processor, in order.
\<close>

definition connectToBootstrapPeers :: "(string \<Rightarrow> AddrInfo result) \<Rightarrow> 'w P2P \<Rightarrow> AddrInfo list" where
  "connectToBootstrapPeers parse s =
     List.map_filter (\<lambda>a. case parse a of Inl err \<Rightarrow> None | Inr info \<Rightarrow> Some info) (bootstrapPeers s)"

definition is_loopback :: "string \<Rightarrow> bool" where
  "is_loopback a \<longleftrightarrow> str_contains a ''/ip4/127.'' \<or> str_contains a ''/ip6/::1''"

definition GetMultiaddr :: "'w Host \<Rightarrow> string list \<Rightarrow> string" where
  "GetMultiaddr H addrs =
     (case addrs of
        [] \<Rightarrow> ''''
      | a # _ \<Rightarrow>
          (let best = (case List.find (\<lambda>x. \<not> is_loopback x) addrs of None \<Rightarrow> a | Some b \<Rightarrow> b)
           in best @ ''/p2p/'' @ h_String H (h_ID H)))"

section \<open>Events\<close>

text \<open>The calls that the network and the topic make into the manager.\<close>

datatype p2p_event =
    Found bool AddrInfo | Discovered AddrInfo | Joined pid | Left pid | Opened pid | Closed pid

fun p2p_step :: "'w Host \<Rightarrow> p2p_event \<Rightarrow> 'w P2P \<Rightarrow> 'w P2P" where
  "p2p_step H (Found b info) s = snd (HandlePeerFound H b info s)"
| "p2p_step H (Discovered info) s = on_discovered H info s"
| "p2p_step H (Joined p) s = onGossipPeerJoin H p s"
| "p2p_step H (Left p) s = onGossipPeerLeave H p s"
| "p2p_step H (Opened p) s = openConnectionHandler H p s"
| "p2p_step H (Closed p) s = closeConnectionHandler H p s"

definition p2p_run :: "'w Host \<Rightarrow> p2p_event list \<Rightarrow> 'w P2P \<Rightarrow> 'w P2P" where
  "p2p_run H es s = foldl (\<lambda>s e. p2p_step H e s) s es"

text \<open>Whether the last of the events of the topic about a peer is that it joined.\<close>

definition member_step :: "'w Host \<Rightarrow> string \<Rightarrow> bool \<Rightarrow> p2p_event \<Rightarrow> bool" where
  "member_step H i m e = (case e of
     Joined p \<Rightarrow> m \<or> (p \<noteq> '''' \<and> h_String H p = i)
   | Left p \<Rightarrow> m \<and> (p = '''' \<or> h_String H p \<noteq> i)
   | _ \<Rightarrow> m)"

definition topic_member :: "'w Host \<Rightarrow> p2p_event list \<Rightarrow> string \<Rightarrow> bool" where
  "topic_member H es i = foldl (member_step H i) False es"

section \<open>Who is a provider\<close>

lemma clients_on_net [simp]: "clients (on_net f s) = clients s"
  by (simp add: on_net_def)

lemma clients_now [simp]: "clients (snd (p2p_now H s)) = clients s"
  by (simp add: p2p_now_def split: prod.splits)

lemma p2p_now_cases: obtains t w where "p2p_now H s = (t, s\<lparr>net := w\<rparr>)" "h_time H (net s) = (t, w)"
  by (cases "h_time H (net s)") (simp add: p2p_now_def)

lemma clients_known [simp]:
  "clients (recordKnownPeer H info s) = clients s"
  "clients (setKnownPeerConnected H i b s) = clients s"
  "clients (setKnownPeerAttempt H i s) = clients s"
  "clients (markRejected H i r s) = clients s"
  "clients (snd (isRejected H i s)) = clients s"
  by (auto simp: recordKnownPeer_def setKnownPeerConnected_def setKnownPeerAttempt_def markRejected_def isRejected_def
      Let_def p2p_now_def split: prod.splits option.splits)

lemma isRejected_clients: "isRejected H i s = (b, s') \<Longrightarrow> clients s' = clients s"
  using clients_known(5) [of H i s] by simp

lemma clients_tryConnectPeer [simp]: "clients (tryConnectPeer H info s) = clients s"
proof -
  obtain b s1 where r: "isRejected H (h_String H (ai_ID info)) s = (b, s1)" by (rule prod.exhaust)
  then show ?thesis
    using isRejected_clients [OF r] by (cases b) (simp_all add: tryConnectPeer_def Let_def split: prod.splits sum.splits)
qed

lemma clients_connectRPCPeer:
  "clients (connectRPCPeer H i s) = clients s \<or>
   (i \<noteq> '''' \<and> i \<noteq> h_String H (h_ID H) \<and> (\<exists>cc. clients (connectRPCPeer H i s) = AList.update i \<lparr>pc_id = i, pc_conn = Some cc\<rparr> (clients s)))"
proof -
  obtain b s1 where r: "isRejected H i (on_net (h_Lock H i) s) = (b, s1)" by (rule prod.exhaust)
  have "clients s1 = clients s" using isRejected_clients [OF r] by simp
  then show ?thesis
    using r by (cases b) (auto simp: connectRPCPeer_def Let_def split: prod.splits sum.splits option.splits)
qed

lemma clients_removeRPCPeer:
  "clients (removeRPCPeer H i s) = (if i = '''' then clients s else AList.delete i (clients s))"
proof -
  have "AList.delete i (clients s) = clients s" if "map_of (clients s) i = None"
    using that by (intro delete_id) (simp add: map_of_eq_None_iff)
  then show ?thesis by (auto simp: removeRPCPeer_def Let_def split: option.splits)
qed

lemma clients_onGossipPeerJoin:
  "clients (onGossipPeerJoin H p s) = clients s \<or>
   (p \<noteq> '''' \<and> h_String H p \<noteq> '''' \<and> h_String H p \<noteq> h_String H (h_ID H) \<and>
    (\<exists>cc. clients (onGossipPeerJoin H p s) = AList.update (h_String H p) \<lparr>pc_id = h_String H p, pc_conn = Some cc\<rparr> (clients s)))"
proof -
  let ?s = "recordKnownPeer H \<lparr>ai_ID = p, ai_Addrs = h_PeerAddrs H p (net s)\<rparr> s"
  obtain b s2 where r: "isRejected H (h_String H p) ?s = (b, s2)" by (rule prod.exhaust)
  have s2: "clients s2 = clients s" using isRejected_clients [OF r] by simp
  show ?thesis
    using r s2 clients_connectRPCPeer [of H "h_String H p" s2] by (cases b) (auto simp: onGossipPeerJoin_def Let_def)
qed

text \<open>
  The invariant of the clients after the events \<open>es\<close>: each is stored under its own name, has a
  connection, is not the host itself, and is a peer of the topic.
\<close>

definition clients_ok :: "'w Host \<Rightarrow> p2p_event list \<Rightarrow> 'w P2P \<Rightarrow> bool" where
  "clients_ok H es s \<longleftrightarrow> map_wf (clients s) \<and>
     (\<forall>i c. map_of (clients s) i = Some c \<longrightarrow>
        pc_id c = i \<and> i \<noteq> '''' \<and> i \<noteq> h_String H (h_ID H) \<and> pc_conn c \<noteq> None \<and> topic_member H es i)"

lemma map_wf_delete [simp]: "map_wf m \<Longrightarrow> map_wf (AList.delete k m)"
  by (simp add: map_wf_def distinct_delete)

lemma member_snoc: "topic_member H (es @ [e]) i = member_step H i (topic_member H es i) e"
  by (simp add: topic_member_def)

lemma clients_step:
  assumes "clients_ok H es s"
  shows "clients_ok H (es @ [e]) (p2p_step H e s)"
proof (cases e)
  case (Joined p)
  let ?i = "h_String H p"
  have keep: "topic_member H es j \<Longrightarrow> topic_member H (es @ [e]) j" for j using Joined by (simp add: member_snoc member_step_def)
  from clients_onGossipPeerJoin [of H p s] show ?thesis
  proof (elim disjE conjE exE)
    assume "clients (onGossipPeerJoin H p s) = clients s"
    then show ?thesis using assms keep Joined by (auto simp: clients_ok_def)
  next
    fix cc assume p: "p \<noteq> ''''" "?i \<noteq> ''''" "?i \<noteq> h_String H (h_ID H)"
      and new: "clients (onGossipPeerJoin H p s) = AList.update ?i \<lparr>pc_id = ?i, pc_conn = Some cc\<rparr> (clients s)"
    have "topic_member H (es @ [e]) ?i" using Joined p(1) by (simp add: member_snoc member_step_def)
    then show ?thesis using assms keep Joined p(2,3) by (auto simp: clients_ok_def new split: if_splits)
  qed
next
  case (Left p)
  then show ?thesis
    using assms by (auto simp: clients_ok_def onGossipPeerLeave_def clients_removeRPCPeer member_snoc member_step_def
      delete_conv' split: if_splits)
qed (use assms in \<open>auto simp: clients_ok_def member_snoc member_step_def HandlePeerFound_def on_discovered_def Let_def
      openConnectionHandler_def closeConnectionHandler_def\<close>)

lemma clients_run: "clients s = [] \<Longrightarrow> clients_ok H es (p2p_run H es s)"
proof (induction es rule: rev_induct)
  case Nil
  then show ?case by (simp add: clients_ok_def p2p_run_def)
next
  case (snoc e es)
  then show ?case using clients_step [of H es "p2p_run H es s" e] by (simp add: p2p_run_def)
qed

lemma snapshot_fold:
  assumes "distinct (map fst xs)" "\<forall>(i, c) \<in> set xs. pc_id c = i \<and> i \<noteq> '''' \<and> pc_conn c \<noteq> None"
  shows "map_of (foldl (\<lambda>out (k, c). case pc_conn c of None \<Rightarrow> out | Some cc \<Rightarrow> if pc_id c = '''' then out else AList.update (pc_id c) cc out) out xs) i =
    (case map_of xs i of None \<Rightarrow> map_of out i | Some c \<Rightarrow> pc_conn c)"
  using assms
proof (induction xs arbitrary: out)
  case Nil
  then show ?case by simp
next
  case (Cons x xs)
  obtain k c where x: "x = (k, c)" by (rule prod.exhaust)
  then obtain cc where c: "pc_id c = k" "k \<noteq> ''''" "pc_conn c = Some cc" using Cons.prems(2) by auto
  have "map_of xs k = None" using Cons.prems(1) x by (simp add: map_of_eq_None_iff)
  then show ?case using Cons.IH [of "AList.update k cc out"] Cons.prems x c by (simp split: option.splits)
qed

lemma SnapshotConns_lookup:
  assumes "clients_ok H es s" "range_ok it"
  shows "map_of (SnapshotConns it s) i = (case map_of (clients s) i of None \<Rightarrow> None | Some c \<Rightarrow> pc_conn c)"
proof -
  have wf: "map_wf (clients s)" using assms(1) by (simp add: clients_ok_def)
  have m: "mset (it (clients s)) = mset (clients s)" using assms(2) by (rule range_okD)
  then have d: "distinct (map fst (it (clients s)))" "set (it (clients s)) = set (clients s)"
    using wf unfolding map_wf_def by (metis mset_eq_imp_distinct_iff mset_map, metis mset_eq_setD)
  then have "map_of (it (clients s)) = map_of (clients s)"
    using wf by (intro map_of_inject_set [THEN iffD2]) (simp_all add: map_wf_def)
  moreover have "\<forall>(i, c) \<in> set (it (clients s)). pc_id c = i \<and> i \<noteq> '''' \<and> pc_conn c \<noteq> None"
    using assms(1) d(2) map_wf_lookup [OF wf] by (auto simp: clients_ok_def)
  ultimately show ?thesis using snapshot_fold [OF d(1), of "[]" i] by (simp add: SnapshotConns_def split: option.splits)
qed

lemma PickProvider_from:
  assumes "PickProvider it (Some conns) tr p = (Inr (i, cc), tr', p')" "range_ok it"
  shows "map_of conns i = Some cc"
proof -
  have ne: "conns \<noteq> []" using assms(1) by (auto simp: PickProvider_def)
  let ?ids = "sort_slice (<) (map fst (it conns))"
  have "length (it conns) = length conns" using range_okD [OF assms(2)] by (metis size_mset)
  then have "?ids ! (unat (rr p) mod length ?ids) \<in> set ?ids" using ne by (intro nth_mem) simp
  then have "i \<in> fst ` set conns" using assms ne by (auto simp: PickProvider_def Let_def range_ok_set)
  then have "map_of conns i \<noteq> None" by (simp add: map_of_eq_None_iff)
  then show ?thesis using assms(1) ne by (auto simp: PickProvider_def Let_def)
qed

text \<open>
  C19: data is fetched from peers of the topic only. After any sequence of discoveries,
  connections, joins and leaves since the manager was created, whichever provider is picked
  from the snapshot of its connections is a peer other than the host itself whose last event
  on the gossip topic is that it joined; it is one that \<open>IsPeerConnected\<close> reports.
\<close>

theorem picked_provider_joined:
  assumes "NewManagerWithConfig newHost c w = Inr s0" "range_ok it" "range_ok it'"
    and "PickProvider it' (Some (SnapshotConns it (p2p_run H es s0))) tr p = (Inr (i, cc), tr', p')"
  shows "topic_member H es i \<and> i \<noteq> h_String H (h_ID H) \<and> IsPeerConnected i (p2p_run H es s0)"
proof -
  have "clients s0 = []" using assms(1) by (auto simp: NewManagerWithConfig_def Let_def split: prod.splits sum.splits)
  then have ok: "clients_ok H es (p2p_run H es s0)" by (rule clients_run)
  have "map_of (SnapshotConns it (p2p_run H es s0)) i = Some cc" by (rule PickProvider_from [OF assms(4,3)])
  then obtain client where "map_of (clients (p2p_run H es s0)) i = Some client"
    using SnapshotConns_lookup [OF ok assms(2), of i] by (cases "map_of (clients (p2p_run H es s0)) i") auto
  then show ?thesis using ok by (auto simp: clients_ok_def IsPeerConnected_def)
qed

section \<open>Backing off\<close>

definition reject_count :: "'w P2P \<Rightarrow> string \<Rightarrow> 64 word" where
  "reject_count s i = (case map_of (knownPeers s) i of None \<Rightarrow> 0 | Some kp \<Rightarrow> kp_rejects kp)"

lemma backoff_for_exact:
  assumes "0 < sint (rejectBackoff s)" "sint (rejectBackoff s) * 2 ^ k < 2 ^ 63"
  shows "sint (backoff_for s (word_of_nat (Suc k))) = min (sint (rejectBackoff s) * 2 ^ k) (sint (rejectBackoffMax s))"
proof -
  let ?b = "rejectBackoff s"
  have "(2 :: int) ^ k \<le> sint ?b * 2 ^ k" using assms(1) by simp
  then have "(2 :: int) ^ k < 2 ^ 63" using assms(2) by linarith
  then have k: "k < 63" by (rule power_less_imp_less_exp [rotated]) simp
  have "word_of_nat (Suc k) - 1 = (word_of_nat k :: 64 word)" by simp
  moreover have "unat (word_of_nat k :: 64 word) = k" using k less_trans [OF less_exp [of k] power_strict_increasing [of k 64 "2 :: nat"]]
    by (simp add: unsigned_of_nat take_bit_nat_eq_self)
  moreover have "sint (word_of_nat (Suc k) :: 64 word) = int (Suc k)"
    using k sint_of_int64 [of "int (Suc k)"] by simp
  moreover have "sint (?b * 2 ^ k) = sint ?b * 2 ^ k"
  proof -
    have "- (2 ^ 63) \<le> sint ?b * 2 ^ k" using assms(1) by (smt (verit) zero_le_mult_iff zero_le_power)
    from sint_of_int64 [OF this assms(2)] show ?thesis by simp
  qed
  ultimately show ?thesis
    by (cases "k = 0") (auto simp: backoff_for_def Let_def push_bit_eq_mult min_def)
qed


text \<open>
  A host of which the peer \<open>''q''\<close> is connected and answers, while \<open>''x''\<close> cannot be reached; the
  world is its clock, which advances by one at each reading.
\<close>

definition sample_host :: "int Host" where
  "sample_host = \<lparr>h_ID = ''me'', h_String = id, h_Decode = Some, h_time = (\<lambda>w. (w, w + 1)), h_Connected = (\<lambda>p w. p = ''q''),
     h_Connect = (\<lambda>info w. (if ai_ID info = ''q'' then Inr () else Inl (ErrText ''unreachable''), w)),
     h_ClosePeer = (\<lambda>p w. w), h_PeerAddrs = (\<lambda>p w. []), h_AddAddrs = (\<lambda>p a w. w), h_Protect = (\<lambda>p w. w), h_Unprotect = (\<lambda>p w. w),
     h_Peers = (\<lambda>w. [''q'']), h_Lock = (\<lambda>i w. w), h_Offer = (\<lambda>ps w. w), h_Dial = (\<lambda>i w. (Inr 7, w)), h_Ping = (\<lambda>c w. (Inr (), w)),
     h_CloseConn = (\<lambda>c w. w)\<rparr>"

definition sample_manager :: "int P2P" where
  "sample_manager = \<lparr>net = 1, clients = [], bootstrapPeers = [], shuttingDown = False, rejectBackoff = defaultRejectBackoff,
     rejectBackoffMax = defaultRejectBackoffMax, knownPeers = [], p2p_gossip = None\<rparr>"

lemma sample_manager_new: "NewManager (\<lambda>a w. (Inr (), w)) 0 1 = Inr sample_manager"
  by (simp add: NewManager_def NewManagerWithConfig_def sample_manager_def)

theorem picked_provider_joined_witness:
  "\<exists>tr' p'. PickProvider (\<lambda>xs. xs) (Some (SnapshotConns (\<lambda>xs. xs) (p2p_run sample_host [Joined ''x'', Joined ''q''] sample_manager))) None
       \<lparr>rr = 0, lastUsed = None\<rparr> = (Inr (''q'', 7), tr', p') \<and>
     topic_member sample_host [Joined ''x'', Joined ''q''] ''q''"
proof -
  have conns: "SnapshotConns (\<lambda>xs. xs) (p2p_run sample_host [Joined ''x'', Joined ''q''] sample_manager) = [(''q'', 7)]"
    by (simp add: SnapshotConns_def p2p_run_def onGossipPeerJoin_def recordKnownPeer_def isRejected_def connectRPCPeer_def
        setKnownPeerConnected_def p2p_now_def on_net_def new_knownPeer_def Time_IsZero_def sample_host_def sample_manager_def Let_def)
  have pick: "PickProvider (\<lambda>xs. xs) (Some [(''q'', 7 :: conn)]) None \<lparr>rr = 0, lastUsed = None\<rparr> =
      (Inr (''q'', 7), None, \<lparr>rr = 1, lastUsed = Some ''q''\<rparr>)"
    by (simp add: PickProvider_def Let_def)
  have "topic_member sample_host [Joined ''x'', Joined ''q''] ''q''"
    using picked_provider_joined [OF sample_manager_new [unfolded NewManager_def] range_ok_id range_ok_id pick [folded conns]] by blast
  then show ?thesis unfolding conns pick by blast
qed


text \<open>
  The backoff of a peer that keeps failing vanishes. With the default of thirty seconds the
  product overflows at the thirtieth rejection, where the backoff is negative, and from the
  fifty-fifth rejection on it is zero; the counter is never reset.
\<close>

theorem backoff_vanishes:
  assumes "rejectBackoff s = defaultRejectBackoff" "0 \<le> sint (rejectBackoffMax s)"
  shows "sint (backoff_for s 30) < 0 \<and> (\<forall>rejects. 55 \<le> sint rejects \<longrightarrow> backoff_for s rejects = 0)"
proof (intro conjI allI impI)
  have "sint (defaultRejectBackoff * push_bit 29 1) < 0" by code_simp
  then show "sint (backoff_for s 30) < 0" using assms by (simp add: backoff_for_def Let_def)
next
  fix rejects :: "64 word" assume r: "55 \<le> sint rejects"
  have "uint (rejects - 1) = uint (word_of_int (sint rejects - 1) :: 64 word)" by simp
  also have "\<dots> = (sint rejects - 1) mod 2 ^ 64" unfolding unsigned_of_int take_bit_eq_mod by simp
  finally have "uint (rejects - 1) = sint rejects - 1" using r sint_range64 [of rejects] by simp
  then have "54 \<le> unat (rejects - 1)" using r by (simp add: unat_eq_nat_uint)
  then have "(2 :: 64 word) ^ (10 + unat (rejects - 1)) = 0" by (simp only: exp_eq_zero_iff) simp
  moreover have "defaultRejectBackoff * 2 ^ n = 29296875 * 2 ^ (10 + n)" for n by (simp add: defaultRejectBackoff_def power_add)
  ultimately have "defaultRejectBackoff * 2 ^ unat (rejects - 1) = 0" by (metis mult_zero_right)
  then show "backoff_for s rejects = 0" using assms r by (simp add: backoff_for_def Let_def push_bit_eq_mult)
qed

end
