(* ===== verification/Test_Server.thy ===== *)
theory Test_Server
  imports Peer_Manager
begin

text \<open>
  The server that the integration tests talk to, \<open>integration/p2p/server/server.go\<close>: ping, SQL
  statements, the list of commits, the head and the peer counts. Each call goes to the node if
  there is one (\<open>hasNode\<close>) and to its database otherwise. The execution of a statement by the
  SQL engine is a parameter.
\<close>

section \<open>Handlers\<close>

definition Tester_Ping :: "bool \<Rightarrow> string \<Rightarrow> string result" where
  "Tester_Ping remotePeer ping =
     (if \<not> remotePeer then Inl (ErrText ''no AuthInfo in context'') else Inr (''Ping: '' @ ping @ ''!''))"

definition sql_func :: "(session \<Rightarrow> string \<Rightarrow> 'w \<Rightarrow> unit result \<times> 'w) \<Rightarrow> string \<Rightarrow> 'w ExecFunc" where
  "sql_func run statement tx w =
     (case run tx statement w of
        (Inl err, w') \<Rightarrow> (Inl (ErrText (''failed to insert: '' @ error_text err)), w')
      | (Inr _, w') \<Rightarrow> (Inr (), w'))"

definition Tester_ExecSQL ::
  "'w env \<Rightarrow> (session \<Rightarrow> string \<Rightarrow> 'w \<Rightarrow> unit result \<times> 'w) \<Rightarrow> bool \<Rightarrow> string \<Rightarrow> string \<Rightarrow> ('w, 'm, (string \<times> string) result) node_prog" where
  "Tester_ExecSQL V run hasNode statement msg = do {
     r \<leftarrow> (if hasNode then Node_ExecAndCommit V (sql_func run statement) msg else DB_ExecAndCommit V (sql_func run statement) msg);
     case r of
       Inl err \<Rightarrow> return (Inl err)
     | Inr commit \<Rightarrow> return (Inr ('''', commit)) }"

record userCommit =
  uc_hash :: string
  uc_hlc :: HLCTimestamp

definition user_commit :: "Commit \<Rightarrow> userCommit option" where
  "user_commit commit =
     (case ParseCommitMetadata (commit_Message commit) of
        Inl err \<Rightarrow> None
      | Inr meta \<Rightarrow> if meta_Kind meta \<noteq> CommitKindUser then None else Some \<lparr>uc_hash = commit_Hash commit, uc_hlc = meta_HLC meta\<rparr>)"

definition user_less :: "userCommit \<Rightarrow> userCommit \<Rightarrow> bool" where
  "user_less a b = (if Equal (uc_hlc a) (uc_hlc b) then uc_hash a < uc_hash b else Less (uc_hlc a) (uc_hlc b))"

definition commit_list :: "Commit list \<Rightarrow> string list" where
  "commit_list commits = map uc_hash (sort_slice user_less (List.map_filter user_commit commits))"

definition Tester_GetAllCommits :: "'w env \<Rightarrow> bool \<Rightarrow> ('w, 'm, string list result) node_prog" where
  "Tester_GetAllCommits V hasNode = do {
     r \<leftarrow> GetAllCommits V;
     case r of
       Inl err \<Rightarrow> return (Inl err)
     | Inr commits \<Rightarrow> return (Inr (commit_list commits)) }"

definition Tester_GetHead :: "'w env \<Rightarrow> bool \<Rightarrow> ('w, 'm, string result) node_prog" where
  "Tester_GetHead V hasNode = do {
     r \<leftarrow> GetLastCommit V ''main'';
     case r of
       Inl err \<Rightarrow> return (Inl err)
     | Inr commit \<Rightarrow> return (Inr (commit_Hash commit)) }"

definition Tester_SetPeerLimits :: "unit result" where
  "Tester_SetPeerLimits = Inr ()"

text \<open>The counts as \<open>int32\<close>, with the text of an error that is part of the response.\<close>

definition Tester_GetPeerCounts :: "'w Host \<Rightarrow> 'w P2P option \<Rightarrow> (int32 \<times> int32 \<times> int32) \<times> string" where
  "Tester_GetPeerCounts H stats =
     (case stats of
        None \<Rightarrow> ((0, 0, 0), ''peer stats not configured'')
      | Some s \<Rightarrow>
          (case PeerCounts H s of
             (hostPeers, grpcPeers, gossipPeers) \<Rightarrow> ((word_of_nat hostPeers, word_of_nat grpcPeers, word_of_nat gossipPeers), '''')))"

section \<open>The list of commits is canonical\<close>

lemma user_less_key: "user_less a b \<longleftrightarrow> (uc_hlc a, uc_hash a) < (uc_hlc b, uc_hash b)"
  by (auto simp: user_less_def Less_less less_prod_simp)

interpretation user: slice_order user_less
  by unfold_locales (auto simp: user_less_key)

lemma user_comparable: "comparable user_less A"
proof -
  have "a \<noteq> b \<Longrightarrow> (uc_hlc a, uc_hash a) \<noteq> (uc_hlc b, uc_hash b)" for a b :: userCommit by (cases a, cases b) auto
  then show ?thesis unfolding comparable_def user_less_key by (metis linorder_neq_iff)
qed

text \<open>
  C25: the list of commits that the server returns is canonical. Two replicas whose histories
  hold the same user commits, whatever other commits they have and in whatever order their
  histories list them, return the same list; it holds the hash of each user commit, by
  ascending timestamp.
\<close>

theorem commit_list_canonical:
  assumes "mset (List.map_filter user_commit cs) = mset (List.map_filter user_commit ds)"
  shows "commit_list cs = commit_list ds \<and>
    (\<exists>us. commit_list cs = map uc_hash us \<and> mset us = mset (List.map_filter user_commit cs) \<and> sorted (map uc_hlc us))"
proof -
  let ?us = "sort_slice user_less (List.map_filter user_commit cs)"
  have "?us = sort_slice user_less (List.map_filter user_commit ds)"
    using assms user_comparable by (rule user.sort_slice_cong_mset)
  moreover have "sorted (map uc_hlc ?us)"
    using user.sorted_sort_slice [of "List.map_filter user_commit cs"]
    by (auto simp: slice_sorted_def sorted_map user_less_key less_prod_simp not_less elim!: sorted_wrt_mono_rel [rotated])
  ultimately show ?thesis unfolding commit_list_def by (metis mset_sort_slice)
qed

theorem commit_list_canonical_witness:
  "commit_list [ref_commit ''b'' signed_message, ref_commit ''a'' signed_message] =
   commit_list [ref_commit ''a'' signed_message, ref_commit ''b'' signed_message] \<and>
   commit_list [ref_commit ''a'' signed_message, ref_commit ''b'' signed_message] = [''a'', ''b'']"
proof -
  have k: "meta_Kind signed_sample = CommitKindUser" by (simp add: signed_sample_def sample_metadata_def NewCommitMetadata_def)
  have u: "user_commit (ref_commit h signed_message) = Some \<lparr>uc_hash = h, uc_hlc = meta_HLC signed_sample\<rparr>" for h
    by (simp add: user_commit_def ref_commit_def Parse_signed_message k)
  then have "commit_list [ref_commit ''b'' signed_message, ref_commit ''a'' signed_message] =
      commit_list [ref_commit ''a'' signed_message, ref_commit ''b'' signed_message]"
    using commit_list_canonical [of "[ref_commit ''b'' signed_message, ref_commit ''a'' signed_message]"
      "[ref_commit ''a'' signed_message, ref_commit ''b'' signed_message]"] by (simp add: List.map_filter_simps)
  moreover have "commit_list [ref_commit ''a'' signed_message, ref_commit ''b'' signed_message] = [''a'', ''b'']"
    by (simp add: commit_list_def List.map_filter_simps u user_less_def less_char_def)
  ultimately show ?thesis by blast
qed

end
