(* ===== verification/Peer_Key.thy ===== *)
theory Peer_Key
  imports Database
begin

text \<open>
  The key of a peer, the signer of \<open>integration/p2p/p2p.go\<close>: signing and verifying with base36
  signatures and base64 public keys, and loading or creating the key file. The base64 encoding
  of the Go library is defined here; the cryptography and base36 are parameters. The signer
  satisfies the contract that the commit metadata relies on.
\<close>

section \<open>Base64\<close>

text \<open>\<open>base64.StdEncoding\<close>: three bytes make four characters, with padding at the end.\<close>

definition b64_alphabet :: string where
  "b64_alphabet = ''ABCDEFGHIJKLMNOPQRSTUVWXYZabcdefghijklmnopqrstuvwxyz0123456789+/''"

definition b64_char :: "nat \<Rightarrow> char" where
  "b64_char n = b64_alphabet ! n"

definition b64_value :: "char \<Rightarrow> nat option" where
  "b64_value c = (let n = length (takeWhile (\<lambda>x. x \<noteq> c) b64_alphabet) in if n < length b64_alphabet then Some n else None)"

fun b64_encode :: "string \<Rightarrow> string" where
  "b64_encode [] = []"
| "b64_encode [a] =
     (let n = of_char a * 65536 in [b64_char (n div 262144), b64_char (n div 4096 mod 64), CHR ''='', CHR ''=''])"
| "b64_encode [a, b] =
     (let n = of_char a * 65536 + of_char b * 256
      in [b64_char (n div 262144), b64_char (n div 4096 mod 64), b64_char (n div 64 mod 64), CHR ''=''])"
| "b64_encode (a # b # c # s) =
     (let n = of_char a * 65536 + of_char b * 256 + of_char c
      in [b64_char (n div 262144), b64_char (n div 4096 mod 64), b64_char (n div 64 mod 64), b64_char (n mod 64)] @ b64_encode s)"

definition b64_bytes :: "nat \<Rightarrow> string" where
  "b64_bytes n = [char_of (n div 65536), char_of (n div 256 mod 256), char_of (n mod 256)]"

text \<open>The quanta of the input; padding is accepted in the last one only.\<close>

fun b64_quanta :: "string \<Rightarrow> string option" where
  "b64_quanta [] = Some []"
| "b64_quanta (p # q # r # t # s) =
     (case (b64_value p, b64_value q) of
        (Some a, Some b) \<Rightarrow>
          if r = CHR ''='' \<and> t = CHR ''='' \<and> s = [] then Some (take 1 (b64_bytes (a * 262144 + b * 4096)))
          else (case b64_value r of
                  None \<Rightarrow> None
                | Some c \<Rightarrow>
                    if t = CHR ''='' \<and> s = [] then Some (take 2 (b64_bytes (a * 262144 + b * 4096 + c * 64)))
                    else (case (b64_value t, b64_quanta s) of
                            (Some d, Some rest) \<Rightarrow> Some (b64_bytes (a * 262144 + b * 4096 + c * 64 + d) @ rest)
                          | _ \<Rightarrow> None))
      | _ \<Rightarrow> None)"
| "b64_quanta _ = None"

text \<open>\<open>DecodeString\<close> ignores line ends.\<close>

definition b64_decode :: "string \<Rightarrow> string result" where
  "b64_decode s =
     (case b64_quanta (filter (\<lambda>c. c \<noteq> CHR 0x0A \<and> c \<noteq> CHR 0x0D) s) of
        None \<Rightarrow> Inl (ErrText ''illegal base64 data'')
      | Some b \<Rightarrow> Inr b)"

lemma b64_char_facts: "n < 64 \<Longrightarrow> b64_value (b64_char n) = Some n \<and> b64_char n \<noteq> CHR ''='' \<and> b64_char n \<noteq> CHR 0x0A \<and> b64_char n \<noteq> CHR 0x0D"
proof -
  have "list_all (\<lambda>n. b64_value (b64_char n) = Some n \<and> b64_char n \<noteq> CHR ''='' \<and> b64_char n \<noteq> CHR 0x0A \<and> b64_char n \<noteq> CHR 0x0D) [0..<64]"
    by code_simp
  then show "n < 64 \<Longrightarrow> ?thesis" unfolding list_all_iff by (rule bspec) simp
qed

lemma of_char_range: "of_char c < (256 :: nat)"
  by simp

lemma b64_quanta_digits:
  assumes "i < 64" "j < 64"
  shows "b64_quanta (b64_char i # b64_char j # ''=='') = Some (take 1 (b64_bytes (i * 262144 + j * 4096)))"
    and "k < 64 \<Longrightarrow> b64_quanta (b64_char i # b64_char j # b64_char k # ''='') = Some (take 2 (b64_bytes (i * 262144 + j * 4096 + k * 64)))"
    and "k < 64 \<Longrightarrow> l < 64 \<Longrightarrow> b64_quanta s = Some rest \<Longrightarrow>
      b64_quanta (b64_char i # b64_char j # b64_char k # b64_char l # s) =
      Some (b64_bytes (i * 262144 + j * 4096 + k * 64 + l) @ rest)"
  using b64_char_facts [OF assms(1)] b64_char_facts [OF assms(2)] b64_char_facts [of k] b64_char_facts [of l]
  by simp_all

lemma quantum_digits: "n div 262144 * 262144 + n div 4096 mod 64 * 4096 + n div 64 mod 64 * 64 + n mod 64 = (n :: nat)"
proof -
  define x where "x = n div 64"
  define y where "y = x div 64"
  have combine: "q * 64 + r = y \<Longrightarrow> y * 64 + a = x \<Longrightarrow> x * 64 + b = n \<Longrightarrow> q * 262144 + r * 4096 + a * 64 + b = n" for q r a b
    by arith
  have "n div 4096 = y" "n div 262144 = y div 64" by (simp_all add: x_def y_def flip: div_mult2_eq)
  then show ?thesis unfolding x_def [symmetric] by (simp only:) (rule combine, simp_all add: x_def y_def)
qed

lemma quantum_bytes:
  fixes a b c :: nat
  assumes "a < 256" "b < 256" "c < 256" and n: "n = a * 65536 + b * 256 + c"
  shows "n div 262144 < 64" "n div 65536 = a" "n div 256 mod 256 = b" "n mod 256 = c"
proof -
  show "n div 262144 < 64" using assms by simp
  show "n div 65536 = a" by (rule div_nat_eqI) (use assms in simp_all)
  have "n div 256 = a * 256 + b" by (rule div_nat_eqI) (use assms in simp_all)
  then show "n div 256 mod 256 = b" using assms(2) by simp
  have "n = c + 256 * (a * 256 + b)" using n by simp
  then show "n mod 256 = c" using assms(3) by (simp only: mod_mult_self2 mod_less)
qed

lemma b64_bytes_of:
  assumes "n = of_char a * 65536 + of_char b * 256 + of_char c"
  shows "b64_bytes n = [a, b, c]"
  using quantum_bytes(2-4) [OF of_char_range of_char_range of_char_range assms] by (simp add: b64_bytes_def)

lemma top_digit: "of_char a * 65536 + of_char b * 256 + of_char c = n \<Longrightarrow> n div 262144 < (64 :: nat)"
  using quantum_bytes(1) [OF of_char_range of_char_range of_char_range, of n a b c] by simp

lemma of_char_0: "of_char (char_of (0 :: nat)) = (0 :: nat)"
  by simp

lemma b64_quanta_encode: "b64_quanta (b64_encode s) = Some s"
proof (induction s rule: b64_encode.induct)
  case (2 a)
  define n where "n = of_char a * (65536 :: nat)"
  have n: "n = of_char a * 65536 + of_char (char_of (0 :: nat)) * 256 + of_char (char_of (0 :: nat))" unfolding of_char_0 n_def by simp
  have "n = 64 * (64 * (16 * of_char a))" by (simp add: n_def)
  then have "n div 64 = 64 * (16 * of_char a)" "n mod 64 = 0" by (simp_all only: nonzero_mult_div_cancel_left mod_mult_self1_is_0 numeral_neq_zero)
  then have "n div 64 mod 64 = 0" "n mod 64 = 0" by (simp_all only: mod_mult_self1_is_0)
  then have "n div 262144 * 262144 + n div 4096 mod 64 * 4096 = n" using quantum_digits [of n] by simp
  then have "b64_quanta (b64_char (n div 262144) # b64_char (n div 4096 mod 64) # ''=='') = Some [a]"
    using b64_quanta_digits(1) [of "n div 262144" "n div 4096 mod 64"] top_digit [OF n [symmetric]] b64_bytes_of [OF n] by simp
  then show ?case by (simp only: b64_encode.simps Let_def n_def)
next
  case (3 a b)
  define n where "n = of_char a * 65536 + of_char b * (256 :: nat)"
  have n: "n = of_char a * 65536 + of_char b * 256 + of_char (char_of (0 :: nat))" unfolding of_char_0 n_def by simp
  have "n = 64 * (1024 * of_char a + 4 * of_char b)" by (simp add: n_def)
  then have "n mod 64 = 0" by (simp only: mod_mult_self1_is_0)
  then have "n div 262144 * 262144 + n div 4096 mod 64 * 4096 + n div 64 mod 64 * 64 = n" using quantum_digits [of n] by simp
  then have "b64_quanta (b64_char (n div 262144) # b64_char (n div 4096 mod 64) # b64_char (n div 64 mod 64) # ''='') = Some [a, b]"
    using b64_quanta_digits(2) [of "n div 262144" "n div 4096 mod 64" "n div 64 mod 64"] top_digit [OF n [symmetric]] b64_bytes_of [OF n] by simp
  then show ?case by (simp only: b64_encode.simps Let_def n_def)
next
  case (4 a b c s)
  define n where "n = of_char a * 65536 + of_char b * 256 + (of_char c :: nat)"
  have "b64_quanta (b64_char (n div 262144) # b64_char (n div 4096 mod 64) # b64_char (n div 64 mod 64) # b64_char (n mod 64) # b64_encode s) =
      Some ([a, b, c] @ s)"
    using b64_quanta_digits(3) [of "n div 262144" "n div 4096 mod 64" "n div 64 mod 64" "n mod 64" "b64_encode s" s]
      top_digit [OF n_def [symmetric]] b64_bytes_of [OF n_def] 4 quantum_digits [of n] by simp
  then show ?case by (simp only: b64_encode.simps Let_def n_def append_Cons append_Nil)
qed simp

lemma b64_encode_lines: "\<forall>c \<in> set (b64_encode s). c \<noteq> CHR 0x0A \<and> c \<noteq> CHR 0x0D"
proof (induction s rule: b64_encode.induct)
  case (2 a)
  have "of_char a * 65536 div 262144 < (64 :: nat)" using of_char_range [of a] by linarith
  then show ?case using b64_char_facts by (simp add: Let_def)
next
  case (3 a b)
  have "(of_char a * 65536 + of_char b * 256) div 262144 < (64 :: nat)" using of_char_range [of a] of_char_range [of b] by linarith
  then show ?case using b64_char_facts by (simp add: Let_def)
next
  case (4 a b c s)
  have "(of_char a * 65536 + of_char b * 256 + of_char c) div 262144 < (64 :: nat)"
    using of_char_range [of a] of_char_range [of b] of_char_range [of c] by linarith
  then show ?case using b64_char_facts 4 by (simp add: Let_def)
qed simp

lemma b64_round_trip: "b64_decode (b64_encode s) = Inr s"
proof -
  have "filter (\<lambda>c. c \<noteq> CHR 0x0A \<and> c \<noteq> CHR 0x0D) (b64_encode s) = b64_encode s" using b64_encode_lines by (simp add: filter_id_conv)
  then show ?thesis by (simp add: b64_decode_def b64_quanta_encode)
qed

section \<open>Keys\<close>

record ('k, 'p, 'w) crypto_lib =
  cr_Sign :: "'k \<Rightarrow> string \<Rightarrow> string result"
  cr_Verify :: "'p \<Rightarrow> string \<Rightarrow> string \<Rightarrow> bool result"
  cr_GetPublic :: "'k \<Rightarrow> 'p"
  cr_MarshalPublicKey :: "'p \<Rightarrow> string result"
  cr_UnmarshalPublicKey :: "string \<Rightarrow> 'p result"
  cr_MarshalPrivateKey :: "'k \<Rightarrow> string result"
  cr_UnmarshalPrivateKey :: "string \<Rightarrow> 'k result"
  cr_IDFromPrivateKey :: "'k \<Rightarrow> string result"
  cr_GenerateKeyPair :: "'w \<Rightarrow> 'k result \<times> 'w"
  b36_EncodeBytes :: "string \<Rightarrow> string"
  b36_DecodeToBytes :: "string \<Rightarrow> string"

definition Key_Sign :: "('k, 'p, 'w) crypto_lib \<Rightarrow> 'k \<Rightarrow> string \<Rightarrow> string result" where
  "Key_Sign K prvKey commit =
     (case cr_Sign K prvKey commit of
        Inl err \<Rightarrow> Inl (ErrWrap ''failed to create signature'' err)
      | Inr sig \<Rightarrow> Inr (b36_EncodeBytes K sig))"

definition Key_Verify :: "('k, 'p, 'w) crypto_lib \<Rightarrow> string \<Rightarrow> string \<Rightarrow> string \<Rightarrow> unit result" where
  "Key_Verify K commit signature publicKey =
     (case b64_decode publicKey of
        Inl err \<Rightarrow> Inl (ErrWrap ''failed to decode public key'' err)
      | Inr pubKeyBytes \<Rightarrow>
          (case cr_UnmarshalPublicKey K pubKeyBytes of
             Inl err \<Rightarrow> Inl (ErrWrap ''failed to unmarshal public key'' err)
           | Inr pubKey \<Rightarrow>
               (case cr_Verify K pubKey commit (b36_DecodeToBytes K signature) of
                  Inl err \<Rightarrow> Inl (ErrWrap ''failed to verify signature'' err)
                | Inr verified \<Rightarrow>
                    if \<not> verified
                    then Inl (ErrText (''verification failed for public key '' @ publicKey @ '' commit '' @ commit @ '' signature '' @ signature @ '' ''))
                    else Inr ())))"

definition Key_PublicKey :: "('k, 'p, 'w) crypto_lib \<Rightarrow> 'k \<Rightarrow> string result" where
  "Key_PublicKey K prvKey =
     (case cr_MarshalPublicKey K (cr_GetPublic K prvKey) of
        Inl err \<Rightarrow> Inl (ErrPanic (error_text err))
      | Inr mPubKey \<Rightarrow> Inr (b64_encode mPubKey))"

definition Key_GetID :: "('k, 'p, 'w) crypto_lib \<Rightarrow> 'k \<Rightarrow> string result" where
  "Key_GetID K prvKey =
     (case cr_IDFromPrivateKey K prvKey of
        Inl err \<Rightarrow> Inl (ErrPanic (error_text err))
      | Inr i \<Rightarrow> Inr i)"

text \<open>The signer that a node is given, for a key whose public key and name can be computed.\<close>

definition key_signer :: "('k, 'p, 'w) crypto_lib \<Rightarrow> 'k \<Rightarrow> string \<Rightarrow> string \<Rightarrow> Signer" where
  "key_signer K prvKey pub i = \<lparr>sgn_Sign = Key_Sign K prvKey, sgn_Verify = Key_Verify K, sgn_PublicKey = pub, sgn_GetID = i\<rparr>"

section \<open>The key file\<close>

datatype fstat = NotExist | StatError go_error | Directory | RegularFile

record 'w files =
  fs_Stat :: "string \<Rightarrow> 'w \<Rightarrow> fstat"
  fs_Mkdir :: "string \<Rightarrow> 'w \<Rightarrow> unit result \<times> 'w"
  fs_ReadFile :: "string \<Rightarrow> 'w \<Rightarrow> string result"
  fs_WriteFile :: "string \<Rightarrow> string \<Rightarrow> 'w \<Rightarrow> unit result \<times> 'w"

definition NewKeyInMemory :: "('k, 'p, 'w) crypto_lib \<Rightarrow> 'w \<Rightarrow> 'k result \<times> 'w" where
  "NewKeyInMemory K w = (case cr_GenerateKeyPair K w of (Inl err, w') \<Rightarrow> (Inl err, w') | (Inr prvKey, w') \<Rightarrow> (Inr prvKey, w'))"

text \<open>\<open>NewKey\<close> is in two parts: the directory, and the key file in it.\<close>

definition ensure_workdir :: "'w files \<Rightarrow> string \<Rightarrow> 'w \<Rightarrow> unit result \<times> 'w" where
  "ensure_workdir F workdir w =
     (case fs_Stat F workdir w of
        NotExist \<Rightarrow> fs_Mkdir F workdir w
      | StatError err \<Rightarrow> (Inl err, w)
      | Directory \<Rightarrow> (Inr (), w)
      | RegularFile \<Rightarrow> (Inl (ErrText (''workdir '' @ workdir @ '' is not a directory'')), w))"

definition key_file :: "('k, 'p, 'w) crypto_lib \<Rightarrow> 'w files \<Rightarrow> string \<Rightarrow> 'w \<Rightarrow> 'k result \<times> 'w" where
  "key_file K F keyFile w =
     (case fs_Stat F keyFile w of
        NotExist \<Rightarrow>
          (case cr_GenerateKeyPair K w of
             (Inl err, w1) \<Rightarrow> (Inl err, w1)
           | (Inr prvKey, w1) \<Rightarrow>
               (case cr_MarshalPrivateKey K prvKey of
                  Inl err \<Rightarrow> (Inl err, w1)
                | Inr prvKeyBytes \<Rightarrow>
                    (case fs_WriteFile F keyFile prvKeyBytes w1 of
                       (Inl err, w2) \<Rightarrow> (Inl err, w2)
                     | (Inr _, w2) \<Rightarrow> (Inr prvKey, w2))))
      | StatError err \<Rightarrow> (Inl err, w)
      | Directory \<Rightarrow> (Inl (ErrText (''key file '' @ keyFile @ '' is a directory'')), w)
      | RegularFile \<Rightarrow>
          (case fs_ReadFile F keyFile w of
             Inl err \<Rightarrow> (Inl err, w)
           | Inr prvKeyBytes \<Rightarrow>
               (case cr_UnmarshalPrivateKey K prvKeyBytes of
                  Inl err \<Rightarrow> (Inl err, w)
                | Inr prvKey \<Rightarrow> (Inr prvKey, w))))"

definition NewKey :: "('k, 'p, 'w) crypto_lib \<Rightarrow> 'w files \<Rightarrow> string \<Rightarrow> 'w \<Rightarrow> 'k result \<times> 'w" where
  "NewKey K F workdir w =
     (case ensure_workdir F workdir w of
        (Inl err, w1) \<Rightarrow> (Inl err, w1)
      | (Inr _, w1) \<Rightarrow> key_file K F (workdir @ ''/key'') w1)"

section \<open>Laws and properties\<close>

text \<open>
  A signature made with a key verifies under its public key; keys and signatures survive
  their encodings. Generating a key leaves the files alone, and what is written is read back.
\<close>

definition crypto_laws :: "('k, 'p, 'w) crypto_lib \<Rightarrow> bool" where
  "crypto_laws K \<longleftrightarrow>
     (\<forall>k d sig. cr_Sign K k d = Inr sig \<longrightarrow> cr_Verify K (cr_GetPublic K k) d sig = Inr True) \<and>
     (\<forall>p b. cr_MarshalPublicKey K p = Inr b \<longrightarrow> cr_UnmarshalPublicKey K b = Inr p) \<and>
     (\<forall>k b. cr_MarshalPrivateKey K k = Inr b \<longrightarrow> cr_UnmarshalPrivateKey K b = Inr k) \<and>
     (\<forall>b. b36_DecodeToBytes K (b36_EncodeBytes K b) = b)"

definition file_laws :: "('k, 'p, 'w) crypto_lib \<Rightarrow> 'w files \<Rightarrow> bool" where
  "file_laws K F \<longleftrightarrow>
     (\<forall>d w w'. fs_Mkdir F d w = (Inr (), w') \<longrightarrow> fs_Stat F d w' = Directory) \<and>
     (\<forall>f b w w'. fs_WriteFile F f b w = (Inr (), w') \<longrightarrow> fs_Stat F f w' = RegularFile \<and> fs_ReadFile F f w' = Inr b \<and>
        (\<forall>g. g \<noteq> f \<longrightarrow> fs_Stat F g w' = fs_Stat F g w)) \<and>
     (\<forall>w g. fs_Stat F g (snd (cr_GenerateKeyPair K w)) = fs_Stat F g w)"

text \<open>
  C24: the signer of a peer keeps the contract that commits rely on. Whatever data the key of
  a peer signs, the signature verifies under the public key in the form in which the peer
  hands it out, through the base36 and base64 encodings.
\<close>

theorem key_signer_correct:
  assumes "crypto_laws K" "Key_PublicKey K k = Inr pub"
  shows "signer_correct (key_signer K k pub i)"
proof -
  obtain b where b: "cr_MarshalPublicKey K (cr_GetPublic K k) = Inr b" "pub = b64_encode b"
    using assms(2) by (auto simp: Key_PublicKey_def split: sum.splits)
  then have "cr_UnmarshalPublicKey K b = Inr (cr_GetPublic K k)" using assms(1) by (simp add: crypto_laws_def)
  then have "Key_Verify K d s pub = Inr ()" if "Key_Sign K k d = Inr s" for d s
    using that assms(1) b(2) by (auto simp: Key_Sign_def Key_Verify_def b64_round_trip crypto_laws_def split: sum.splits)
  then show ?thesis by (simp add: signer_correct_def key_signer_def)
qed

text \<open>
  C30: a peer keeps its identity over restarts. When \<open>NewKey\<close> has returned a key for a directory,
  every later call for this directory returns the same key and changes nothing, as long as
  the directory and the key file are left as they were.
\<close>

theorem NewKey_stable:
  assumes laws: "crypto_laws K" "file_laws K F" and first: "NewKey K F workdir w = (Inr k, w')"
    and same: "fs_Stat F workdir v = fs_Stat F workdir w'" "fs_Stat F (workdir @ ''/key'') v = fs_Stat F (workdir @ ''/key'') w'"
      "fs_ReadFile F (workdir @ ''/key'') v = fs_ReadFile F (workdir @ ''/key'') w'"
  shows "NewKey K F workdir v = (Inr k, v)"
proof -
  let ?f = "workdir @ ''/key''"
  obtain w1 where w1: "ensure_workdir F workdir w = (Inr (), w1)" "key_file K F ?f w1 = (Inr k, w')"
    using first by (auto simp: NewKey_def split: prod.splits sum.splits)
  have dir: "fs_Stat F workdir w1 = Directory"
    using w1(1) laws(2) by (auto simp: ensure_workdir_def file_laws_def split: fstat.splits)
  have "fs_Stat F workdir w' = Directory \<and> fs_Stat F ?f w' = RegularFile \<and>
      (\<exists>b. fs_ReadFile F ?f w' = Inr b \<and> cr_UnmarshalPrivateKey K b = Inr k)"
  proof (cases "fs_Stat F ?f w1")
    case NotExist
    then obtain w2 b where g: "cr_GenerateKeyPair K w1 = (Inr k, w2)" "cr_MarshalPrivateKey K k = Inr b" "fs_WriteFile F ?f b w2 = (Inr (), w')"
      using w1(2) by (auto simp: key_file_def split: prod.splits sum.splits)
    have "fs_Stat F workdir w2 = Directory" using laws(2) g(1) dir unfolding file_laws_def by (metis snd_conv)
    moreover have "cr_UnmarshalPrivateKey K b = Inr k" using laws(1) g(2) by (simp add: crypto_laws_def)
    ultimately show ?thesis using laws(2) g(3) by (simp add: file_laws_def)
  qed (use w1(2) dir in \<open>auto simp: key_file_def split: sum.splits\<close>)
  then show ?thesis using same by (auto simp: NewKey_def ensure_workdir_def key_file_def)
qed

text \<open>
  An instance: the key is its text, a signature is the key and the data, and the world is a
  directory listing with at most one file.
\<close>

definition sample_crypto :: "(string, string, (string \<times> string option) list) crypto_lib" where
  "sample_crypto = \<lparr>cr_Sign = (\<lambda>k d. Inr (k @ d)), cr_Verify = (\<lambda>p d sig. Inr (sig = p @ d)), cr_GetPublic = (\<lambda>k. k),
     cr_MarshalPublicKey = Inr, cr_UnmarshalPublicKey = Inr, cr_MarshalPrivateKey = Inr, cr_UnmarshalPrivateKey = Inr,
     cr_IDFromPrivateKey = Inr, cr_GenerateKeyPair = (\<lambda>w. (Inr ''k'', w)), b36_EncodeBytes = (\<lambda>b. b), b36_DecodeToBytes = (\<lambda>b. b)\<rparr>"

definition sample_files :: "(string \<times> string option) list files" where
  "sample_files = \<lparr>fs_Stat = (\<lambda>f w. case map_of w f of None \<Rightarrow> NotExist | Some None \<Rightarrow> Directory | Some (Some b) \<Rightarrow> RegularFile),
     fs_Mkdir = (\<lambda>d w. (Inr (), (d, None) # w)),
     fs_ReadFile = (\<lambda>f w. case map_of w f of Some (Some b) \<Rightarrow> Inr b | _ \<Rightarrow> Inl (ErrText ''no file'')),
     fs_WriteFile = (\<lambda>f b w. (Inr (), (f, Some b) # w))\<rparr>"

lemma sample_crypto_laws: "crypto_laws sample_crypto" "file_laws sample_crypto sample_files"
  by (simp_all add: crypto_laws_def file_laws_def sample_crypto_def sample_files_def)

theorem key_signer_correct_witness:
  "signer_correct (key_signer sample_crypto ''k'' ''aw=='' ''me'')"
proof -
  have "Key_PublicKey sample_crypto ''k'' = Inr ''aw==''"
    by (simp add: Key_PublicKey_def sample_crypto_def b64_char_def b64_alphabet_def)
  then show ?thesis by (rule key_signer_correct [OF sample_crypto_laws(1)])
qed

theorem NewKey_stable_witness:
  "\<exists>v. NewKey sample_crypto sample_files ''d'' [] = (Inr ''k'', v) \<and> NewKey sample_crypto sample_files ''d'' v = (Inr ''k'', v)"
proof -
  have "NewKey sample_crypto sample_files ''d'' [] = (Inr ''k'', [(''d/key'', Some ''k''), (''d'', None)])" by code_simp
  from NewKey_stable [OF sample_crypto_laws this refl refl refl] this show ?thesis by blast
qed

end
