(* ===== verification/Spec2Isabelle.thy ===== *)
theory Spec2Isabelle
  imports Test_Server Peer_Key
begin

text \<open>
  A verification library of doltswarm, which replicates a Dolt database between peers without a
  leader. Each peer commits locally on \<open>main\<close> with metadata that carry a hybrid logical
  timestamp and a signature, and announces the commit by gossip. Peers that hear of a commit
  fetch the missing chunks from a provider and bring their \<open>main\<close> to a state that is a function
  of the set of commits: by a fast-forward when that is enough, and otherwise by replaying
  all user commits in timestamp order on a temporary branch, to which \<open>main\<close> is then moved.
  Heartbeats tell how far each peer has come; what all have passed is finalized.

  \<^bold>\<open>Theories and sources\<close> (all paths under \<open>src/\<close>).

  \<^item> \<open>Prelude\<close>: results and errors, 64 and 32 bit integers, strings, Go maps as association lists
    whose iteration order is an argument, \<open>sort.Slice\<close> with the locale \<open>slice_order\<close>, state programs.
  \<^item> \<open>HLC\<close>: \<open>protocol/hlc.go\<close>. Timestamps are totally ordered, and issued ones increase.
  \<^item> \<open>Commit_Index\<close>: \<open>core/index.go\<close>, \<open>index_mem.go\<close>, \<open>finalization.go\<close>. The index refines a map, and
    the finalized base never moves back; the locale \<open>commit_index\<close> is its contract.
  \<^item> \<open>Go_Time\<close> and \<open>Go_Json\<close>: the parts of the Go library that fix the encoding of metadata, with
    their round trips. \<open>Metadata\<close>: \<open>protocol/metadata.go\<close>, \<open>messages.go\<close>, \<open>repo_id.go\<close>, \<open>signer.go\<close>,
    \<open>core/commit_ad.go\<close>. Metadata and their signatures survive the encoding.
  \<^item> \<open>Dolt\<close>: the interface of the SQL engine and of the network as a record of functions on a world,
    and the reads of \<open>core/db.go\<close>. \<open>Dolt_Reference\<close>: a small engine that satisfies every law assumed.
  \<^item> \<open>Reconciler\<close> and \<open>Replay\<close>: \<open>core/reconciler_core.go\<close>. What is replayed depends only on the set
    of commits, and the replay moves \<open>main\<close> like a compare-and-swap.
  \<^item> \<open>Database\<close>: \<open>core/db.go\<close>, \<open>sql.go\<close>, \<open>commit_sql_helpers.go\<close>. What opening establishes, what a
    commit sends to the engine, who is notified, and the remote that is established.
  \<^item> \<open>Swarm\<close>: \<open>core/swarm_registry.go\<close>, \<open>swarm_dbfactory.go\<close>. URLs lead back to their repository.
  \<^item> \<open>Node\<close>, \<open>Node_Index\<close>, \<open>Sync_Safety\<close>: the operations of \<open>core/node.go\<close>. Adverts are handled
    according to a verdict, finalization and rebuilding are exact, and a synchronization pass
    moves no branch but \<open>main\<close>. \<open>Run_Loop\<close>: its goroutines and channels as a step relation; no
    request for a synchronization is lost, and no run moves the base back or another branch.
  \<^item> \<open>Chunk_Store\<close>: \<open>core/cache.go\<close>, \<open>remote_chunk_store.go\<close>, \<open>remote_table_file.go\<close> and the factory.
    \<open>Grpc_Swarm\<close>: \<open>integration/transport/grpcswarm\<close> and \<open>transport/provider_hint.go\<close>. \<open>Wire\<close>: both
    ends together; presence, chunks and table files arrive as the server has them.
  \<^item> \<open>Gossip_Sub\<close>: \<open>integration/transport/gossipsub/gossip.go\<close>. A published advert is accepted by
    the node that reads it.
  \<^item> \<open>Peer_Manager\<close> and \<open>Peer_Key\<close>: \<open>integration/p2p/p2p.go\<close>. Providers are peers of the topic, the
    backoff is kept, the key satisfies the contract of signers and is stable.
  \<^item> \<open>Test_Server\<close>: \<open>integration/p2p/server/server.go\<close>. The list of commits is canonical.

  \<^bold>\<open>Reading the model\<close>. A struct is a record with the fields of the source, under a prefix where
  names clash. The node extends the database handle, and both are the state of programs in
  the state monad; the world of the engine and of the network is a type parameter. Errors
  are values, with panics among them. Methods that hold a mutex are single steps. Third-party
  code is a parameter, and what a theorem needs of it is a named predicate, such as
  \<open>branch_laws\<close>, \<open>sync_laws\<close>, \<open>lru_laws\<close>, \<open>serves\<close>, \<open>codec_laws\<close>, \<open>marshal_law\<close> or \<open>crypto_laws\<close>; each
  has an instance, at which the witnesses evaluate the theorems.

  \<^bold>\<open>Bounds\<close>. The traversal of the commit graph takes fuel, a field of the environment; one more
  than the number of edges of the graph is shown to be enough. The loop that sends a file gets one more step than the
  file has bytes, which is enough since each read returns a byte. Other loops are recursions
  on lists or have a measure. Theorems about timestamps, the round robin and the backoff state the range in which the
  machine integers do not wrap around; outside of it they do, as shown beside them.

  \<^bold>\<open>Not modelled\<close>. The demo program, its terminal interface and its command line
  (\<open>integration/main.go\<close>, \<open>ui.go\<close>, \<open>utils.go\<close>) wire the parts and do input and output. The aliases of
  \<open>doltswarm.go\<close>, \<open>core/aliases.go\<close>, \<open>core/protocol_helpers.go\<close>, \<open>transport/types.go\<close> have no behaviour
  of their own, and \<open>integration/transport/overlay\<close> is a pair of fields. Dolt, libp2p, GossipSub, gRPC and the
  generated protobuf code are libraries. Of \<open>p2p.go\<close> the construction of the host and the start
  of its listeners, servers and discovery are left out, and of \<open>db.go\<close> \<open>GetChunkStore\<close>, which
  reaches into Dolt. Log lines, timeouts and the closing of connections on shutdown are not
  part of the state.
\<close>

end
